(* ===== verification/Atlas_Prelude.thy ===== *)
theory Atlas_Prelude
  imports "HOL-Library.Word" "HOL-Library.Monad_Syntax" "HOL-Library.Char_ord"
begin

text \<open>
  Shared types, C library helpers and automation of the ATLAS client development.

  Outcomes. A C function that may run into undefined behaviour (a read or a write outside
  an allocated block, a NULL dereference, a use after free) returns an \<open>option\<close>:
  \<open>None\<close> is the undefined behaviour, \<open>Some r\<close> the normal return. A C pointer that may
  be NULL is an \<open>option\<close> too (\<open>'a ptr\<close>, \<open>None\<close> is NULL).

  Machine integers are words of their C width. The host is little-endian (the x86 and ARM
  Linux targets of the build), so \<open>htons\<close> and \<open>ntohs\<close> swap the two bytes.
  C strings are \<open>string\<close>s without their terminating NUL.
\<close>

unbundle bit_operations_syntax

section \<open>Types\<close>

type_synonym byte = "8 word"
type_synonym u8 = "8 word"
type_synonym u16 = "16 word"
type_synonym u32 = "32 word"
type_synonym 'a ptr = "'a option"

text \<open>Collections of rewrite rules the component proofs share.\<close>

named_theorems mem_simps \<open>reads and writes of memory blocks\<close>
named_theorems batch_simps \<open>command batches built and walked\<close>
named_theorems frame_simps \<open>state fields an operation leaves alone\<close>

section \<open>Status codes (utils/atlas\_status.h)\<close>

datatype atlas_status =
    ATLAS_OK
  | ATLAS_GENERAL_ERR
  | ATLAS_INVALID_HOSTNAME
  | ATLAS_INVALID_PORT
  | ATLAS_COAP_SRV_DTLS_NOT_SUPPORTED
  | ATLAS_COAP_INVALID_URI
  | ATLAS_INVALID_CALLBACK
  | ATLAS_INVALID_DTLS_IDENTITY
  | ATLAS_INVALID_DTLS_PSK
  | ATLAS_IDENTITY_FILE_ERROR
  | ATLAS_PSK_FILE_ERROR
  | ATLAS_INVALID_INPUT
  | ATLAS_CORRUPTED_COMMAND
  | ATLAS_SOCKET_ERROR
  | ATLAS_CORRUPTED_COMMAND_EXECUTION_PAYLOAD
  | ATLAS_DEFERRED_COMMAND_EXECUTION

section \<open>CoAP methods and response codes (coap/atlas\_coap\_method.h, atlas\_coap\_response.h)\<close>

datatype atlas_coap_method =
    ATLAS_COAP_METHOD_GET
  | ATLAS_COAP_METHOD_POST
  | ATLAS_COAP_METHOD_PUT
  | ATLAS_COAP_METHOD_DELETE
  | ATLAS_COAP_METHOD_MAX

datatype atlas_coap_response =
    ATLAS_COAP_RESP_OK
  | ATLAS_COAP_RESP_NOT_FOUND
  | ATLAS_COAP_RESP_NOT_ACCEPTABLE_HERE
  | ATLAS_COAP_RESP_TIMEOUT
  | ATLAS_COAP_RESP_RESET
  | ATLAS_COAP_RESP_UNKNOWN

primrec coap_response_code :: "atlas_coap_response \<Rightarrow> nat" where
  "coap_response_code ATLAS_COAP_RESP_OK = 200"
| "coap_response_code ATLAS_COAP_RESP_NOT_FOUND = 404"
| "coap_response_code ATLAS_COAP_RESP_NOT_ACCEPTABLE_HERE = 406"
| "coap_response_code ATLAS_COAP_RESP_TIMEOUT = 407"
| "coap_response_code ATLAS_COAP_RESP_RESET = 408"
| "coap_response_code ATLAS_COAP_RESP_UNKNOWN = 409"

text \<open>The response codes are ordered by their numbers, as C compares the enumeration.\<close>

instantiation atlas_coap_response :: linorder
begin

definition less_eq_atlas_coap_response :: "atlas_coap_response \<Rightarrow> atlas_coap_response \<Rightarrow> bool" where
  "less_eq_atlas_coap_response a b \<longleftrightarrow> coap_response_code a \<le> coap_response_code b"

definition less_atlas_coap_response :: "atlas_coap_response \<Rightarrow> atlas_coap_response \<Rightarrow> bool" where
  "less_atlas_coap_response a b \<longleftrightarrow> coap_response_code a < coap_response_code b"

instance
proof
  fix a b c :: atlas_coap_response
  show "a < b \<longleftrightarrow> a \<le> b \<and> \<not> b \<le> a"
    by (auto simp: less_eq_atlas_coap_response_def less_atlas_coap_response_def)
  show "a \<le> a" by (simp add: less_eq_atlas_coap_response_def)
  show "a \<le> b \<Longrightarrow> b \<le> c \<Longrightarrow> a \<le> c" by (simp add: less_eq_atlas_coap_response_def)
  show "a \<le> b \<Longrightarrow> b \<le> a \<Longrightarrow> a = b"
    by (cases a; cases b) (simp_all add: less_eq_atlas_coap_response_def)
  show "a \<le> b \<or> b \<le> a" by (auto simp: less_eq_atlas_coap_response_def)
qed

end

section \<open>Bytes and byte order\<close>

definition htons :: "u16 \<Rightarrow> u16" where
  "htons w = push_bit 8 w OR drop_bit 8 w"

text \<open>The two bytes of a \<open>uint16_t\<close> in the memory of the (little-endian) host.\<close>

definition bytes_of_u16 :: "u16 \<Rightarrow> byte list" where
  "bytes_of_u16 w = [ucast w, ucast (drop_bit 8 w)]"

fun u16_of_bytes :: "byte list \<Rightarrow> u16" where
  "u16_of_bytes (lo # hi # _) = ucast lo OR push_bit 8 (ucast hi)"
| "u16_of_bytes _ = 0"

declare u16_of_bytes.simps [simp del]

definition net_bytes :: "u16 \<Rightarrow> byte list" where
  "net_bytes w = bytes_of_u16 (htons w)"

lemma htons_htons [simp]: "htons (htons w) = w"
  by (rule bit_word_eqI) (auto simp: htons_def bit_simps not_le)

lemma length_bytes_of_u16 [simp]: "length (bytes_of_u16 w) = 2"
  by (simp add: bytes_of_u16_def)

lemma length_net_bytes [simp]: "length (net_bytes w) = 2"
  by (simp add: net_bytes_def)

lemma u16_of_bytes_of_u16 [simp]: "u16_of_bytes (bytes_of_u16 w) = w"
  by (rule bit_word_eqI) (auto simp: bytes_of_u16_def u16_of_bytes.simps bit_simps not_le)

lemma bytes_of_u16_of_bytes [simp]: "bytes_of_u16 (u16_of_bytes [a, b]) = [a, b]"
proof -
  have "ucast (ucast a OR push_bit 8 (ucast b) :: u16) = a"
    by (rule bit_word_eqI) (auto simp: bit_simps)
  moreover have "ucast (drop_bit 8 (ucast a OR push_bit 8 (ucast b) :: u16)) = b"
    by (rule bit_word_eqI) (auto simp: bit_simps dest: bit_imp_le_length)
  ultimately show ?thesis by (simp add: bytes_of_u16_def u16_of_bytes.simps)
qed

lemma u16_of_net_bytes [simp]: "htons (u16_of_bytes (net_bytes w)) = w"
  by (simp add: net_bytes_def)

lemma net_bytes_of_wire: "net_bytes (htons (u16_of_bytes [a, b])) = [a, b]"
  by (simp add: net_bytes_def)

lemma net_bytes_inj [simp]: "net_bytes v = net_bytes w \<longleftrightarrow> v = w"
  by (metis u16_of_net_bytes)

lemma list_of_length_2: "length xs = 2 \<Longrightarrow> \<exists>a b. xs = [a, b]"
  by (cases xs; cases "tl xs") auto

section \<open>Memory blocks\<close>

text \<open>A block is the list of its bytes; an access outside it is undefined behaviour.\<close>

definition mem_read :: "byte list \<Rightarrow> nat \<Rightarrow> nat \<Rightarrow> byte list option" where
  "mem_read m off n = (if off + n \<le> length m then Some (take n (drop off m)) else None)"

definition mem_write :: "byte list \<Rightarrow> nat \<Rightarrow> byte list \<Rightarrow> byte list option" where
  "mem_write m off bs =
     (if off + length bs \<le> length m
      then Some (take off m @ bs @ drop (off + length bs) m) else None)"

text \<open>
  \<open>realloc\<close> keeps the common prefix. The new bytes have no determined value in C; the
  model writes 0, and \<open>Commands\<close> shows that the code overwrites all of them.
\<close>

definition mem_realloc :: "byte list ptr \<Rightarrow> nat \<Rightarrow> byte list" where
  "mem_realloc b n = take n ((case b of None \<Rightarrow> [] | Some m \<Rightarrow> m) @ replicate n 0)"

lemma mem_read_append [mem_simps]:
  "off = length xs \<Longrightarrow> n = length ys \<Longrightarrow> mem_read (xs @ ys @ zs) off n = Some ys"
  by (simp add: mem_read_def)

lemma mem_read_prefix [mem_simps]:
  "n = length xs \<Longrightarrow> mem_read (xs @ ys) 0 n = Some xs"
  by (simp add: mem_read_def)

lemma mem_write_append [mem_simps]:
  "off = length xs \<Longrightarrow> length bs = length ys \<Longrightarrow>
   mem_write (xs @ ys @ zs) off bs = Some (xs @ bs @ zs)"
  by (simp add: mem_write_def)

lemma mem_read_append2 [mem_simps]:
  "off = length xs + length ys \<Longrightarrow> n = length zs \<Longrightarrow>
   mem_read (xs @ ys @ zs @ ws) off n = Some zs"
  by (simp add: mem_read_def)

lemma mem_write_append2 [mem_simps]:
  "off = length xs + length ys \<Longrightarrow> length bs = length zs \<Longrightarrow>
   mem_write (xs @ ys @ zs @ ws) off bs = Some (xs @ ys @ bs @ ws)"
  by (simp add: mem_write_def)

lemma mem_read_Some_iff: "(\<exists>r. mem_read m off n = Some r) \<longleftrightarrow> off + n \<le> length m"
  by (simp add: mem_read_def)

lemma length_mem_read: "mem_read m off n = Some r \<Longrightarrow> length r = n"
  by (auto simp: mem_read_def split: if_splits)

lemma length_mem_write: "mem_write m off bs = Some r \<Longrightarrow> length r = length m"
  by (auto simp: mem_write_def split: if_splits)

lemma length_mem_realloc [simp]: "length (mem_realloc b n) = n"
  by (simp add: mem_realloc_def)

lemma mem_realloc_grow:
  "length m \<le> n \<Longrightarrow> mem_realloc (Some m) n = m @ replicate (n - length m) 0"
  by (simp add: mem_realloc_def)

lemma mem_realloc_NULL [simp]: "mem_realloc None n = replicate n 0"
  by (simp add: mem_realloc_def)

section \<open>Singly linked lists\<close>

text \<open>
  The client keeps its registrations in singly linked lists: entries are appended at the tail,
  and a search changes or unlinks the first entry with a given key.
\<close>

fun upd_first :: "('a \<Rightarrow> bool) \<Rightarrow> ('a \<Rightarrow> 'a) \<Rightarrow> 'a list \<Rightarrow> 'a list" where
  "upd_first P f [] = []"
| "upd_first P f (x # xs) = (if P x then f x # xs else x # upd_first P f xs)"

fun del_first :: "('a \<Rightarrow> bool) \<Rightarrow> 'a list \<Rightarrow> 'a list" where
  "del_first P [] = []"
| "del_first P (x # xs) = (if P x then xs else x # del_first P xs)"

lemma upd_first_none [simp]: "\<forall>x \<in> set xs. \<not> P x \<Longrightarrow> upd_first P f xs = xs"
  by (induction xs) auto

lemma del_first_none [simp]: "\<forall>x \<in> set xs. \<not> P x \<Longrightarrow> del_first P xs = xs"
  by (induction xs) auto

lemma upd_first_append:
  "upd_first P f (xs @ ys) =
     (if \<exists>x \<in> set xs. P x then upd_first P f xs @ ys else xs @ upd_first P f ys)"
  by (induction xs) auto

lemma del_first_append:
  "del_first P (xs @ ys) =
     (if \<exists>x \<in> set xs. P x then del_first P xs @ ys else xs @ del_first P ys)"
  by (induction xs) auto

lemma length_upd_first [simp]: "length (upd_first P f xs) = length xs"
  by (induction xs) auto

lemma map_upd_first: "(\<And>x. g (f x) = g x) \<Longrightarrow> map g (upd_first P f xs) = map g xs"
  by (induction xs) auto

lemma set_del_first: "set (del_first P xs) \<subseteq> set xs"
  by (induction xs) auto

lemma del_first_split:
  "del_first P (xs @ x # ys) = xs @ ys" if "\<forall>y \<in> set xs. \<not> P y" and "P x"
  using that by (simp add: del_first_append)

lemma distinct_del_first: "distinct (map k xs) \<Longrightarrow> distinct (map k (del_first P xs))"
  by (induction xs) (auto dest: set_del_first [THEN subsetD])

lemma key_del_first:
  "distinct (map k xs) \<Longrightarrow> a \<notin> k ` set (del_first (\<lambda>x. k x = a) xs)"
  by (induction xs) auto

lemma del_first_filter:
  "distinct (map k xs) \<Longrightarrow> del_first (\<lambda>x. k x = a) xs = filter (\<lambda>x. k x \<noteq> a) xs"
proof (induction xs)
  case (Cons x xs)
  then have "a = k x \<Longrightarrow> filter (\<lambda>y. k y \<noteq> a) xs = xs"
    by (intro filter_True) (metis distinct.simps(2) imageI list.set_map list.simps(9))
  with Cons show ?case by auto
qed simp

lemma find_key_append:
  "find P (xs @ ys) = (case find P xs of None \<Rightarrow> find P ys | Some x \<Rightarrow> Some x)"
  by (induction xs) auto

lemma find_key_unique: "distinct (map k xs) \<Longrightarrow> x \<in> set xs \<Longrightarrow> find (\<lambda>y. k y = k x) xs = Some x"
  by (induction xs) force+

end
