(* ===== verification/C_Strings.thy ===== *)
theory C_Strings
  imports Atlas_Prelude
begin

text \<open>
  The C library functions on strings the client uses: decimal printing (\<open>%u\<close>, \<open>%d\<close>, \<open>%lu\<close>),
  \<open>strtol\<close> and \<open>atoi\<close> (64-bit \<open>long\<close>, 32-bit \<open>int\<close>), bounded copies into a buffer, and the
  bytes of a string. The lemmas give the lengths of printed numbers and the round trip of
  printing and \<open>strtol\<close>.
\<close>

section \<open>Bytes of a string\<close>

definition str_bytes :: "string \<Rightarrow> byte list" where
  "str_bytes s = map (\<lambda>c. of_char c) s"

definition bytes_str :: "byte list \<Rightarrow> string" where
  "bytes_str bs = map (\<lambda>b. char_of (unat b)) bs"

text \<open>A C string in a byte block ends at its first NUL.\<close>

definition c_str :: "byte list \<Rightarrow> string" where
  "c_str bs = bytes_str (takeWhile (\<lambda>b. b \<noteq> 0) bs)"

lemma length_str_bytes [simp]: "length (str_bytes s) = length s"
  by (simp add: str_bytes_def)

lemma unat_of_char [simp]: "unat (of_char c :: byte) = of_char c"
proof -
  have "of_char c < (256::nat)" by simp
  moreover have "(of_char c :: byte) = of_nat (of_char c)" by (simp add: of_nat_of_char)
  ultimately show ?thesis by (simp only: unat_of_nat take_bit_eq_mod) simp
qed

lemma bytes_str_bytes [simp]: "bytes_str (str_bytes s) = s"
  by (induction s) (simp_all add: bytes_str_def str_bytes_def)

section \<open>Decimal printing\<close>

definition digit_char :: "nat \<Rightarrow> char" where
  "digit_char d = char_of (48 + d)"

fun show_dec :: "nat \<Rightarrow> string" where
  "show_dec n = (if n < 10 then [digit_char n] else show_dec (n div 10) @ [digit_char (n mod 10)])"

declare show_dec.simps [simp del]

lemma show_dec_nonempty [simp]: "show_dec n \<noteq> []"
  by (subst show_dec.simps) simp

lemma length_show_dec: "n < 10 ^ k \<Longrightarrow> 0 < k \<Longrightarrow> length (show_dec n) \<le> k"
proof (induction n arbitrary: k rule: show_dec.induct)
  case (1 n)
  show ?case
  proof (cases "n < 10")
    case True
    then show ?thesis using "1.prems" by (subst show_dec.simps) simp
  next
    case False
    with "1.prems" obtain j where k: "k = Suc j" "0 < j"
      by (cases k; cases "k - 1") auto
    with "1.prems" have "n div 10 < 10 ^ j" by (simp add: less_mult_imp_div_less mult.commute)
    with False k "1.IH" have "length (show_dec (n div 10)) \<le> j" by simp
    with False k show ?thesis by (subst show_dec.simps) simp
  qed
qed

lemma length_show_u16: "length (show_dec (unat (w :: u16))) \<le> 5"
  using unsigned_less [of w, where 'a = nat] by (intro length_show_dec) simp_all

lemma length_show_u8: "length (show_dec (unat (w :: u8))) \<le> 3"
  using unsigned_less [of w, where 'a = nat] by (intro length_show_dec) simp_all

lemma length_show_u64: "length (show_dec (unat (w :: 64 word))) \<le> 20"
  using unsigned_less [of w, where 'a = nat] by (intro length_show_dec) simp_all

section \<open>strtol and atoi\<close>

definition c_isspace :: "char \<Rightarrow> bool" where
  "c_isspace c \<longleftrightarrow> (of_char c :: nat) = 32 \<or> 9 \<le> (of_char c :: nat) \<and> (of_char c :: nat) \<le> 13"

definition c_isdigit :: "char \<Rightarrow> bool" where
  "c_isdigit c \<longleftrightarrow> 48 \<le> (of_char c :: nat) \<and> (of_char c :: nat) \<le> 57"

fun digits_val :: "int \<Rightarrow> string \<Rightarrow> int" where
  "digits_val acc [] = acc"
| "digits_val acc (c # cs) =
     (if c_isdigit c then digits_val (10 * acc + (of_char c - 48)) cs else acc)"

definition LONG_MAX :: int where "LONG_MAX = 2 ^ 63 - 1"
definition LONG_MIN :: int where "LONG_MIN = - (2 ^ 63)"

definition signed_val :: "string \<Rightarrow> int" where
  "signed_val s =
     (case dropWhile c_isspace s of
        [] \<Rightarrow> 0
      | c # cs \<Rightarrow> if of_char c = (45::nat) then - digits_val 0 cs
                 else if of_char c = (43::nat) then digits_val 0 cs
                 else digits_val 0 (c # cs))"

text \<open>The value and whether \<open>errno\<close> is set to \<open>ERANGE\<close>.\<close>

definition strtol :: "string \<Rightarrow> int \<times> bool" where
  "strtol s =
     (let v = signed_val s in
      if LONG_MAX < v then (LONG_MAX, True)
      else if v < LONG_MIN then (LONG_MIN, True)
      else (v, False))"

text \<open>glibc: \<open>atoi(s) = (int) strtol(s, NULL, 10)\<close>.\<close>

definition atoi :: "string \<Rightarrow> int" where
  "atoi s = sint (word_of_int (fst (strtol s)) :: 32 word)"

lemma of_digit_char: "d < 10 \<Longrightarrow> (of_char (digit_char d) :: nat) = 48 + d"
  by (simp add: digit_char_def)

lemma of_digit_char_int: "d < 10 \<Longrightarrow> (of_char (digit_char d) :: int) = 48 + int d"
  using of_digit_char [of d] by (metis of_nat_add of_nat_numeral of_nat_of_char)

lemma digits_val_append:
  "list_all c_isdigit xs \<Longrightarrow> digits_val acc (xs @ ys) = digits_val (digits_val acc xs) ys"
  by (induction xs arbitrary: acc) auto

lemma show_dec_digits: "list_all c_isdigit (show_dec n)"
proof (induction n rule: show_dec.induct)
  case (1 n)
  have "d < 10 \<Longrightarrow> c_isdigit (digit_char d)" for d
    by (simp add: c_isdigit_def of_digit_char)
  with 1 show ?case by (subst show_dec.simps) auto
qed

lemma digits_val_show_dec: "digits_val 0 (show_dec n) = int n"
proof (induction n rule: show_dec.induct)
  case (1 n)
  show ?case
  proof (cases "n < 10")
    case True
    then show ?thesis
      by (subst show_dec.simps) (simp add: c_isdigit_def of_digit_char of_digit_char_int)
  next
    case False
    have "int n = 10 * int (n div 10) + int (n mod 10)" by (simp add: zdiv_int zmod_int)
    with 1 False show ?thesis
      by (subst show_dec.simps)
        (simp add: digits_val_append [OF show_dec_digits] c_isdigit_def of_digit_char of_digit_char_int)
  qed
qed

lemma signed_val_show_dec: "signed_val (show_dec n) = int n"
proof -
  obtain c cs where c: "show_dec n = c # cs" by (cases "show_dec n") auto
  then have "c_isdigit c" using show_dec_digits [of n] by simp
  then have "\<not> c_isspace c" "of_char c \<noteq> (45::nat)" "of_char c \<noteq> (43::nat)"
    by (auto simp: c_isdigit_def c_isspace_def)
  then show ?thesis using digits_val_show_dec [of n] c by (simp add: signed_val_def)
qed

lemma strtol_show_dec: "int n \<le> LONG_MAX \<Longrightarrow> strtol (show_dec n) = (int n, False)"
  by (simp add: strtol_def signed_val_show_dec LONG_MIN_def)

lemma atoi_show_dec: "n < 2 ^ 31 \<Longrightarrow> atoi (show_dec n) = int n"
  by (simp add: atoi_def strtol_show_dec LONG_MAX_def signed_of_nat signed_take_bit_int_eq_self)

section \<open>Bounded buffers\<close>

text \<open>A string written with its NUL into a block of \<open>cap\<close> bytes.\<close>

definition fits :: "nat \<Rightarrow> string \<Rightarrow> string option" where
  "fits cap s = (if length s + 1 \<le> cap then Some s else None)"

text \<open>
  \<open>strncat(dst, src, n)\<close> appends at most \<open>n\<close> characters and a NUL; \<open>strncpy\<close> into a
  zeroed buffer of \<open>n + 1\<close> bytes keeps at most \<open>n\<close> characters.
\<close>

definition strncat :: "nat \<Rightarrow> string \<Rightarrow> string \<Rightarrow> nat \<Rightarrow> string option" where
  "strncat cap dst src n = fits cap (dst @ take n src)"

definition strncpy :: "string \<Rightarrow> nat \<Rightarrow> string" where
  "strncpy src n = take n src"

lemma fits_iff [simp]: "fits cap s = Some r \<longleftrightarrow> r = s \<and> length s < cap"
  by (auto simp: fits_def)

end
