(* ===== verification/Kernel.thy ===== *)
theory Kernel
  imports C_Strings
begin

text \<open>
  The ground state every component extends: the file descriptors the process holds, a clock
  that counts the calls into the environment (the kernel and libcoap), and the outputs of the
  process in order. Each component's record extends the one before it with the file-static
  variables of its C file, so an operation of a lower component applies unchanged to the state
  of a higher one.

  The environment is part of the state as functions from the clock to an answer (fields
  \<open>e_\<dots>\<close>): no operation changes them, every theorem holds for all of them. A descriptor the
  environment proposes for a new file is taken only if it is not open already, as the kernel
  never hands out a descriptor in use; any other proposal is the failure \<open>-1\<close>.

  Function pointers are the constructors of the datatypes below, named after the C functions.
\<close>

section \<open>Function pointers\<close>

datatype sched_cb =
    Atlas_alarm_trigger
  | Coap_client_sched_callback
  | Atlas_coap_server_sched_callback
  | Atlas_data_plane_accept_cb
  | Atlas_data_plane_read_cb

datatype alarm_cb =
    Request_alarm_cb
  | Keepalive_alarm_callback
  | Reg_alarm_callback
  | Policy_alarm_callback
  | Push_alert_alarm_cb
  | Threshold_alert_alarm_cb
  | Command_execution_restart_alarm_callback
  | Command_execution_shutdown_alarm_callback

datatype client_cb =
    Reg_callback
  | Keepalive_callback
  | Policy_callback
  | Feature_reputation_callback
  | Feedback_callback
  | Telemetry_callback

datatype server_cb =
    Sysinfo_push_alert_cb
  | Packets_push_alert_cb
  | Atlas_threshold_alert_procs_cb
  | Atlas_execute_command_cb

datatype payload_cb =
    Payload_hostname
  | Payload_kern_info
  | Payload_uptime
  | Payload_totalram
  | Payload_freeram
  | Payload_sharedram
  | Payload_bufferram
  | Payload_totalswap
  | Payload_freeswap
  | Payload_procs
  | Payload_load1
  | Payload_load5
  | Payload_load15
  | Payload_packets_per_minute
  | Payload_packets_avg

section \<open>Outputs\<close>

datatype out =
    Coap_request atlas_coap_method string u32 "byte list"
  | Coap_rst nat
  | Coap_response "u8 ptr" "byte list"
  | Sock_write int "byte list"
  | System_cmd string

section \<open>Descriptors, clock, outputs\<close>

record kernel =
  clock :: nat
  fds :: "int list"
  outs :: "out list"
  e_fd :: "nat \<Rightarrow> int"

definition tick :: "'a kernel_scheme \<Rightarrow> 'a kernel_scheme" where
  "tick s = s\<lparr>clock := Suc (clock s)\<rparr>"

definition emit :: "out \<Rightarrow> 'a kernel_scheme \<Rightarrow> 'a kernel_scheme" where
  "emit x s = s\<lparr>outs := outs s @ [x]\<rparr>"

text \<open>The descriptor a call that opens a file returns now, and that call.\<close>

definition fd_pick :: "'a kernel_scheme \<Rightarrow> int" where
  "fd_pick s = (let f = e_fd s (clock s) in if 0 \<le> f \<and> f \<notin> set (fds s) then f else -1)"

definition fd_new :: "'a kernel_scheme \<Rightarrow> int \<times> 'a kernel_scheme" where
  "fd_new s = (fd_pick s,
     s\<lparr>clock := Suc (clock s), fds := (if fd_pick s = -1 then fds s else fd_pick s # fds s)\<rparr>)"

definition fd_close :: "int \<Rightarrow> 'a kernel_scheme \<Rightarrow> 'a kernel_scheme" where
  "fd_close f s = s\<lparr>fds := removeAll f (fds s)\<rparr>"

lemma fd_pick_cases: "fd_pick s = -1 \<or> (0 \<le> fd_pick s \<and> fd_pick s \<notin> set (fds s))"
  by (simp add: fd_pick_def Let_def)

lemma fd_pick_neg_iff: "fd_pick s < 0 \<longleftrightarrow> fd_pick s = -1"
  using fd_pick_cases [of s] by auto

lemma fd_new_fresh: "0 \<le> fd_pick s \<Longrightarrow> fd_pick s \<notin> set (fds s)"
  using fd_pick_cases [of s] by auto

lemma fd_new_distinct: "distinct (fds s) \<Longrightarrow> distinct (fds (snd (fd_new s)))"
  using fd_pick_cases [of s] by (auto simp: fd_new_def)

end
