(* ===== verification/Config.thy ===== *)
theory Config
  imports Kernel
begin

text \<open>
  The client configuration (src/utils/atlas\_config.c): the gateway host name and port, the
  local interface and port, and the strings built from them (the CoAP URI of a request and the
  local "address:port" the gateway calls back). The lemmas show which ports are accepted, that
  the URI and the address fit the buffers of the callers for a configuration within the limits
  of \<open>main\<close>, and where the code leaves those limits.
\<close>

section \<open>State\<close>

text \<open>A string in a \<open>malloc\<close>ed block: the size asked for and the string copied into it.\<close>

record heap_str =
  hs_cap :: nat
  hs_str :: string

text \<open>The copy stayed inside the block, NUL included.\<close>

definition hs_fits :: "heap_str \<Rightarrow> bool" where
  "hs_fits h \<longleftrightarrow> length (hs_str h) + 1 \<le> hs_cap h"

record config = kernel +
  gw_hostname :: "heap_str ptr"
  gw_port :: "heap_str ptr"
  local_iface :: "heap_str ptr"
  local_port :: u16
  e_ifaddr :: "nat \<Rightarrow> string \<Rightarrow> u8 \<times> u8 \<times> u8 \<times> u8"

definition ATLAS_MAX_PORT_VAL :: int where "ATLAS_MAX_PORT_VAL = 65535"
definition ATLAS_PORT_MAX_LEN :: nat where "ATLAS_PORT_MAX_LEN = 6"
definition ATLAS_IP_MAX_LEN :: nat where "ATLAS_IP_MAX_LEN = 16"
definition ATLAS_URI_MAX_LEN :: nat where "ATLAS_URI_MAX_LEN = 256"
definition ATLAS_URI_HOSTNAME_MAX_LEN :: nat where "ATLAS_URI_HOSTNAME_MAX_LEN = 128"
definition ATLAS_COAPS_SCHEMA :: string where "ATLAS_COAPS_SCHEMA = ''coaps://''"

section \<open>Setters and getters\<close>

text \<open>The setters allocate \<open>strlen\<close> bytes and \<open>strcpy\<close> the string with its NUL into them.\<close>

definition atlas_cfg_set_hostname :: "string ptr \<Rightarrow> 'a config_scheme \<Rightarrow> atlas_status \<times> 'a config_scheme" where
  "atlas_cfg_set_hostname hostname s =
     (case hostname of
        None \<Rightarrow> (ATLAS_INVALID_INPUT, s)
      | Some h \<Rightarrow> (ATLAS_OK, s\<lparr>gw_hostname := Some \<lparr>hs_cap = length h, hs_str = h\<rparr>\<rparr>))"

definition atlas_cfg_get_hostname :: "'a config_scheme \<Rightarrow> string ptr" where
  "atlas_cfg_get_hostname s = map_option hs_str (gw_hostname s)"

definition atlas_cfg_set_port :: "string ptr \<Rightarrow> 'a config_scheme \<Rightarrow> atlas_status \<times> 'a config_scheme" where
  "atlas_cfg_set_port port s =
     (case port of
        None \<Rightarrow> (ATLAS_INVALID_INPUT, s)
      | Some p \<Rightarrow>
          let port_val = atoi p in
          if port_val \<le> 0 \<or> port_val > ATLAS_MAX_PORT_VAL then (ATLAS_INVALID_INPUT, s)
          else (ATLAS_OK, s\<lparr>gw_port := Some \<lparr>hs_cap = length p, hs_str = p\<rparr>\<rparr>))"

definition atlas_cfg_get_port :: "'a config_scheme \<Rightarrow> string ptr" where
  "atlas_cfg_get_port s = map_option hs_str (gw_port s)"

definition atlas_cfg_set_local_iface :: "string ptr \<Rightarrow> 'a config_scheme \<Rightarrow> atlas_status \<times> 'a config_scheme" where
  "atlas_cfg_set_local_iface iface s =
     (case iface of
        None \<Rightarrow> (ATLAS_INVALID_INPUT, s)
      | Some i \<Rightarrow> (ATLAS_OK, s\<lparr>local_iface := Some \<lparr>hs_cap = length i, hs_str = i\<rparr>\<rparr>))"

definition atlas_cfg_get_local_iface :: "'a config_scheme \<Rightarrow> string ptr" where
  "atlas_cfg_get_local_iface s = map_option hs_str (local_iface s)"

definition atlas_cfg_set_local_port :: "string ptr \<Rightarrow> 'a config_scheme \<Rightarrow> atlas_status \<times> 'a config_scheme" where
  "atlas_cfg_set_local_port port s =
     (case port of
        None \<Rightarrow> (ATLAS_INVALID_INPUT, s)
      | Some p \<Rightarrow>
          let port_val = atoi p in
          if port_val \<le> 0 \<or> port_val > ATLAS_MAX_PORT_VAL then (ATLAS_INVALID_INPUT, s)
          else (ATLAS_OK, s\<lparr>local_port := of_int port_val\<rparr>))"

definition atlas_cfg_get_local_port :: "'a config_scheme \<Rightarrow> u16" where
  "atlas_cfg_get_local_port s = local_port s"

section \<open>The local address\<close>

text \<open>\<open>inet_ntoa\<close>: the four octets in decimal, separated by dots.\<close>

fun inet_ntoa :: "u8 \<times> u8 \<times> u8 \<times> u8 \<Rightarrow> string" where
  "inet_ntoa (a, b, c, d) =
     show_dec (unat a) @ ''.'' @ show_dec (unat b) @ ''.'' @ show_dec (unat c) @ ''.'' @ show_dec (unat d)"

text \<open>
  The answer of \<open>ioctl\<close> is not checked: \<open>e_ifaddr\<close> is the address found in \<open>ifr\<close> after the
  call, whatever it is. The result string is written with \<open>sprintf\<close> into the caller's buffer
  of \<open>cap\<close> bytes (NULL is \<open>None\<close>).
\<close>

definition atlas_cfg_get_local_ip ::
    "nat ptr \<Rightarrow> 'a config_scheme \<Rightarrow> (atlas_status \<times> string \<times> 'a config_scheme) option" where
  "atlas_cfg_get_local_ip ip s =
     (case ip of
        None \<Rightarrow> Some (ATLAS_INVALID_INPUT, '''', s)
      | Some cap \<Rightarrow>
          let (fd, s1) = fd_new s in
          if fd < 0 then Some (ATLAS_GENERAL_ERR, '''', s1)
          else do {
            iface \<leftarrow> local_iface s1;
            let addr = e_ifaddr s1 (clock s1) (strncpy (hs_str iface) 15);
            let s2 = fd_close fd (tick s1);
            text \<leftarrow> fits cap (inet_ntoa addr);
            Some (ATLAS_OK, text, s2) })"

text \<open>
  \<open>cap\<close> is the size of the caller's zeroed buffer. The inner buffers have \<open>ATLAS_IP_MAX_LEN\<close>
  and \<open>ATLAS_PORT_MAX_LEN\<close> bytes.
\<close>

definition atlas_cfg_get_local_ipPort ::
    "nat \<Rightarrow> 'a config_scheme \<Rightarrow> (atlas_status \<times> string \<times> 'a config_scheme) option" where
  "atlas_cfg_get_local_ipPort cap s = do {
     (status, ip, s1) \<leftarrow> atlas_cfg_get_local_ip (Some ATLAS_IP_MAX_LEN) s;
     if status \<noteq> ATLAS_OK then Some (status, '''', s1)
     else do {
       let port = strncpy (show_dec (unat (atlas_cfg_get_local_port s1))) (ATLAS_PORT_MAX_LEN - 1);
       r1 \<leftarrow> fits cap (strncpy ip ATLAS_IP_MAX_LEN);
       r2 \<leftarrow> fits cap (r1 @ '':'');
       r3 \<leftarrow> strncat cap r2 port ATLAS_PORT_MAX_LEN;
       Some (ATLAS_OK, r3, s1) } }"

section \<open>The URI of a request\<close>

text \<open>
  The string is assembled with \<open>strcpy\<close> and \<open>strcat\<close> in a buffer of \<open>cap\<close> bytes; a NULL host
  name or port is dereferenced.
\<close>

definition atlas_cfg_coap_get_uri ::
    "string ptr \<Rightarrow> nat \<Rightarrow> string ptr \<Rightarrow> 'a config_scheme \<Rightarrow> string ptr option" where
  "atlas_cfg_coap_get_uri path cap uri s =
     (case (path, uri) of
        (Some p, Some u) \<Rightarrow> do {
          u \<leftarrow> fits cap ATLAS_COAPS_SCHEMA;
          h \<leftarrow> gw_hostname s;
          u \<leftarrow> fits cap (u @ hs_str h);
          u \<leftarrow> fits cap (u @ '':'');
          g \<leftarrow> gw_port s;
          u \<leftarrow> fits cap (u @ hs_str g);
          u \<leftarrow> fits cap (u @ ''/'');
          u \<leftarrow> fits cap (u @ p);
          Some (Some u) }
      | _ \<Rightarrow> Some uri)"

section \<open>Lemmas\<close>

lemma length_inet_ntoa: "length (inet_ntoa a) \<le> 15"
proof (cases a)
  case (fields p q r t)
  then show ?thesis
    using length_show_u8 [of p] length_show_u8 [of q] length_show_u8 [of r] length_show_u8 [of t] by simp
qed

text \<open>A configuration as \<open>main\<close> accepts it, with a numeric port.\<close>

definition cfg_ok :: "'a config_scheme \<Rightarrow> bool" where
  "cfg_ok s \<longleftrightarrow>
     (\<exists>h. gw_hostname s = Some h \<and> length (hs_str h) \<le> ATLAS_URI_HOSTNAME_MAX_LEN) \<and>
     (\<exists>p. gw_port s = Some p \<and> length (hs_str p) \<le> 5) \<and>
     (\<exists>i. local_iface s = Some i)"

definition cfg_uri :: "'a config_scheme \<Rightarrow> string \<Rightarrow> string" where
  "cfg_uri s path = ATLAS_COAPS_SCHEMA @ hs_str (the (gw_hostname s)) @ '':'' @
     hs_str (the (gw_port s)) @ ''/'' @ path"

lemma get_uri_ok:
  assumes "cfg_ok s" and "length path \<le> 112"
  shows "atlas_cfg_coap_get_uri (Some path) ATLAS_URI_MAX_LEN (Some u) s = Some (Some (cfg_uri s path))"
proof -
  from assms(1) obtain h p where "gw_hostname s = Some h" "length (hs_str h) \<le> 128"
    and "gw_port s = Some p" "length (hs_str p) \<le> 5"
    by (auto simp: cfg_ok_def ATLAS_URI_HOSTNAME_MAX_LEN_def)
  with assms(2) show ?thesis
    by (simp add: atlas_cfg_coap_get_uri_def cfg_uri_def ATLAS_URI_MAX_LEN_def ATLAS_COAPS_SCHEMA_def fits_def)
qed

lemma get_local_ip_ok:
  assumes "local_iface s = Some i" and "0 \<le> fd_pick s"
  shows "\<exists>s'. atlas_cfg_get_local_ip (Some ATLAS_IP_MAX_LEN) s =
    Some (ATLAS_OK, inet_ntoa (e_ifaddr s (Suc (clock s)) (take 15 (hs_str i))), s') \<and>
    s' = s\<lparr>clock := Suc (Suc (clock s)), fds := removeAll (fd_pick s) (fds s)\<rparr>"
  using assms length_inet_ntoa [of "e_ifaddr s (Suc (clock s)) (take 15 (hs_str i))"]
  by (simp add: atlas_cfg_get_local_ip_def fd_new_def fd_close_def tick_def strncpy_def fits_def
      ATLAS_IP_MAX_LEN_def)

lemma get_local_ipPort_ok:
  assumes "local_iface s = Some i" and "0 \<le> fd_pick s"
  shows "atlas_cfg_get_local_ipPort (ATLAS_IP_MAX_LEN + 6) s =
    Some (ATLAS_OK,
      inet_ntoa (e_ifaddr s (Suc (clock s)) (take 15 (hs_str i))) @ '':'' @ show_dec (unat (local_port s)),
      s\<lparr>clock := Suc (Suc (clock s)), fds := removeAll (fd_pick s) (fds s)\<rparr>)"
proof -
  let ?ip = "inet_ntoa (e_ifaddr s (Suc (clock s)) (take 15 (hs_str i)))"
  have l: "length ?ip \<le> 15" "length (show_dec (unat (local_port s))) \<le> 5"
    by (rule length_inet_ntoa, rule length_show_u16)
  then show ?thesis
    using get_local_ip_ok [OF assms]
    by (simp add: atlas_cfg_get_local_ipPort_def atlas_cfg_get_local_port_def strncpy_def strncat_def fits_def
        ATLAS_IP_MAX_LEN_def ATLAS_PORT_MAX_LEN_def)
qed

lemma digits_val_stop: "\<not> c_isdigit c \<Longrightarrow> digits_val acc (c # cs) = acc"
  by simp

lemma atoi_prefix:
  assumes "n < 2 ^ 31" and "\<not> c_isdigit c"
  shows "atoi (show_dec n @ c # cs) = int n"
proof -
  obtain d ds where d: "show_dec n = d # ds" by (cases "show_dec n") auto
  then have "c_isdigit d" using show_dec_digits [of n] by simp
  then have "\<not> c_isspace d" "of_char d \<noteq> (45::nat)" "of_char d \<noteq> (43::nat)"
    by (auto simp: c_isdigit_def c_isspace_def)
  moreover have "digits_val 0 (show_dec n @ c # cs) = int n"
    using assms(2) by (simp add: digits_val_append [OF show_dec_digits] digits_val_show_dec)
  ultimately have "signed_val (show_dec n @ c # cs) = int n"
    using d by (simp add: signed_val_def)
  then show ?thesis
    using assms(1)
    by (simp add: atoi_def strtol_def LONG_MAX_def LONG_MIN_def signed_of_nat signed_take_bit_int_eq_self)
qed

section \<open>Properties\<close>

definition config_demo :: config where
  "config_demo = \<lparr>clock = 0, fds = [0, 1, 2], outs = [], e_fd = (\<lambda>n. 3 + int n),
     gw_hostname = None, gw_port = None, local_iface = Some \<lparr>hs_cap = 4, hs_str = ''eth0''\<rparr>,
     local_port = 10100, e_ifaddr = (\<lambda>_ _. (192, 168, 1, 20))\<rparr>"

text \<open>
  The URI of a request: after \<open>atlas_cfg_set_hostname\<close> and \<open>atlas_cfg_set_port\<close> accepted a
  host name within the limit of \<open>main\<close> and a port of at most five characters,
  \<open>atlas_cfg_coap_get_uri\<close> writes \<open>coaps://host:port/path\<close>, inside the 256 bytes every caller
  provides, for each path of at most 112 characters.
\<close>

theorem uri_of_configuration:
  assumes "atlas_cfg_set_hostname (Some h) s = (ATLAS_OK, s1)" and "length h \<le> ATLAS_URI_HOSTNAME_MAX_LEN"
    and "atlas_cfg_set_port (Some p) s1 = (ATLAS_OK, s2)" and "length p \<le> 5"
    and "length path \<le> 112"
  shows "atlas_cfg_coap_get_uri (Some path) ATLAS_URI_MAX_LEN (Some '''') s2 =
      Some (Some (''coaps://'' @ h @ '':'' @ p @ ''/'' @ path))"
  using assms
  by (auto simp: atlas_cfg_set_hostname_def atlas_cfg_set_port_def atlas_cfg_coap_get_uri_def fits_def
      ATLAS_URI_MAX_LEN_def ATLAS_COAPS_SCHEMA_def ATLAS_URI_HOSTNAME_MAX_LEN_def Let_def split: if_splits)

theorem uri_of_configuration_witness:
  "atlas_cfg_coap_get_uri (Some ''gateway/register'') ATLAS_URI_MAX_LEN (Some '''')
     (snd (atlas_cfg_set_port (Some ''10100'') (snd (atlas_cfg_set_hostname (Some ''gw'') config_demo)))) =
   Some (Some (''coaps://'' @ ''gw'' @ '':'' @ ''10100'' @ ''/'' @ ''gateway/register''))"
proof (rule uri_of_configuration)
  show "atlas_cfg_set_hostname (Some ''gw'') config_demo = (ATLAS_OK, snd (atlas_cfg_set_hostname (Some ''gw'') config_demo))"
    by (simp add: atlas_cfg_set_hostname_def)
  have "atoi ''10100'' = 10100" by code_simp
  then show "atlas_cfg_set_port (Some ''10100'') (snd (atlas_cfg_set_hostname (Some ''gw'') config_demo)) =
      (ATLAS_OK, snd (atlas_cfg_set_port (Some ''10100'') (snd (atlas_cfg_set_hostname (Some ''gw'') config_demo))))"
    by (simp add: atlas_cfg_set_port_def ATLAS_MAX_PORT_VAL_def)
qed (simp_all add: ATLAS_URI_HOSTNAME_MAX_LEN_def)

text \<open>
  The gateway port is checked by its leading digits only: a valid port number followed by any
  256 or more characters that do not continue it is accepted, and the URI then runs out of the
  caller's buffer.
\<close>

theorem gateway_port_suffix_overflows:
  assumes "1 \<le> n" and "n \<le> 65535" and "\<not> c_isdigit c" and "256 \<le> length cs"
  shows "fst (atlas_cfg_set_port (Some (show_dec n @ c # cs)) s) = ATLAS_OK \<and>
    atlas_cfg_coap_get_uri (Some path) ATLAS_URI_MAX_LEN (Some '''')
      (snd (atlas_cfg_set_port (Some (show_dec n @ c # cs)) s)) = None"
proof -
  have "atoi (show_dec n @ c # cs) = int n" using assms by (intro atoi_prefix) simp_all
  then show ?thesis using assms
    by (auto simp: atlas_cfg_set_port_def ATLAS_MAX_PORT_VAL_def atlas_cfg_coap_get_uri_def fits_def
        ATLAS_URI_MAX_LEN_def Let_def split: bind_splits)
qed

theorem gateway_port_suffix_overflows_witness:
  "fst (atlas_cfg_set_port (Some (show_dec 80 @ CHR ''x'' # replicate 256 CHR ''y'')) config_demo) = ATLAS_OK \<and>
   atlas_cfg_coap_get_uri (Some ''p'') ATLAS_URI_MAX_LEN (Some '''')
     (snd (atlas_cfg_set_port (Some (show_dec 80 @ CHR ''x'' # replicate 256 CHR ''y'')) config_demo)) = None"
  by (rule gateway_port_suffix_overflows) (simp_all add: c_isdigit_def)

text \<open>
  The callback address: with an open socket and a configured interface,
  \<open>atlas_cfg_get_local_ipPort\<close> writes \<open>a.b.c.d:port\<close>, at most 21 characters, into the
  caller's 22 bytes, and closes its socket.
\<close>

theorem local_ipPort_exact:
  assumes "local_iface s = Some i" and "0 \<le> fd_pick s"
  shows "\<exists>a. atlas_cfg_get_local_ipPort (ATLAS_IP_MAX_LEN + 6) s =
      Some (ATLAS_OK, inet_ntoa a @ '':'' @ show_dec (unat (local_port s)), s\<lparr>clock := clock s + 2\<rparr>) \<and>
    length (inet_ntoa a @ '':'' @ show_dec (unat (local_port s))) \<le> 21"
proof -
  have "removeAll (fd_pick s) (fds s) = fds s"
    using fd_new_fresh [OF assms(2)] by simp
  then have "s\<lparr>clock := Suc (Suc (clock s)), fds := removeAll (fd_pick s) (fds s)\<rparr> = s\<lparr>clock := clock s + 2\<rparr>"
    by simp
  moreover have "length (inet_ntoa a) + length (show_dec (unat (local_port s))) \<le> 20" for a
    using add_mono [OF length_inet_ntoa [of a] length_show_u16 [of "local_port s"]] by simp
  ultimately show ?thesis
    using get_local_ipPort_ok [OF assms]
    by (intro exI [of _ "e_ifaddr s (Suc (clock s)) (take 15 (hs_str i))"]) simp
qed

theorem local_ipPort_exact_witness:
  "\<exists>a. atlas_cfg_get_local_ipPort (ATLAS_IP_MAX_LEN + 6) config_demo =
      Some (ATLAS_OK, inet_ntoa a @ '':'' @ show_dec (unat (local_port config_demo)),
            config_demo\<lparr>clock := clock config_demo + 2\<rparr>) \<and>
    length (inet_ntoa a @ '':'' @ show_dec (unat (local_port config_demo))) \<le> 21"
  by (rule local_ipPort_exact [of _ "\<lparr>hs_cap = 4, hs_str = ''eth0''\<rparr>"])
    (simp_all add: config_demo_def fd_pick_def)

text \<open>
  The string setters allocate \<open>strlen\<close> bytes and copy the terminating NUL as well: what
  \<open>atlas_cfg_set_hostname\<close>, \<open>atlas_cfg_set_local_iface\<close> and (for an accepted port)
  \<open>atlas_cfg_set_port\<close> store never fits its block.
\<close>

theorem setters_write_past_block:
  assumes "atlas_cfg_set_port (Some p) s = (ATLAS_OK, t)"
  shows "\<not> hs_fits (the (gw_port t)) \<and>
    \<not> hs_fits (the (gw_hostname (snd (atlas_cfg_set_hostname (Some x) t)))) \<and>
    \<not> hs_fits (the (local_iface (snd (atlas_cfg_set_local_iface (Some y) t))))"
  using assms
  by (auto simp: atlas_cfg_set_hostname_def atlas_cfg_set_port_def atlas_cfg_set_local_iface_def hs_fits_def
      Let_def split: if_splits)

theorem setters_write_past_block_witness:
  "\<exists>t :: config. \<not> hs_fits (the (gw_port t)) \<and>
    \<not> hs_fits (the (gw_hostname (snd (atlas_cfg_set_hostname (Some ''gw'') t)))) \<and>
    \<not> hs_fits (the (local_iface (snd (atlas_cfg_set_local_iface (Some ''eth0'') t))))"
proof -
  have "atoi (show_dec 80) = 80" by (simp add: atoi_show_dec)
  then have "atlas_cfg_set_port (Some (show_dec 80)) config_demo =
      (ATLAS_OK, snd (atlas_cfg_set_port (Some (show_dec 80)) config_demo))"
    by (simp add: atlas_cfg_set_port_def ATLAS_MAX_PORT_VAL_def)
  from setters_write_past_block [OF this] show ?thesis by blast
qed

end
