(* ===== verification/Scheduler.thy ===== *)
theory Scheduler
  imports Config
begin

text \<open>
  The event loop (src/scheduler/atlas\_scheduler.c). Descriptors are registered with a
  callback; deleting one only marks the first entry with that descriptor dirty, and the next
  pass of the loop unlinks dirty entries before it calls \<open>select\<close>. The callbacks run in the
  pass and may register and delete descriptors, so the dispatch loop walks the live list by
  position and takes the callbacks as an argument (\<open>run\<close>).

  The interface \<open>event_source\<close> is what the other components rely on. The lemmas describe the
  purge, bound the calls of a pass, and show what a deletion does when an entry with the same
  descriptor is already dirty, and what a closed descriptor in the list does to the loop.
\<close>

section \<open>State and registration\<close>

record sched_entry =
  se_fd :: int
  se_callback :: sched_cb
  se_dirty :: bool

record sched = config +
  sched_entries :: "sched_entry list"
  e_select :: "nat \<Rightarrow> int list ptr"

definition atlas_sched_add_entry :: "int \<Rightarrow> sched_cb ptr \<Rightarrow> 'a sched_scheme \<Rightarrow> 'a sched_scheme" where
  "atlas_sched_add_entry fd cb s =
     (case cb of
        None \<Rightarrow> s
      | Some c \<Rightarrow> if fd < 0 then s
          else s\<lparr>sched_entries := sched_entries s @ [\<lparr>se_fd = fd, se_callback = c, se_dirty = False\<rparr>]\<rparr>)"

definition atlas_sched_del_entry :: "int \<Rightarrow> 'a sched_scheme \<Rightarrow> 'a sched_scheme" where
  "atlas_sched_del_entry fd s =
     s\<lparr>sched_entries := upd_first (\<lambda>p. se_fd p = fd) (\<lambda>p. p\<lparr>se_dirty := True\<rparr>) (sched_entries s)\<rparr>"

section \<open>The loop\<close>

text \<open>
  The first half of a pass: dirty entries are unlinked and freed, the others enter \<open>readfds\<close>
  and \<open>max_fd\<close>.
\<close>

fun sched_scan :: "sched_entry list \<Rightarrow> int \<Rightarrow> int list \<Rightarrow> sched_entry list \<times> int \<times> int list" where
  "sched_scan [] max_fd readfds = ([], max_fd, readfds)"
| "sched_scan (ent # rest) max_fd readfds =
     (if se_dirty ent then sched_scan rest max_fd readfds
      else
        let max_fd' = (if se_fd ent > max_fd then se_fd ent else max_fd);
            (kept, m, r) = sched_scan rest max_fd' (List.insert (se_fd ent) readfds)
        in (ent # kept, m, r))"

text \<open>
  \<open>select\<close> with no timeout: an error (\<open>-1\<close>) if a descriptor of the set is not open (EBADF) or
  the environment interrupts it (\<open>None\<close>), else the number of ready descriptors and the set of
  those below \<open>nfds\<close> that are ready.
\<close>

definition sys_select :: "int \<Rightarrow> int list \<Rightarrow> 'a sched_scheme \<Rightarrow> int \<times> int list \<times> 'a sched_scheme" where
  "sys_select nfds readfds s =
     (case e_select s (clock s) of
        None \<Rightarrow> (-1, readfds, tick s)
      | Some ready \<Rightarrow>
          if \<exists>f \<in> set readfds. f \<notin> set (fds s) then (-1, readfds, tick s)
          else let r = filter (\<lambda>f. f < nfds \<and> f \<in> set ready) readfds
               in (int (length r), r, tick s))"

function sched_dispatch ::
    "(sched_cb \<Rightarrow> int \<Rightarrow> 'a sched_scheme \<Rightarrow> 'a sched_scheme option) \<Rightarrow> nat \<Rightarrow> int list
     \<Rightarrow> 'a sched_scheme \<Rightarrow> 'a sched_scheme option" where
  "sched_dispatch run i readfds s =
     (if i < length (sched_entries s) then
        let ent = sched_entries s ! i in
        if \<not> se_dirty ent \<and> se_fd ent \<in> set readfds then do {
          s' \<leftarrow> run (se_callback ent) (se_fd ent) s;
          sched_dispatch run (Suc i) (removeAll (se_fd ent) readfds) s' }
        else sched_dispatch run (Suc i) readfds s
      else Some s)"
  by pat_completeness auto
termination
  by (relation "measures [\<lambda>(run, i, readfds, s). length readfds,
                          \<lambda>(run, i, readfds, s). length (sched_entries s) - i]")
    (auto simp: length_removeAll_less)

declare sched_dispatch.simps [simp del]

definition sched_pass ::
    "(sched_cb \<Rightarrow> int \<Rightarrow> 'a sched_scheme \<Rightarrow> 'a sched_scheme option) \<Rightarrow>
     'a sched_scheme \<Rightarrow> 'a sched_scheme option" where
  "sched_pass run s =
     (let (kept, max_fd, readfds) = sched_scan (sched_entries s) 0 [];
          s1 = s\<lparr>sched_entries := kept\<rparr>;
          (result, ready, s2) = sys_select (max_fd + 1) readfds s1
      in if result > 0 then sched_dispatch run 0 ready s2 else Some s2)"

text \<open>\<open>atlas_sched_loop\<close> never returns; this is its first \<open>n\<close> passes.\<close>

primrec atlas_sched_loop ::
    "(sched_cb \<Rightarrow> int \<Rightarrow> 'a sched_scheme \<Rightarrow> 'a sched_scheme option) \<Rightarrow> nat \<Rightarrow>
     'a sched_scheme \<Rightarrow> 'a sched_scheme option" where
  "atlas_sched_loop run 0 s = Some s"
| "atlas_sched_loop run (Suc n) s = do { s' \<leftarrow> sched_pass run s; atlas_sched_loop run n s' }"

section \<open>The interface of the event source\<close>

text \<open>
  \<open>live\<close> is the list of registrations in force, \<open>pending f\<close> says that a deleted entry with
  descriptor \<open>f\<close> has not been unlinked yet.
\<close>

locale event_source =
  fixes add :: "int \<Rightarrow> 'cb \<Rightarrow> 's \<Rightarrow> 's"
    and del :: "int \<Rightarrow> 's \<Rightarrow> 's"
    and live :: "'s \<Rightarrow> (int \<times> 'cb) list"
    and pending :: "int \<Rightarrow> 's \<Rightarrow> bool"
  assumes live_add: "0 \<le> f \<Longrightarrow> live (add f c s) = live s @ [(f, c)]"
    and live_add_neg: "f < 0 \<Longrightarrow> live (add f c s) = live s"
    and live_del: "\<not> pending f s \<Longrightarrow> live (del f s) = del_first (\<lambda>r. fst r = f) (live s)"
    and pending_add: "pending g (add f c s) = pending g s"
    and pending_del: "pending g (del f s) \<Longrightarrow> pending g s \<or> g = f"
begin

lemma del_gone:
  assumes "\<not> pending f s" and "distinct (map fst (live s))"
  shows "f \<notin> fst ` set (live (del f s))"
  using assms by (simp add: live_del key_del_first)

lemma del_add:
  assumes "\<not> pending f s" and "f \<notin> fst ` set (live s)" and "0 \<le> f"
  shows "live (del f (add f c s)) = live s"
proof -
  have "\<forall>r \<in> set (live s). fst r \<noteq> f" using assms(2) by auto
  then have "del_first (\<lambda>r. fst r = f) (live s @ [(f, c)]) = live s"
    by (intro del_first_split [of _ _ _ "[]", simplified]) auto
  then show ?thesis using assms by (simp add: live_del pending_add live_add)
qed

lemma distinct_add:
  assumes "distinct (map fst (live s))" and "f \<notin> fst ` set (live s)"
  shows "distinct (map fst (live (add f c s)))"
  using assms by (cases "0 \<le> f") (auto simp: live_add live_add_neg)

lemma distinct_del:
  assumes "distinct (map fst (live s))" and "\<not> pending f s"
  shows "distinct (map fst (live (del f s)))"
  using assms by (simp add: live_del distinct_del_first)

end

definition sched_live :: "'a sched_scheme \<Rightarrow> (int \<times> sched_cb) list" where
  "sched_live s = map (\<lambda>e. (se_fd e, se_callback e)) (filter (\<lambda>e. \<not> se_dirty e) (sched_entries s))"

definition sched_pending :: "int \<Rightarrow> 'a sched_scheme \<Rightarrow> bool" where
  "sched_pending f s \<longleftrightarrow> (\<exists>e \<in> set (sched_entries s). se_dirty e \<and> se_fd e = f)"

lemma live_upd_first:
  assumes "\<forall>e \<in> set es. se_dirty e \<longrightarrow> se_fd e \<noteq> f"
  shows "map (\<lambda>e. (se_fd e, se_callback e))
      (filter (\<lambda>e. \<not> se_dirty e) (upd_first (\<lambda>p. se_fd p = f) (\<lambda>p. p\<lparr>se_dirty := True\<rparr>) es)) =
    del_first (\<lambda>r. fst r = f) (map (\<lambda>e. (se_fd e, se_callback e)) (filter (\<lambda>e. \<not> se_dirty e) es))"
  using assms by (induction es) auto

lemma pending_upd_first:
  "(\<exists>e \<in> set (upd_first (\<lambda>p. se_fd p = f) (\<lambda>p. p\<lparr>se_dirty := True\<rparr>) es). se_dirty e \<and> se_fd e = g) \<Longrightarrow>
   (\<exists>e \<in> set es. se_dirty e \<and> se_fd e = g) \<or> g = f"
  by (induction es) (auto split: if_splits)

interpretation sched: event_source "\<lambda>f c. atlas_sched_add_entry f (Some c)" atlas_sched_del_entry
    sched_live sched_pending
proof unfold_locales
  fix f g :: int and c and s :: "'a sched_scheme"
  show "0 \<le> f \<Longrightarrow> sched_live (atlas_sched_add_entry f (Some c) s) = sched_live s @ [(f, c)]"
    by (simp add: sched_live_def atlas_sched_add_entry_def)
  show "f < 0 \<Longrightarrow> sched_live (atlas_sched_add_entry f (Some c) s) = sched_live s"
    by (simp add: atlas_sched_add_entry_def)
  show "\<not> sched_pending f s \<Longrightarrow>
      sched_live (atlas_sched_del_entry f s) = del_first (\<lambda>r. fst r = f) (sched_live s)"
    unfolding sched_live_def atlas_sched_del_entry_def sched_pending_def
    by (simp add: live_upd_first)
  show "sched_pending g (atlas_sched_add_entry f (Some c) s) = sched_pending g s"
    by (auto simp: sched_pending_def atlas_sched_add_entry_def)
  show "sched_pending g (atlas_sched_del_entry f s) \<Longrightarrow> sched_pending g s \<or> g = f"
    unfolding sched_pending_def atlas_sched_del_entry_def by (simp add: pending_upd_first)
qed

section \<open>The purge\<close>

lemma sched_scan_kept: "fst (sched_scan es m rd) = filter (\<lambda>e. \<not> se_dirty e) es"
  by (induction es m rd rule: sched_scan.induct) (auto simp: Let_def split: prod.splits)

lemma sched_scan_readfds:
  "set (snd (snd (sched_scan es m rd))) = set rd \<union> se_fd ` {e \<in> set es. \<not> se_dirty e}"
  by (induction es m rd rule: sched_scan.induct) (auto simp: Let_def split: prod.splits)

lemma sched_scan_distinct: "distinct rd \<Longrightarrow> distinct (snd (snd (sched_scan es m rd)))"
  by (induction es m rd rule: sched_scan.induct) (auto simp: Let_def split: prod.splits)

lemma sched_scan_max_ge: "m \<le> fst (snd (sched_scan es m rd))"
  by (induction es m rd rule: sched_scan.induct) (auto simp: Let_def split: prod.splits if_splits)

lemma sched_scan_max:
  "e \<in> set es \<Longrightarrow> \<not> se_dirty e \<Longrightarrow> se_fd e \<le> fst (snd (sched_scan es m rd))"
proof (induction es m rd rule: sched_scan.induct)
  case (2 ent rest m rd)
  let ?m = "if se_fd ent > m then se_fd ent else m"
  have ge: "?m \<le> fst (snd (sched_scan rest ?m (List.insert (se_fd ent) rd)))"
    by (rule sched_scan_max_ge)
  from 2 ge show ?case by (auto simp: Let_def split: prod.splits if_splits)
qed simp

definition sched_purge :: "'a sched_scheme \<Rightarrow> 'a sched_scheme" where
  "sched_purge s = s\<lparr>sched_entries := filter (\<lambda>e. \<not> se_dirty e) (sched_entries s)\<rparr>"

lemma sched_live_purge [simp]: "sched_live (sched_purge s) = sched_live s"
  by (simp add: sched_live_def sched_purge_def)

lemma not_pending_purge [simp]: "\<not> sched_pending f (sched_purge s)"
  by (simp add: sched_pending_def sched_purge_def)

lemma sched_pass_purge:
  "sched_pass run s =
     (let sc = sched_scan (sched_entries s) 0 [];
          sel = sys_select (fst (snd sc) + 1) (snd (snd sc)) (sched_purge s)
      in if fst sel > 0 then sched_dispatch run 0 (fst (snd sel)) (snd (snd sel)) else Some (snd (snd sel)))"
  using sched_scan_kept [of "sched_entries s" 0 "[]"]
  by (auto simp: sched_pass_def sched_purge_def Let_def split: prod.splits)

section \<open>The calls of a pass\<close>

text \<open>The callbacks the dispatch loop runs, in order, up to the first that fails.\<close>

function sched_calls ::
    "(sched_cb \<Rightarrow> int \<Rightarrow> 'a sched_scheme \<Rightarrow> 'a sched_scheme option) \<Rightarrow> nat \<Rightarrow> int list
     \<Rightarrow> 'a sched_scheme \<Rightarrow> (sched_cb \<times> int) list" where
  "sched_calls run i readfds s =
     (if i < length (sched_entries s) then
        let ent = sched_entries s ! i in
        if \<not> se_dirty ent \<and> se_fd ent \<in> set readfds then
          (se_callback ent, se_fd ent) #
          (case run (se_callback ent) (se_fd ent) s of
             None \<Rightarrow> []
           | Some s' \<Rightarrow> sched_calls run (Suc i) (removeAll (se_fd ent) readfds) s')
        else sched_calls run (Suc i) readfds s
      else [])"
  by pat_completeness auto
termination
  by (relation "measures [\<lambda>(run, i, readfds, s). length readfds,
                          \<lambda>(run, i, readfds, s). length (sched_entries s) - i]")
    (auto simp: length_removeAll_less)

declare sched_calls.simps [simp del]

fun run_calls :: "(sched_cb \<Rightarrow> int \<Rightarrow> 's \<Rightarrow> 's option) \<Rightarrow> (sched_cb \<times> int) list \<Rightarrow> 's \<Rightarrow> 's option" where
  "run_calls run [] s = Some s"
| "run_calls run ((c, f) # cs) s = do { s' \<leftarrow> run c f s; run_calls run cs s' }"

lemma sched_dispatch_calls: "sched_dispatch run i rd s = run_calls run (sched_calls run i rd s) s"
proof (induction run i rd s rule: sched_dispatch.induct)
  case (1 run i rd s)
  then show ?case
    by (subst sched_dispatch.simps, subst sched_calls.simps)
      (auto simp: Let_def split: option.splits)
qed

lemma sched_calls_once:
  "distinct (map snd (sched_calls run i rd s)) \<and> snd ` set (sched_calls run i rd s) \<subseteq> set rd"
proof (induction run i rd s rule: sched_calls.induct)
  case (1 run i rd s)
  show ?case
  proof (cases "i < length (sched_entries s)")
    case False
    then show ?thesis by (subst (1 2) sched_calls.simps) simp
  next
    case True
    let ?e = "sched_entries s ! i"
    show ?thesis
    proof (cases "\<not> se_dirty ?e \<and> se_fd ?e \<in> set rd")
      case False
      then have "sched_calls run i rd s = sched_calls run (Suc i) rd s"
        using True by (subst sched_calls.simps) (auto simp: Let_def)
      then show ?thesis using 1(2) [OF True refl False] by simp
    next
      case hit: True
      let ?rest = "case run (se_callback ?e) (se_fd ?e) s of None \<Rightarrow> []
           | Some s' \<Rightarrow> sched_calls run (Suc i) (removeAll (se_fd ?e) rd) s'"
      have "sched_calls run i rd s = (se_callback ?e, se_fd ?e) # ?rest"
        using True hit by (subst sched_calls.simps) (simp add: Let_def)
      moreover have "distinct (map snd ?rest) \<and> snd ` set ?rest \<subseteq> set rd - {se_fd ?e}"
        using 1(1) [OF True refl hit] by (auto split: option.splits)
      ultimately show ?thesis using hit by auto
    qed
  qed
qed

section \<open>Growth: what a callback may do to the list\<close>

text \<open>
  A callback appends entries and marks entries dirty; it never unlinks one. This is what makes
  the C loop over \<open>next\<close> pointers and the model's loop over positions the same.
\<close>

definition sched_grows :: "'a sched_scheme \<Rightarrow> 'a sched_scheme \<Rightarrow> bool" where
  "sched_grows s t \<longleftrightarrow>
     length (sched_entries s) \<le> length (sched_entries t) \<and>
     (\<forall>i < length (sched_entries s).
        se_fd (sched_entries t ! i) = se_fd (sched_entries s ! i) \<and>
        se_callback (sched_entries t ! i) = se_callback (sched_entries s ! i) \<and>
        (se_dirty (sched_entries s ! i) \<longrightarrow> se_dirty (sched_entries t ! i)))"

lemma sched_grows_refl [simp, intro]: "sched_grows s s"
  by (simp add: sched_grows_def)

lemma sched_grows_trans [trans]: "sched_grows s t \<Longrightarrow> sched_grows t u \<Longrightarrow> sched_grows s u"
  by (auto simp: sched_grows_def)

lemma sched_grows_same: "sched_entries t = sched_entries s \<Longrightarrow> sched_grows s t"
  by (simp add: sched_grows_def)

lemma sched_grows_add: "sched_grows s (atlas_sched_add_entry f c s)"
  by (auto simp: sched_grows_def atlas_sched_add_entry_def nth_append split: option.splits)

lemma nth_upd_first_dirty:
  "i < length es \<Longrightarrow>
   se_fd (upd_first P (\<lambda>p. p\<lparr>se_dirty := True\<rparr>) es ! i) = se_fd (es ! i) \<and>
   se_callback (upd_first P (\<lambda>p. p\<lparr>se_dirty := True\<rparr>) es ! i) = se_callback (es ! i) \<and>
   (se_dirty (es ! i) \<longrightarrow> se_dirty (upd_first P (\<lambda>p. p\<lparr>se_dirty := True\<rparr>) es ! i))"
  by (induction es arbitrary: i) (auto simp: nth_Cons split: nat.splits)

lemma sched_grows_del: "sched_grows s (atlas_sched_del_entry f s)"
  by (simp add: sched_grows_def atlas_sched_del_entry_def nth_upd_first_dirty)

definition run_grows :: "(sched_cb \<Rightarrow> int \<Rightarrow> 'a sched_scheme \<Rightarrow> 'a sched_scheme option) \<Rightarrow> bool" where
  "run_grows run \<longleftrightarrow> (\<forall>c f s t. run c f s = Some t \<longrightarrow> sched_grows s t)"

lemma run_growsD: "run_grows run \<Longrightarrow> run c f s = Some t \<Longrightarrow> sched_grows s t"
  by (auto simp: run_grows_def)

lemma run_calls_grows: "run_grows run \<Longrightarrow> run_calls run cs s = Some t \<Longrightarrow> sched_grows s t"
proof (induction cs arbitrary: s)
  case (Cons x cs)
  then show ?case
    by (cases x) (auto split: bind_splits intro: sched_grows_trans run_growsD)
qed simp

lemma sched_dispatch_grows:
  "run_grows run \<Longrightarrow> sched_dispatch run i rd s = Some t \<Longrightarrow> sched_grows s t"
  unfolding sched_dispatch_calls by (rule run_calls_grows)

text \<open>
  A ready descriptor is served in the pass, unless the entry is deleted in it: if position
  \<open>j\<close> is still live when the pass ends, its callback has run.
\<close>

lemma sched_calls_serve:
  assumes "run_grows run" and "sched_dispatch run i rd s = Some t"
    and "i \<le> j" and "j < length (sched_entries s)"
    and "se_fd (sched_entries s ! j) \<in> set rd" and "\<not> se_dirty (sched_entries t ! j)"
  shows "se_fd (sched_entries s ! j) \<in> snd ` set (sched_calls run i rd s)"
  using assms
proof (induction run i rd s rule: sched_calls.induct)
  case (1 run i rd s)
  let ?e = "sched_entries s ! i" and ?f = "se_fd (sched_entries s ! j)"
  have i: "i < length (sched_entries s)" using "1.prems" by simp
  have live: "\<not> se_dirty (sched_entries s ! j)"
    using sched_dispatch_grows [OF "1.prems"(1,2)] "1.prems" by (auto simp: sched_grows_def)
  show ?case
  proof (cases "\<not> se_dirty ?e \<and> se_fd ?e \<in> set rd")
    case hit: True
    obtain u where u: "run (se_callback ?e) (se_fd ?e) s = Some u"
      and rest: "sched_dispatch run (Suc i) (removeAll (se_fd ?e) rd) u = Some t"
      using "1.prems"(2) i hit by (subst (asm) sched_dispatch.simps) (auto simp: Let_def split: bind_splits)
    have calls: "sched_calls run i rd s =
        (se_callback ?e, se_fd ?e) # sched_calls run (Suc i) (removeAll (se_fd ?e) rd) u"
      using i hit u by (subst sched_calls.simps) (simp add: Let_def)
    show ?thesis
    proof (cases "?f = se_fd ?e")
      case False
      then have j: "Suc i \<le> j" using "1.prems"(3) by (cases "i = j") auto
      have "sched_grows s u" using "1.prems"(1) u by (rule run_growsD)
      then have "j < length (sched_entries u)" "se_fd (sched_entries u ! j) = ?f"
        using "1.prems"(4) by (auto simp: sched_grows_def)
      with "1.IH"(1) [OF i refl hit u "1.prems"(1) rest j] False "1.prems"(5,6) calls
      show ?thesis by simp
    qed (simp add: calls)
  next
    case skip: False
    then have "i \<noteq> j" using live "1.prems"(5) by auto
    then have j: "Suc i \<le> j" using "1.prems"(3) by simp
    have "sched_dispatch run (Suc i) rd s = Some t" "sched_calls run i rd s = sched_calls run (Suc i) rd s"
      using "1.prems"(2) i skip
      by (subst (asm) sched_dispatch.simps, auto simp: Let_def sched_calls.simps [of run i])
    with "1.IH"(2) [OF i refl skip "1.prems"(1) _ j] "1.prems" show ?thesis by simp
  qed
qed

section \<open>Stale entries\<close>

text \<open>
  A deletion marks the first entry with the descriptor, dirty or not: while a dirty entry with
  the same descriptor is ahead, the deletion has no effect.
\<close>

lemma sched_del_shadowed:
  assumes "sched_entries s = xs @ e # ys" and "\<forall>x \<in> set xs. se_fd x \<noteq> f"
    and "se_fd e = f" and "se_dirty e"
  shows "atlas_sched_del_entry f s = s"
proof -
  have "e\<lparr>se_dirty := True\<rparr> = e" using assms(4) by simp
  then have "upd_first (\<lambda>p. se_fd p = f) (\<lambda>p. p\<lparr>se_dirty := True\<rparr>) (sched_entries s) = sched_entries s"
    using assms(1-3) by (auto simp: upd_first_append)
  then show ?thesis by (simp add: atlas_sched_del_entry_def)
qed

text \<open>A live entry whose descriptor is closed makes every \<open>select\<close> fail: no callback runs any more.\<close>

definition stale :: "int \<Rightarrow> 'a sched_scheme \<Rightarrow> bool" where
  "stale f s \<longleftrightarrow> f \<notin> set (fds s) \<and> (\<exists>e \<in> set (sched_entries s). se_fd e = f \<and> \<not> se_dirty e)"

lemma sched_pass_stale:
  assumes "stale f s"
  shows "sched_pass run s = Some (tick (sched_purge s))"
proof -
  let ?sc = "sched_scan (sched_entries s) 0 []"
  have "f \<in> set (snd (snd ?sc))"
    using assms by (auto simp: stale_def sched_scan_readfds)
  moreover have "f \<notin> set (fds (sched_purge s))"
    using assms by (simp add: stale_def sched_purge_def)
  ultimately have "fst (sys_select (fst (snd ?sc) + 1) (snd (snd ?sc)) (sched_purge s)) = -1"
    and "snd (snd (sys_select (fst (snd ?sc) + 1) (snd (snd ?sc)) (sched_purge s))) = tick (sched_purge s)"
    by (auto simp: sys_select_def split: option.splits)
  then show ?thesis by (simp add: sched_pass_purge Let_def)
qed

lemma stale_tick_purge: "stale f s \<Longrightarrow> stale f (tick (sched_purge s))"
  by (auto simp: stale_def sched_purge_def tick_def)

lemma sched_loop_stale:
  assumes "stale f s"
  shows "atlas_sched_loop run (Suc n) s = Some ((sched_purge s)\<lparr>clock := clock s + Suc n\<rparr>)"
  using assms
proof (induction n arbitrary: s)
  case 0
  then show ?case by (simp add: sched_pass_stale tick_def sched_purge_def)
next
  case (Suc n)
  have "atlas_sched_loop run (Suc (Suc n)) s = atlas_sched_loop run (Suc n) (tick (sched_purge s))"
    using sched_pass_stale [OF Suc.prems, of run] by simp
  also have "\<dots> = Some ((sched_purge (tick (sched_purge s)))\<lparr>clock := clock (tick (sched_purge s)) + Suc n\<rparr>)"
    using stale_tick_purge [OF Suc.prems] by (rule Suc.IH)
  finally show ?case by (simp add: sched_purge_def tick_def)
qed

section \<open>Properties\<close>

text \<open>The state after \<open>select\<close> in a pass, its ready set, and the callbacks the pass runs.\<close>

definition after_select :: "'a sched_scheme \<Rightarrow> int \<times> int list \<times> 'a sched_scheme" where
  "after_select s =
     (let sc = sched_scan (sched_entries s) 0 []
      in sys_select (fst (snd sc) + 1) (snd (snd sc)) (sched_purge s))"

definition pass_calls ::
    "(sched_cb \<Rightarrow> int \<Rightarrow> 'a sched_scheme \<Rightarrow> 'a sched_scheme option) \<Rightarrow> 'a sched_scheme \<Rightarrow> (sched_cb \<times> int) list" where
  "pass_calls run s =
     (if fst (after_select s) > 0
      then sched_calls run 0 (fst (snd (after_select s))) (snd (snd (after_select s))) else [])"

lemma sched_pass_calls: "sched_pass run s = run_calls run (pass_calls run s) (snd (snd (after_select s)))"
  by (simp add: sched_pass_purge after_select_def pass_calls_def sched_dispatch_calls Let_def)

lemma after_select_ready:
  assumes "0 < fst (after_select s)"
  shows "set (fst (snd (after_select s))) \<subseteq> fst ` set (sched_live s) \<inter> set (fds s)"
proof -
  let ?sc = "sched_scan (sched_entries s) 0 []"
  have rd: "set (snd (snd ?sc)) = fst ` set (sched_live s)"
    by (auto simp: sched_scan_readfds sched_live_def image_image)
  have fds: "fds (sched_purge s) = fds s" by (simp add: sched_purge_def)
  from assms have "set (fst (snd (after_select s))) \<subseteq> set (snd (snd ?sc))" "set (snd (snd ?sc)) \<subseteq> set (fds s)"
    using fds by (auto simp: after_select_def sys_select_def Let_def split: option.splits if_splits)
  then show ?thesis unfolding rd by blast
qed

lemma after_select_entries: "sched_entries (snd (snd (after_select s))) = sched_entries (sched_purge s)"
  by (simp add: after_select_def sys_select_def tick_def Let_def split: option.splits)

text \<open>
  C22. One pass of the event loop is the sequence of the callbacks \<open>pass_calls\<close>: no descriptor is
  served twice in a pass, and only descriptors that were registered and not deleted when the pass
  began, open, and ready, are served.
\<close>

theorem pass_serves_each_once:
  "sched_pass run s = run_calls run (pass_calls run s) (snd (snd (after_select s))) \<and>
   distinct (map snd (pass_calls run s)) \<and>
   snd ` set (pass_calls run s) \<subseteq> fst ` set (sched_live s) \<inter> set (fds s)"
proof (cases "0 < fst (after_select s)")
  case True
  then show ?thesis
    using after_select_ready [OF True] sched_calls_once [of run 0 "fst (snd (after_select s))" "snd (snd (after_select s))"]
    by (auto simp: sched_pass_calls pass_calls_def)
qed (simp add: sched_pass_calls pass_calls_def)

text \<open>
  C23. No ready descriptor is starved: when the callbacks only append entries and mark entries, an
  entry that is in the ready set and still registered when the pass ends was served in the pass.
\<close>

theorem pass_serves_ready:
  assumes "run_grows run" and "sched_pass run s = Some t" and "0 < fst (after_select s)"
    and "e \<in> set (sched_entries s)" and "\<not> se_dirty e" and "se_fd e \<in> set (fst (snd (after_select s)))"
    and "\<forall>e' \<in> set (sched_entries t). se_fd e' = se_fd e \<longrightarrow> \<not> se_dirty e'"
  shows "se_fd e \<in> snd ` set (pass_calls run s)"
proof -
  let ?u = "snd (snd (after_select s))" and ?rd = "fst (snd (after_select s))"
  have disp: "sched_dispatch run 0 ?rd ?u = Some t"
    using assms(2,3) by (simp add: sched_pass_calls pass_calls_def sched_dispatch_calls)
  have "e \<in> set (sched_entries ?u)"
    using assms(4,5) by (simp add: after_select_entries sched_purge_def)
  then obtain j where j: "j < length (sched_entries ?u)" "sched_entries ?u ! j = e"
    by (auto simp: in_set_conv_nth)
  have "sched_grows ?u t" using assms(1) disp by (rule sched_dispatch_grows)
  then have "j < length (sched_entries t)" "se_fd (sched_entries t ! j) = se_fd e"
    using j by (auto simp: sched_grows_def)
  then have "\<not> se_dirty (sched_entries t ! j)" using assms(7) by simp
  from sched_calls_serve [OF assms(1) disp _ j(1) _ this] assms(3,6) j(2) show ?thesis
    by (simp add: pass_calls_def)
qed

definition sched_demo :: sched where
  "sched_demo = \<lparr>clock = 0, fds = [3, 4], outs = [], e_fd = (\<lambda>n. 5 + int n),
     gw_hostname = None, gw_port = None, local_iface = None, local_port = 10100,
     e_ifaddr = (\<lambda>_ _. (127, 0, 0, 1)),
     sched_entries = [\<lparr>se_fd = 3, se_callback = Atlas_alarm_trigger, se_dirty = True\<rparr>,
                      \<lparr>se_fd = 4, se_callback = Coap_client_sched_callback, se_dirty = False\<rparr>],
     e_select = (\<lambda>_. Some [3, 4])\<rparr>"

lemma sched_demo_select:
  "fst (after_select sched_demo) = 1" "fst (snd (after_select sched_demo)) = [4]"
  by (simp_all add: after_select_def sched_demo_def sys_select_def sched_purge_def Let_def List.insert_def)

lemma sched_demo_pass:
  "sched_pass (\<lambda>c f s. Some s) sched_demo =
     Some (sched_demo\<lparr>clock := 1, sched_entries := [\<lparr>se_fd = 4, se_callback = Coap_client_sched_callback, se_dirty = False\<rparr>]\<rparr>)"
  by (simp add: sched_pass_def sched_demo_def sys_select_def tick_def List.insert_def sched_dispatch.simps)

theorem pass_serves_ready_witness:
  "4 \<in> snd ` set (pass_calls (\<lambda>c f s. Some s) sched_demo)"
  using pass_serves_ready [of "\<lambda>c f s. Some s" sched_demo _
      "\<lparr>se_fd = 4, se_callback = Coap_client_sched_callback, se_dirty = False\<rparr>", OF _ sched_demo_pass]
  by (simp add: run_grows_def sched_demo_select) (simp add: sched_demo_def)

text \<open>
  Deleting a registration: when no deleted entry with the same descriptor awaits the purge, the
  descriptor's registration is gone from the live list at once, a pass begins by forgetting deleted
  entries, and registering and deleting a new descriptor leaves the live list as it was.
\<close>

theorem registration_lifecycle:
  assumes "\<not> sched_pending f s" and "f \<notin> fst ` set (sched_live s)" and "0 \<le> f"
  shows "sched_live (atlas_sched_add_entry f (Some c) s) = sched_live s @ [(f, c)] \<and>
    sched_live (atlas_sched_del_entry f (atlas_sched_add_entry f (Some c) s)) = sched_live s \<and>
    sched_live (sched_purge (atlas_sched_del_entry f (atlas_sched_add_entry f (Some c) s))) = sched_live s \<and>
    \<not> sched_pending f (sched_purge (atlas_sched_del_entry f (atlas_sched_add_entry f (Some c) s)))"
  using assms by (simp add: sched.live_add sched.del_add)

theorem registration_lifecycle_witness:
  "sched_live (atlas_sched_add_entry 7 (Some Atlas_alarm_trigger) sched_demo) =
     sched_live sched_demo @ [(7, Atlas_alarm_trigger)] \<and>
   sched_live (atlas_sched_del_entry 7 (atlas_sched_add_entry 7 (Some Atlas_alarm_trigger) sched_demo)) =
     sched_live sched_demo \<and>
   sched_live (sched_purge (atlas_sched_del_entry 7 (atlas_sched_add_entry 7 (Some Atlas_alarm_trigger) sched_demo))) =
     sched_live sched_demo \<and>
   \<not> sched_pending 7 (sched_purge (atlas_sched_del_entry 7 (atlas_sched_add_entry 7 (Some Atlas_alarm_trigger) sched_demo)))"
  by (rule registration_lifecycle) (simp_all add: sched_demo_def sched_live_def sched_pending_def)

end
