(* ===== verification/Alarm.thy ===== *)
theory Alarm
  imports Scheduler
begin

text \<open>
  Timers (src/alarm/atlas\_alarm.c): an alarm is a timerfd, registered with the scheduler
  under \<open>atlas_alarm_trigger\<close>; its id is the descriptor. The callbacks are an argument of the
  trigger. The interface \<open>timer_service\<close> is what registration, telemetry and the CoAP client
  rely on. The lemmas show that ids stay distinct and open, that an interval is programmed
  exactly, that a one-shot alarm is gone after it fired, and that cancelling twice a timer whose
  descriptor was reused in one pass leaves a stale scheduler entry.

  \<open>al_addr\<close> stands for the address of the entry's block: it tells whether a block was freed
  while \<open>atlas_alarm_trigger\<close> still uses it.
\<close>

section \<open>State\<close>

record itimerspec =
  it_interval_sec :: nat
  it_interval_nsec :: nat
  it_value_sec :: nat
  it_value_nsec :: nat

record alarm_entry =
  al_id :: int
  al_callback :: alarm_cb
  al_run_once :: bool
  al_addr :: nat

record alarm = sched +
  alarm_entries :: "alarm_entry list"
  timers :: "int \<Rightarrow> itimerspec option"
  e_settime :: "nat \<Rightarrow> int"

definition ATLAS_1MS_TO_NS :: nat where "ATLAS_1MS_TO_NS = 1000000"
definition ATLAS_1SEC_TO_MS :: nat where "ATLAS_1SEC_TO_MS = 1000"

text \<open>\<open>ATLAS_ALARM_SEC_TO_MS\<close> on a \<open>uint16_t\<close>: the product is an \<open>int\<close>, passed as \<open>uint32_t\<close>.\<close>

definition ATLAS_ALARM_SEC_TO_MS :: "u16 \<Rightarrow> u32" where
  "ATLAS_ALARM_SEC_TO_MS sec = of_nat (unat sec * 1000)"

section \<open>Operations\<close>

definition timer_spec :: "u32 \<Rightarrow> bool \<Rightarrow> itimerspec" where
  "timer_spec ms run_once =
     (let sec = unat ms div ATLAS_1SEC_TO_MS;
          nsec = (unat ms mod ATLAS_1SEC_TO_MS) * ATLAS_1MS_TO_NS
      in \<lparr>it_interval_sec = (if run_once then 0 else sec),
          it_interval_nsec = (if run_once then 0 else nsec),
          it_value_sec = sec,
          it_value_nsec = nsec\<rparr>)"

definition atlas_alarm_set :: "u32 \<Rightarrow> alarm_cb \<Rightarrow> bool \<Rightarrow> 'a alarm_scheme \<Rightarrow> int \<times> 'a alarm_scheme" where
  "atlas_alarm_set ms cb run_once s =
     (let (fd, s1) = fd_new s in
      if fd = -1 then (-1, s1)
      else
        let res = e_settime s1 (clock s1); s2 = tick s1 in
        if res < 0 then (-1, fd_close fd s2)
        else
          let s3 = s2\<lparr>timers := (timers s2)(fd := Some (timer_spec ms run_once))\<rparr>;
              s4 = atlas_sched_add_entry fd (Some Atlas_alarm_trigger) s3
          in (fd, s4\<lparr>alarm_entries := alarm_entries s4 @
                [\<lparr>al_id = fd, al_callback = cb, al_run_once = run_once, al_addr = clock s4\<rparr>]\<rparr>))"

definition atlas_alarm_cancel :: "int \<Rightarrow> 'a alarm_scheme \<Rightarrow> 'a alarm_scheme" where
  "atlas_alarm_cancel alarm_id s =
     (if \<exists>p \<in> set (alarm_entries s). al_id p = alarm_id then
        let s1 = s\<lparr>alarm_entries := del_first (\<lambda>p. al_id p = alarm_id) (alarm_entries s)\<rparr>;
            s2 = atlas_sched_del_entry alarm_id s1;
            s3 = fd_close alarm_id s2
        in s3\<lparr>timers := (timers s3)(alarm_id := None)\<rparr>
      else s)"

text \<open>
  The scheduler callback of a timer. After the alarm's own callback the code reads the entry
  again, so the entry must not have been freed.
\<close>

definition atlas_alarm_trigger ::
    "(alarm_cb \<Rightarrow> int \<Rightarrow> 'a alarm_scheme \<Rightarrow> 'a alarm_scheme option) \<Rightarrow> int \<Rightarrow>
     'a alarm_scheme \<Rightarrow> 'a alarm_scheme option" where
  "atlas_alarm_trigger run fd s =
     (case find (\<lambda>p. al_id p = fd) (alarm_entries s) of
        None \<Rightarrow> Some s
      | Some p \<Rightarrow> do {
          s1 \<leftarrow> run (al_callback p) (al_id p) s;
          if p \<notin> set (alarm_entries s1) then None
          else if al_run_once p then Some (atlas_alarm_cancel (al_id p) s1)
          else Some s1 })"

section \<open>The interface of the timers\<close>

locale timer_service =
  fixes set_timer :: "'cb \<Rightarrow> 's \<Rightarrow> int \<times> 's"
    and cancel :: "int \<Rightarrow> 's \<Rightarrow> 's"
    and active :: "'s \<Rightarrow> (int \<times> 'cb) list"
    and inv :: "'s \<Rightarrow> bool"
  assumes inv_set: "inv s \<Longrightarrow> inv (snd (set_timer c s))"
    and inv_cancel: "inv s \<Longrightarrow> inv (cancel i s)"
    and active_set: "inv s \<Longrightarrow> 0 \<le> fst (set_timer c s) \<Longrightarrow>
      active (snd (set_timer c s)) = active s @ [(fst (set_timer c s), c)]"
    and set_fresh: "inv s \<Longrightarrow> 0 \<le> fst (set_timer c s) \<Longrightarrow>
      fst (set_timer c s) \<notin> fst ` set (active s)"
    and active_set_fail: "fst (set_timer c s) < 0 \<Longrightarrow> active (snd (set_timer c s)) = active s"
    and active_cancel: "inv s \<Longrightarrow> active (cancel i s) = filter (\<lambda>a. fst a \<noteq> i) (active s)"
begin

lemma cancel_gone: "inv s \<Longrightarrow> i \<notin> fst ` set (active (cancel i s))"
  by (auto simp: active_cancel)

text \<open>Replacing a timer by a new one: the new timer is active, the old one only if it is reused as its id.\<close>

lemma rearm:
  assumes "inv s" and "0 \<le> fst (set_timer c (cancel i s))"
  shows "active (snd (set_timer c (cancel i s))) =
    filter (\<lambda>a. fst a \<noteq> i) (active s) @ [(fst (set_timer c (cancel i s)), c)]"
  using assms by (simp add: active_set inv_cancel active_cancel)

lemma set_then_cancel:
  assumes "inv s" and "0 \<le> fst (set_timer c s)"
  shows "active (cancel (fst (set_timer c s)) (snd (set_timer c s))) = active s"
proof -
  have "\<forall>a \<in> set (active s). fst a \<noteq> fst (set_timer c s)"
    using set_fresh [OF assms] by (metis imageI)
  then show ?thesis using assms by (simp add: active_cancel inv_set active_set)
qed

end

definition alarm_active :: "'a alarm_scheme \<Rightarrow> (int \<times> alarm_cb) list" where
  "alarm_active s = map (\<lambda>p. (al_id p, al_callback p)) (alarm_entries s)"

text \<open>Ids are distinct open descriptors.\<close>

definition alarm_inv :: "'a alarm_scheme \<Rightarrow> bool" where
  "alarm_inv s \<longleftrightarrow> distinct (map al_id (alarm_entries s)) \<and> al_id ` set (alarm_entries s) \<subseteq> set (fds s)"

lemmas alarm_defs = atlas_alarm_set_def atlas_alarm_cancel_def atlas_sched_add_entry_def
  atlas_sched_del_entry_def fd_new_def fd_close_def tick_def

lemma atlas_alarm_set_result:
  "fst (atlas_alarm_set ms c r s) =
     (if fd_pick s = -1 \<or> e_settime s (Suc (clock s)) < 0 then -1 else fd_pick s)"
  by (auto simp: alarm_defs Let_def)

lemma atlas_alarm_set_neg_iff: "fst (atlas_alarm_set ms c r s) < 0 \<longleftrightarrow> fst (atlas_alarm_set ms c r s) = -1"
  using fd_pick_cases [of s] by (auto simp: atlas_alarm_set_result)

lemma atlas_alarm_set_entries:
  "alarm_entries (snd (atlas_alarm_set ms c r s)) = alarm_entries s @
     (if fst (atlas_alarm_set ms c r s) = -1 then []
      else [\<lparr>al_id = fd_pick s, al_callback = c, al_run_once = r, al_addr = Suc (Suc (clock s))\<rparr>])"
  using fd_pick_cases [of s] by (auto simp: alarm_defs Let_def)

lemma atlas_alarm_set_fds:
  "set (fds (snd (atlas_alarm_set ms c r s))) =
     (if fst (atlas_alarm_set ms c r s) = -1 then set (fds s) else insert (fd_pick s) (set (fds s)))"
  using fd_pick_cases [of s] by (auto simp: alarm_defs Let_def)

lemma alarm_inv_set: "alarm_inv s \<Longrightarrow> alarm_inv (snd (atlas_alarm_set ms c r s))"
  using fd_pick_cases [of s]
  by (auto simp: alarm_inv_def atlas_alarm_set_entries atlas_alarm_set_fds atlas_alarm_set_result)

lemma atlas_alarm_cancel_entries:
  "alarm_entries (atlas_alarm_cancel i s) = del_first (\<lambda>p. al_id p = i) (alarm_entries s)"
  by (auto simp: alarm_defs Let_def)

lemma atlas_alarm_cancel_fds:
  "set (fds (atlas_alarm_cancel i s)) =
     (if i \<in> al_id ` set (alarm_entries s) then set (fds s) - {i} else set (fds s))"
  by (auto simp: alarm_defs Let_def)

lemma alarm_inv_cancel: "alarm_inv s \<Longrightarrow> alarm_inv (atlas_alarm_cancel i s)"
  unfolding alarm_inv_def
  by (auto simp: atlas_alarm_cancel_entries atlas_alarm_cancel_fds del_first_filter intro: distinct_map_filter)

interpretation alarms: timer_service "\<lambda>c. atlas_alarm_set ms c r" atlas_alarm_cancel alarm_active alarm_inv
  for ms r
proof unfold_locales
  fix c i and s :: "'a alarm_scheme"
  show "alarm_inv s \<Longrightarrow> alarm_inv (snd (atlas_alarm_set ms c r s))" by (rule alarm_inv_set)
  show "alarm_inv s \<Longrightarrow> alarm_inv (atlas_alarm_cancel i s)" by (rule alarm_inv_cancel)
  show "0 \<le> fst (atlas_alarm_set ms c r s) \<Longrightarrow>
      alarm_active (snd (atlas_alarm_set ms c r s)) = alarm_active s @ [(fst (atlas_alarm_set ms c r s), c)]"
    by (auto simp: alarm_active_def atlas_alarm_set_entries atlas_alarm_set_result split: if_splits)
  show "alarm_inv s \<Longrightarrow> 0 \<le> fst (atlas_alarm_set ms c r s) \<Longrightarrow>
      fst (atlas_alarm_set ms c r s) \<notin> fst ` set (alarm_active s)"
    using fd_pick_cases [of s]
    by (auto simp: alarm_active_def alarm_inv_def atlas_alarm_set_result image_image split: if_splits)
  show "fst (atlas_alarm_set ms c r s) < 0 \<Longrightarrow>
      alarm_active (snd (atlas_alarm_set ms c r s)) = alarm_active s"
    by (simp add: alarm_active_def atlas_alarm_set_entries atlas_alarm_set_neg_iff)
  show "alarm_inv s \<Longrightarrow> alarm_active (atlas_alarm_cancel i s) = filter (\<lambda>a. fst a \<noteq> i) (alarm_active s)"
    by (simp add: alarm_active_def alarm_inv_def atlas_alarm_cancel_entries del_first_filter filter_map o_def)
qed

section \<open>Intervals\<close>

lemma timer_spec_value:
  "it_value_sec (timer_spec ms r) * 1000000000 + it_value_nsec (timer_spec ms r) = unat ms * 1000000"
  "it_value_nsec (timer_spec ms r) < 1000000000"
proof -
  have "unat ms div 1000 * 1000 + unat ms mod 1000 = unat ms" by simp
  then have "unat ms div 1000 * 1000000000 + unat ms mod 1000 * 1000000 = unat ms * 1000000" by linarith
  then show "it_value_sec (timer_spec ms r) * 1000000000 + it_value_nsec (timer_spec ms r) = unat ms * 1000000"
    by (simp add: timer_spec_def Let_def ATLAS_1SEC_TO_MS_def ATLAS_1MS_TO_NS_def)
  show "it_value_nsec (timer_spec ms r) < 1000000000"
    by (simp add: timer_spec_def Let_def ATLAS_1SEC_TO_MS_def ATLAS_1MS_TO_NS_def)
qed

lemma timer_spec_interval:
  "it_interval_sec (timer_spec ms r) = (if r then 0 else it_value_sec (timer_spec ms r))"
  "it_interval_nsec (timer_spec ms r) = (if r then 0 else it_value_nsec (timer_spec ms r))"
  by (simp_all add: timer_spec_def Let_def)

lemma unat_SEC_TO_MS: "unat (ATLAS_ALARM_SEC_TO_MS sec) = unat sec * 1000"
proof -
  have "unat sec < 65536" using unsigned_less [of sec, where 'a = nat] by simp
  then show ?thesis unfolding ATLAS_ALARM_SEC_TO_MS_def
    by (simp only: unat_of_nat take_bit_eq_mod) simp
qed

section \<open>Firing\<close>

lemma alarm_trigger_unknown:
  "fd \<notin> al_id ` set (alarm_entries s) \<Longrightarrow> atlas_alarm_trigger run fd s = Some s"
proof -
  assume "fd \<notin> al_id ` set (alarm_entries s)"
  then have "find (\<lambda>p. al_id p = fd) (alarm_entries s) = None" by (auto simp: find_None_iff)
  then show ?thesis by (simp add: atlas_alarm_trigger_def)
qed

lemma alarm_trigger_once:
  assumes "find (\<lambda>p. al_id p = fd) (alarm_entries s) = Some p" and "al_run_once p"
    and "run (al_callback p) fd s = Some s1" and "alarm_inv s1" and "p \<in> set (alarm_entries s1)"
  shows "\<exists>t. atlas_alarm_trigger run fd s = Some t \<and>
    alarm_active t = filter (\<lambda>a. fst a \<noteq> fd) (alarm_active s1) \<and> fd \<notin> set (fds t)"
proof -
  from assms(1) have id: "al_id p = fd" by (auto simp: find_Some_iff)
  then have "fd \<in> al_id ` set (alarm_entries s1)" using assms(5) by auto
  then show ?thesis using assms id
    by (auto simp: atlas_alarm_trigger_def alarms.active_cancel atlas_alarm_cancel_fds)
qed

section \<open>Reuse of a descriptor within a pass\<close>

text \<open>
  Set, cancel, set, cancel without a purge in between, the kernel handing out the same
  descriptor again: the second cancellation marks the first (already dirty) entry, the second
  entry stays live on the closed descriptor.
\<close>

definition set_cancel_twice :: "u32 \<Rightarrow> alarm_cb \<Rightarrow> 'a alarm_scheme \<Rightarrow> 'a alarm_scheme" where
  "set_cancel_twice ms c s =
     (let (a, s1) = atlas_alarm_set ms c False s;
          (b, s2) = atlas_alarm_set ms c False (atlas_alarm_cancel a s1)
      in atlas_alarm_cancel b s2)"

lemma atlas_alarm_set_ok:
  assumes "fd_pick s = f" and "f \<noteq> -1" and "0 \<le> e_settime s (Suc (clock s))"
  shows "atlas_alarm_set ms c r s = (f, s\<lparr>clock := Suc (Suc (clock s)), fds := f # fds s,
      timers := (timers s)(f := Some (timer_spec ms r)),
      sched_entries := sched_entries s @
        [\<lparr>se_fd = f, se_callback = Atlas_alarm_trigger, se_dirty = False\<rparr>],
      alarm_entries := alarm_entries s @
        [\<lparr>al_id = f, al_callback = c, al_run_once = r, al_addr = Suc (Suc (clock s))\<rparr>]\<rparr>)"
  using assms fd_pick_cases [of s] by (auto simp: alarm_defs Let_def)

lemma atlas_alarm_cancel_ok:
  assumes "f \<in> al_id ` set (alarm_entries s)"
  shows "atlas_alarm_cancel f s = s\<lparr>
      alarm_entries := del_first (\<lambda>p. al_id p = f) (alarm_entries s),
      sched_entries := upd_first (\<lambda>p. se_fd p = f) (\<lambda>p. p\<lparr>se_dirty := True\<rparr>) (sched_entries s),
      fds := removeAll f (fds s), timers := (timers s)(f := None)\<rparr>"
  using assms by (auto simp: alarm_defs Let_def)

lemma set_cancel_twice_stale:
  assumes "\<And>n. e_fd s n = f" and "0 \<le> f" and "\<And>n. 0 \<le> e_settime s n"
    and "f \<notin> set (fds s)" and "f \<notin> se_fd ` set (sched_entries s)"
    and "f \<notin> al_id ` set (alarm_entries s)"
  shows "stale f (set_cancel_twice ms c s)"
proof -
  have e: "\<forall>x \<in> set (sched_entries s). se_fd x \<noteq> f" and a: "\<forall>x \<in> set (alarm_entries s). al_id x \<noteq> f"
    using assms(5,6) by auto
  let ?e = "\<lambda>d. \<lparr>se_fd = f, se_callback = Atlas_alarm_trigger, se_dirty = d\<rparr>"
  let ?a = "\<lambda>n. \<lparr>al_id = f, al_callback = c, al_run_once = False, al_addr = n\<rparr>"
  let ?k = "clock s"
  define s1 where "s1 = s\<lparr>clock := Suc (Suc ?k), fds := f # fds s,
      timers := (timers s)(f := Some (timer_spec ms False)),
      sched_entries := sched_entries s @ [?e False], alarm_entries := alarm_entries s @ [?a (Suc (Suc ?k))]\<rparr>"
  have set1: "atlas_alarm_set ms c False s = (f, s1)"
    unfolding s1_def using assms(1-4) by (intro atlas_alarm_set_ok) (simp_all add: fd_pick_def)
  define s2 where "s2 = atlas_alarm_cancel f s1"
  have s2: "s2 = s1\<lparr>alarm_entries := alarm_entries s, sched_entries := sched_entries s @ [?e True],
      fds := fds s, timers := (timers s1)(f := None)\<rparr>"
    unfolding s2_def using assms(4) e a
    by (subst atlas_alarm_cancel_ok) (auto simp: s1_def upd_first_append del_first_append)
  define s3 where "s3 = snd (atlas_alarm_set ms c False s2)"
  have set2: "atlas_alarm_set ms c False s2 = (f, s3)"
    and s3: "fds s3 = f # fds s" "sched_entries s3 = sched_entries s @ [?e True, ?e False]"
      "f \<in> al_id ` set (alarm_entries s3)"
    using assms(1-4) atlas_alarm_set_ok [of s2 f ms c False]
    by (simp_all add: s3_def s2 s1_def fd_pick_def)
  have "set_cancel_twice ms c s = atlas_alarm_cancel f s3"
    by (simp add: set_cancel_twice_def set1 s2_def [symmetric] set2)
  moreover have "sched_entries (atlas_alarm_cancel f s3) = sched_entries s @ [?e True, ?e False]"
    using s3 e by (simp add: atlas_alarm_cancel_ok upd_first_append)
  moreover have "f \<notin> set (fds (atlas_alarm_cancel f s3))"
    using s3 by (simp add: atlas_alarm_cancel_ok)
  ultimately show ?thesis by (simp add: stale_def)
qed

section \<open>Properties\<close>

definition alarm_demo :: alarm where
  "alarm_demo = \<lparr>clock = 0, fds = [0, 1, 2], outs = [], e_fd = (\<lambda>n. 3 + int n),
     gw_hostname = Some \<lparr>hs_cap = 2, hs_str = ''gw''\<rparr>, gw_port = Some \<lparr>hs_cap = 4, hs_str = ''5683''\<rparr>,
     local_iface = Some \<lparr>hs_cap = 4, hs_str = ''eth0''\<rparr>, local_port = 10100,
     e_ifaddr = (\<lambda>_ _. (192, 168, 1, 20)),
     sched_entries = [], e_select = (\<lambda>_. None),
     alarm_entries = [], timers = (\<lambda>_. None), e_settime = (\<lambda>_. 0)\<rparr>"

lemma alarm_demo_set:
  "atlas_alarm_set ms c r alarm_demo = (3, snd (atlas_alarm_set ms c r alarm_demo))"
  "fst (atlas_alarm_set ms c r alarm_demo) = 3"
  by (simp_all add: atlas_alarm_set_result alarm_demo_def fd_pick_def prod_eq_iff)

text \<open>
  The interval of a timer: a successful \<open>atlas_alarm_set\<close> arms the kernel timer of the
  returned descriptor with exactly the milliseconds asked for, the nanosecond field below one
  second, and repeats with the same interval unless the alarm runs once; seconds given as
  \<open>uint16_t\<close> never lose precision in \<open>ATLAS_ALARM_SEC_TO_MS\<close>.
\<close>

theorem alarm_interval_exact:
  assumes "atlas_alarm_set ms c run_once s = (fd, t)" and "0 \<le> fd"
  shows "\<exists>sp. timers t fd = Some sp \<and>
    it_value_sec sp * 1000000000 + it_value_nsec sp = unat ms * 1000000 \<and> it_value_nsec sp < 1000000000 \<and>
    it_interval_sec sp * 1000000000 + it_interval_nsec sp = (if run_once then 0 else unat ms * 1000000) \<and>
    unat (ATLAS_ALARM_SEC_TO_MS sec) = unat sec * 1000"
proof -
  have "timers t fd = Some (timer_spec ms run_once)"
    using assms fd_pick_cases [of s] by (auto simp: alarm_defs Let_def split: if_splits)
  then show ?thesis
    using timer_spec_value [of ms run_once] timer_spec_interval [of ms run_once] unat_SEC_TO_MS [of sec] by auto
qed

theorem alarm_interval_exact_witness:
  "\<exists>sp. timers (snd (atlas_alarm_set 20500 Keepalive_alarm_callback False alarm_demo)) 3 = Some sp \<and>
    it_value_sec sp * 1000000000 + it_value_nsec sp = unat (20500 :: u32) * 1000000 \<and> it_value_nsec sp < 1000000000 \<and>
    it_interval_sec sp * 1000000000 + it_interval_nsec sp = (if False then 0 else unat (20500 :: u32) * 1000000) \<and>
    unat (ATLAS_ALARM_SEC_TO_MS 7) = unat (7 :: u16) * 1000"
  by (rule alarm_interval_exact [OF alarm_demo_set(1)]) simp

text \<open>
  C28. Timers are independent: setting an alarm adds exactly one active timer with an id no other
  has, cancelling removes exactly the timer with the id, and setting then cancelling leaves the
  active timers as they were; the ids stay distinct open descriptors throughout.
\<close>

theorem alarm_lifecycle:
  assumes "alarm_inv s" and "atlas_alarm_set ms c r s = (fd, t)" and "0 \<le> fd"
  shows "alarm_active t = alarm_active s @ [(fd, c)] \<and> fd \<notin> fst ` set (alarm_active s) \<and> alarm_inv t \<and>
    alarm_active (atlas_alarm_cancel fd t) = alarm_active s \<and>
    alarm_active (atlas_alarm_cancel i t) = filter (\<lambda>a. fst a \<noteq> i) (alarm_active t) \<and>
    alarm_inv (atlas_alarm_cancel i t)"
proof -
  have fd: "fd = fst (atlas_alarm_set ms c r s)" and t: "t = snd (atlas_alarm_set ms c r s)"
    using assms(2) by simp_all
  have "alarm_active (atlas_alarm_cancel fd t) = alarm_active s"
    using assms(1,3) unfolding fd t by (rule alarms.set_then_cancel)
  moreover have "alarm_inv t" using assms(1) unfolding t by (rule alarms.inv_set)
  ultimately show ?thesis
    using assms(1,3) unfolding fd t
    by (simp add: alarms.active_set alarms.set_fresh alarms.inv_cancel) (simp add: alarms.active_cancel alarms.active_set)
qed

theorem alarm_lifecycle_witness:
  "\<exists>t. alarm_active t = alarm_active alarm_demo @ [(3, Reg_alarm_callback)] \<and>
    3 \<notin> fst ` set (alarm_active alarm_demo) \<and> alarm_inv t \<and>
    alarm_active (atlas_alarm_cancel 3 t) = alarm_active alarm_demo \<and>
    alarm_active (atlas_alarm_cancel 9 t) = filter (\<lambda>a. fst a \<noteq> 9) (alarm_active t) \<and>
    alarm_inv (atlas_alarm_cancel 9 (t :: alarm))"
proof -
  have "alarm_inv alarm_demo" by (simp add: alarm_inv_def alarm_demo_def)
  from alarm_lifecycle [OF this alarm_demo_set(1) [of 5000 Reg_alarm_callback True], of 9] show ?thesis by auto
qed

text \<open>
  Firing: a timer set to run once is no longer active after it fired and its descriptor is
  closed, whatever its callback did to the other alarms; a repeating timer stays as its callback
  left it; a descriptor that is no timer runs nothing.
\<close>

theorem alarm_fires:
  assumes "alarm_inv s" and "p \<in> set (alarm_entries s)" and "run (al_callback p) (al_id p) s = Some s1"
    and "alarm_inv s1" and "p \<in> set (alarm_entries s1)"
  shows "\<exists>t. atlas_alarm_trigger run (al_id p) s = Some t \<and>
    (if al_run_once p
     then alarm_active t = filter (\<lambda>a. fst a \<noteq> al_id p) (alarm_active s1) \<and> al_id p \<notin> set (fds t)
     else t = s1) \<and>
    (if fd \<in> al_id ` set (alarm_entries s) then True else atlas_alarm_trigger run fd s = Some s)"
proof -
  have "distinct (map al_id (alarm_entries s))" using assms(1) by (simp add: alarm_inv_def)
  then have find: "find (\<lambda>q. al_id q = al_id p) (alarm_entries s) = Some p"
    using assms(2) by (rule find_key_unique)
  have "\<exists>t. atlas_alarm_trigger run (al_id p) s = Some t \<and>
    (if al_run_once p
     then alarm_active t = filter (\<lambda>a. fst a \<noteq> al_id p) (alarm_active s1) \<and> al_id p \<notin> set (fds t)
     else t = s1)"
    using alarm_trigger_once [of "al_id p" s p run s1] find assms(3-5) by (auto simp: atlas_alarm_trigger_def)
  then show ?thesis using alarm_trigger_unknown [of fd s run] by auto
qed

theorem alarm_fires_witness:
  "\<exists>t. atlas_alarm_trigger (\<lambda>c i s. Some s) 3 (snd (atlas_alarm_set 5000 Reg_alarm_callback True alarm_demo)) = Some t \<and>
    (if True
     then alarm_active t = filter (\<lambda>a. fst a \<noteq> 3) (alarm_active (snd (atlas_alarm_set 5000 Reg_alarm_callback True alarm_demo))) \<and>
          3 \<notin> set (fds t)
     else t = snd (atlas_alarm_set 5000 Reg_alarm_callback True alarm_demo)) \<and>
    (if 4 \<in> al_id ` set (alarm_entries (snd (atlas_alarm_set 5000 Reg_alarm_callback True alarm_demo))) then True
     else atlas_alarm_trigger (\<lambda>c i s. Some s) 4 (snd (atlas_alarm_set 5000 Reg_alarm_callback True alarm_demo)) =
       Some (snd (atlas_alarm_set 5000 Reg_alarm_callback True alarm_demo)))"
proof -
  let ?t = "snd (atlas_alarm_set 5000 Reg_alarm_callback True alarm_demo)"
  let ?p = "\<lparr>al_id = 3, al_callback = Reg_alarm_callback, al_run_once = True, al_addr = 2\<rparr>"
  have "alarm_inv alarm_demo" by (simp add: alarm_inv_def alarm_demo_def)
  then have inv: "alarm_inv ?t" by (rule alarm_inv_set)
  have mem: "?p \<in> set (alarm_entries ?t)"
    by (simp add: atlas_alarm_set_entries alarm_demo_set(2)) (simp add: alarm_demo_def fd_pick_def)
  show ?thesis
    using alarm_fires [OF inv mem, where run = "\<lambda>c i s. Some s" and fd = 4, OF refl inv mem] by simp
qed

text \<open>
  C29. A deletion marks the first scheduler entry with the descriptor, dirty or not. When the kernel
  hands out the same descriptor twice before a purge, the second timer's entry survives its
  cancellation on a closed descriptor, and from then on every \<open>select\<close> fails: the loop runs on
  for ever without calling any callback again.
\<close>

theorem reused_timer_stops_the_loop:
  assumes "\<And>n. e_fd s n = f" and "0 \<le> f" and "\<And>n. 0 \<le> e_settime s n"
    and "f \<notin> set (fds s)" and "f \<notin> se_fd ` set (sched_entries s)"
    and "f \<notin> al_id ` set (alarm_entries s)"
  shows "atlas_sched_loop run (Suc n) (set_cancel_twice ms c s) =
    Some ((sched_purge (set_cancel_twice ms c s))\<lparr>clock := clock (set_cancel_twice ms c s) + Suc n\<rparr>)"
  by (rule sched_loop_stale [OF set_cancel_twice_stale]) (use assms in auto)

theorem reused_timer_stops_the_loop_witness:
  "atlas_sched_loop (\<lambda>_ _ _. None) (Suc 99) (set_cancel_twice 1000 Reg_alarm_callback (alarm_demo\<lparr>e_fd := (\<lambda>_. 8)\<rparr>)) =
    Some ((sched_purge (set_cancel_twice 1000 Reg_alarm_callback (alarm_demo\<lparr>e_fd := (\<lambda>_. 8)\<rparr>)))
      \<lparr>clock := clock (set_cancel_twice 1000 Reg_alarm_callback (alarm_demo\<lparr>e_fd := (\<lambda>_. 8)\<rparr>)) + Suc 99\<rparr>)"
  by (rule reused_timer_stops_the_loop [where f = 8]) (simp_all add: alarm_demo_def)

end
