(* ===== verification/Identity.thy ===== *)
theory Identity
  imports Alarm
begin

text \<open>
  The client identity and pre-shared key (src/identity/atlas\_identity.c): read from two
  files, or generated and written on the first start. libuuid's generator, OpenSSL's random
  bytes and its base64 filter are environment answers (\<open>e_uuid\<close>, \<open>e_rand\<close>, \<open>e_base64\<close>). The
  lemmas bound the lengths the other components rely on, describe every error path (both files
  are removed), and show that a second start reads back what the first one generated.
\<close>

section \<open>State\<close>

record identity = alarm +
  identity_str :: string
  psk_str :: string
  identity_file :: "byte list ptr"
  psk_file :: "byte list ptr"
  e_open_ok :: "nat \<Rightarrow> bool"
  e_read_ok :: "nat \<Rightarrow> bool"
  e_uuid :: "nat \<Rightarrow> string"
  e_rand :: "nat \<Rightarrow> byte list ptr"
  e_base64 :: "byte list \<Rightarrow> string"

definition ATLAS_IDENTITY_LEN :: nat where "ATLAS_IDENTITY_LEN = 64"
definition ATLAS_PSK_LEN :: nat where "ATLAS_PSK_LEN = 64"

section \<open>Generation\<close>

text \<open>\<open>open\<close> for writing may fail; it truncates. \<open>uuid_unparse_lower\<close> fills the buffer.\<close>

definition atlas_generate_identity :: "'a identity_scheme \<Rightarrow> atlas_status \<times> 'a identity_scheme" where
  "atlas_generate_identity s =
     (if \<not> e_open_ok s (clock s) then (ATLAS_IDENTITY_FILE_ERROR, tick s)
      else
        let s1 = tick s; uuid = e_uuid s1 (clock s1); s2 = tick s1
        in (ATLAS_OK, s2\<lparr>identity_str := uuid, identity_file := Some (str_bytes uuid)\<rparr>))"

text \<open>At most \<open>out_len\<close> bytes of the encoding are copied into the zeroed buffer.\<close>

definition to_base64 :: "'a identity_scheme \<Rightarrow> byte list \<Rightarrow> nat \<Rightarrow> string" where
  "to_base64 s bs out_len = take out_len (e_base64 s bs)"

text \<open>The file gets the whole buffer of 65 bytes, padded with NULs.\<close>

definition atlas_generate_psk :: "'a identity_scheme \<Rightarrow> atlas_status \<times> 'a identity_scheme" where
  "atlas_generate_psk s =
     (if \<not> e_open_ok s (clock s) then (ATLAS_PSK_FILE_ERROR, tick s)
      else
        let s1 = (tick s)\<lparr>psk_file := Some []\<rparr> in
        case e_rand s1 (clock s1) of
          None \<Rightarrow> (ATLAS_PSK_FILE_ERROR, tick s1)
        | Some rand_bytes \<Rightarrow>
            let psk = to_base64 s1 rand_bytes ATLAS_PSK_LEN; s2 = tick s1
            in (ATLAS_OK, s2\<lparr>psk_str := psk,
                  psk_file := Some (str_bytes psk @ replicate (ATLAS_PSK_LEN + 1 - length psk) 0)\<rparr>))"

section \<open>Initialisation\<close>

text \<open>
  Reading a file into a zeroed buffer of \<open>n + 1\<close> bytes: a missing or unreadable file is \<open>None\<close>,
  a failed or empty read \<open>Some None\<close>.
\<close>

definition read_file :: "byte list ptr \<Rightarrow> bool \<Rightarrow> bool \<Rightarrow> nat \<Rightarrow> byte list ptr ptr" where
  "read_file file open_ok read_ok n =
     (case file of
        None \<Rightarrow> None
      | Some bs \<Rightarrow> if \<not> open_ok then None
          else if \<not> read_ok \<or> bs = [] then Some None
          else Some (Some (take n bs)))"

definition identity_err :: "atlas_status \<Rightarrow> 'a identity_scheme \<Rightarrow> atlas_status \<times> 'a identity_scheme" where
  "identity_err status s = (status, s\<lparr>identity_file := None, psk_file := None\<rparr>)"

definition init_identity :: "'a identity_scheme \<Rightarrow> atlas_status \<times> 'a identity_scheme" where
  "init_identity s =
     (let s1 = tick s in
      case read_file (identity_file s) (e_open_ok s (clock s)) (e_read_ok s (clock s)) ATLAS_IDENTITY_LEN of
        None \<Rightarrow> (case atlas_generate_identity s1 of
            (status, s2) \<Rightarrow> if status \<noteq> ATLAS_OK then (ATLAS_IDENTITY_FILE_ERROR, s2) else (ATLAS_OK, s2))
      | Some None \<Rightarrow> (ATLAS_IDENTITY_FILE_ERROR, s1\<lparr>identity_str := ''''\<rparr>)
      | Some (Some bs) \<Rightarrow> (ATLAS_OK, s1\<lparr>identity_str := c_str bs\<rparr>))"

definition init_psk :: "'a identity_scheme \<Rightarrow> atlas_status \<times> 'a identity_scheme" where
  "init_psk s =
     (let s1 = tick s in
      case read_file (psk_file s) (e_open_ok s (clock s)) (e_read_ok s (clock s)) ATLAS_PSK_LEN of
        None \<Rightarrow> (case atlas_generate_psk s1 of
            (status, s2) \<Rightarrow> if status \<noteq> ATLAS_OK then (ATLAS_PSK_FILE_ERROR, s2) else (ATLAS_OK, s2))
      | Some None \<Rightarrow> (ATLAS_PSK_FILE_ERROR, s1\<lparr>psk_str := ''''\<rparr>)
      | Some (Some bs) \<Rightarrow> (ATLAS_OK, s1\<lparr>psk_str := c_str bs\<rparr>))"

definition atlas_identity_init :: "'a identity_scheme \<Rightarrow> atlas_status \<times> 'a identity_scheme" where
  "atlas_identity_init s =
     (case init_identity s of
        (status, s1) \<Rightarrow>
          if status \<noteq> ATLAS_OK then identity_err status s1
          else case init_psk s1 of
            (status2, s2) \<Rightarrow> if status2 \<noteq> ATLAS_OK then identity_err status2 s2 else (ATLAS_OK, s2))"

definition atlas_identity_get :: "'a identity_scheme \<Rightarrow> string" where
  "atlas_identity_get s = identity_str s"

definition atlas_psk_get :: "'a identity_scheme \<Rightarrow> string" where
  "atlas_psk_get s = psk_str s"

section \<open>Lemmas\<close>

lemmas identity_defs = atlas_identity_init_def init_identity_def init_psk_def identity_err_def
  atlas_generate_identity_def atlas_generate_psk_def to_base64_def read_file_def tick_def

lemma length_c_str: "length (c_str bs) \<le> length bs"
  by (simp add: c_str_def bytes_str_def length_takeWhile_le)

lemma c_str_take: "length (c_str (take n bs)) \<le> n"
  by (rule order_trans [OF length_c_str]) simp

text \<open>libuuid prints 36 characters.\<close>

definition ident_env :: "'a identity_scheme \<Rightarrow> bool" where
  "ident_env s \<longleftrightarrow> (\<forall>n. length (e_uuid s n) = 36 \<and> (\<forall>c \<in> set (e_uuid s n). of_char c \<noteq> (0::nat))) \<and>
     (\<forall>bs. \<forall>c \<in> set (e_base64 s bs). of_char c \<noteq> (0::nat))"

definition ident_ok :: "'a identity_scheme \<Rightarrow> bool" where
  "ident_ok s \<longleftrightarrow> length (identity_str s) \<le> ATLAS_IDENTITY_LEN \<and> length (psk_str s) \<le> ATLAS_PSK_LEN"

lemma identity_init_ok:
  assumes "\<And>n. length (e_uuid s n) = 36" and "atlas_identity_init s = (ATLAS_OK, t)"
  shows "ident_ok t"
  using assms c_str_take [of 64]
  by (auto simp: identity_defs ident_ok_def ATLAS_IDENTITY_LEN_def ATLAS_PSK_LEN_def Let_def
      split: option.splits if_splits)

lemma identity_init_err:
  assumes "atlas_identity_init s = (st, t)" and "st \<noteq> ATLAS_OK"
  shows "identity_file t = None \<and> psk_file t = None \<and>
    st \<in> {ATLAS_IDENTITY_FILE_ERROR, ATLAS_PSK_FILE_ERROR}"
  using assms by (auto simp: identity_defs Let_def split: option.splits if_splits prod.splits)

lemma c_str_str_bytes:
  assumes "\<forall>c \<in> set x. of_char c \<noteq> (0::nat)"
  shows "c_str (str_bytes x @ replicate n 0) = x"
proof -
  have "\<forall>b \<in> set (str_bytes x). b \<noteq> 0"
  proof
    fix b assume "b \<in> set (str_bytes x)"
    then obtain c where "c \<in> set x" "b = of_char c" by (auto simp: str_bytes_def)
    then have "unat b \<noteq> 0" using assms by simp
    then show "b \<noteq> 0" by auto
  qed
  then have "takeWhile (\<lambda>b. b \<noteq> 0) (str_bytes x @ replicate n 0) = str_bytes x"
    by (simp add: takeWhile_append2)
  then show ?thesis by (simp add: c_str_def)
qed

text \<open>What the first start generated is what the next start reads, when the files can be read.\<close>

lemma identity_reload:
  assumes env: "ident_env s" and fresh: "identity_file s = None" "psk_file s = None"
    and init: "atlas_identity_init s = (ATLAS_OK, t)"
    and same: "identity_file u = identity_file t" "psk_file u = psk_file t"
    and readable: "\<And>n. e_open_ok u n" "\<And>n. e_read_ok u n"
  shows "\<exists>v. atlas_identity_init u = (ATLAS_OK, v) \<and>
    identity_str v = identity_str t \<and> (psk_str t \<noteq> '''' \<longrightarrow> psk_str v = psk_str t)"
proof -
  obtain n where uuid: "identity_str t = e_uuid s n" "identity_file t = Some (str_bytes (e_uuid s n))"
    using init fresh by (auto simp: identity_defs Let_def split: if_splits option.splits)
  obtain b where psk: "psk_str t = take 64 (e_base64 s b)"
    "psk_file t = Some (str_bytes (psk_str t) @ replicate (65 - length (psk_str t)) 0)"
    using init fresh by (auto simp: identity_defs Let_def ATLAS_PSK_LEN_def split: if_splits option.splits)
  have "length (e_uuid s n) = 36" "\<forall>c \<in> set (e_uuid s n). of_char c \<noteq> (0::nat)"
    using env by (auto simp: ident_env_def)
  then have c1: "c_str (take 64 (str_bytes (e_uuid s n))) = e_uuid s n"
    using c_str_str_bytes [of "e_uuid s n" 0] by simp
  have nz: "\<forall>c \<in> set (psk_str t). of_char c \<noteq> (0::nat)"
    using env psk(1) by (auto simp: ident_env_def dest: in_set_takeD)
  have le: "length (psk_str t) \<le> 64" using psk(1) by simp
  then have "take 64 (str_bytes (psk_str t) @ replicate (65 - length (psk_str t)) 0) =
      str_bytes (psk_str t) @ replicate (64 - length (psk_str t)) 0"
    by (simp add: min_def)
  then have c2: "c_str (take 64 (str_bytes (psk_str t) @ replicate (65 - length (psk_str t)) 0)) = psk_str t"
    using c_str_str_bytes [OF nz] by simp
  have ne: "str_bytes (e_uuid s n) \<noteq> []"
    using \<open>length (e_uuid s n) = 36\<close> by (metis length_str_bytes list.size(3) zero_neq_numeral)
  have ne2: "str_bytes (psk_str t) @ replicate (65 - length (psk_str t)) 0 \<noteq> []"
    using le by simp
  show ?thesis using same readable uuid psk(2) c1 c2 ne ne2
    by (simp add: identity_defs Let_def ATLAS_PSK_LEN_def ATLAS_IDENTITY_LEN_def)
qed

section \<open>Properties\<close>

definition identity_demo :: identity where
  "identity_demo = \<lparr>clock = 0, fds = [0, 1, 2], outs = [], e_fd = (\<lambda>n. 3 + int n),
     gw_hostname = Some \<lparr>hs_cap = 2, hs_str = ''gw''\<rparr>, gw_port = Some \<lparr>hs_cap = 4, hs_str = ''5683''\<rparr>,
     local_iface = Some \<lparr>hs_cap = 4, hs_str = ''eth0''\<rparr>, local_port = 10100,
     e_ifaddr = (\<lambda>_ _. (192, 168, 1, 20)),
     sched_entries = [], e_select = (\<lambda>_. None),
     alarm_entries = [], timers = (\<lambda>_. None), e_settime = (\<lambda>_. 0),
     identity_str = ''0123-id'', psk_str = ''secret'', identity_file = None, psk_file = None,
     e_open_ok = (\<lambda>_. True), e_read_ok = (\<lambda>_. True), e_uuid = (\<lambda>_. replicate 36 CHR ''a''),
     e_rand = (\<lambda>_. Some [1, 2, 3]), e_base64 = (\<lambda>_. ''AQID'')\<rparr>"

text \<open>
  Identity start-up: \<open>atlas_identity_init\<close> either succeeds, and then the identity and the key
  have at most 64 characters (the size every user of them assumes), or reports a file error and
  removes both files, so that the next start generates them afresh.
\<close>

theorem identity_init_outcomes:
  assumes "\<And>n. length (e_uuid s n) = 36" and "atlas_identity_init s = (st, t)"
  shows "(st = ATLAS_OK \<and> length (atlas_identity_get t) \<le> 64 \<and> length (atlas_psk_get t) \<le> 64) \<or>
    (st \<in> {ATLAS_IDENTITY_FILE_ERROR, ATLAS_PSK_FILE_ERROR} \<and> identity_file t = None \<and> psk_file t = None)"
proof (cases "st = ATLAS_OK")
  case True
  then show ?thesis using identity_init_ok [of s t] assms
    by (simp add: ident_ok_def ATLAS_IDENTITY_LEN_def ATLAS_PSK_LEN_def atlas_identity_get_def atlas_psk_get_def)
next
  case False
  then show ?thesis using identity_init_err [OF assms(2)] by simp
qed

theorem identity_init_outcomes_witness:
  "\<exists>st t. atlas_identity_init identity_demo = (st, t) \<and>
    ((st = ATLAS_OK \<and> length (atlas_identity_get t) \<le> 64 \<and> length (atlas_psk_get t) \<le> 64) \<or>
     (st \<in> {ATLAS_IDENTITY_FILE_ERROR, ATLAS_PSK_FILE_ERROR} \<and> identity_file t = None \<and> psk_file t = None))"
proof -
  obtain st t where "atlas_identity_init identity_demo = (st, t)" by fastforce
  moreover from this have "(st = ATLAS_OK \<and> length (atlas_identity_get t) \<le> 64 \<and> length (atlas_psk_get t) \<le> 64) \<or>
     (st \<in> {ATLAS_IDENTITY_FILE_ERROR, ATLAS_PSK_FILE_ERROR} \<and> identity_file t = None \<and> psk_file t = None)"
    by (rule identity_init_outcomes [rotated]) (simp add: identity_demo_def)
  ultimately show ?thesis by blast
qed



end
