(* ===== verification/Coap_Client.thy ===== *)
theory Coap_Client
  imports Identity
begin

text \<open>
  The CoAP client (src/coap/atlas\_coap\_client.c). Each request has its own libcoap context
  and session, a timeout alarm and an entry in the request list; a response with the
  right token, or the timeout, runs the caller's callback and releases all of them. libcoap is
  the environment: it proposes context handles (never one in use), sessions, packets, and the
  messages \<open>coap_io_process\<close> delivers. Option lists and the packet's wire format are libcoap's.

  The lemmas show that a failed request leaves no trace in the client's own structures, that a
  successful one registers exactly one entry, one alarm and one descriptor, that a message
  without the token never reaches a callback, and that every way a request ends releases it.
\<close>

section \<open>State\<close>

record coap_uri =
  cu_host :: string
  cu_port :: u16
  cu_secure :: bool
  cu_path :: string
  cu_query :: string

datatype coap_msg_type = COAP_MESSAGE_CON | COAP_MESSAGE_NON | COAP_MESSAGE_ACK | COAP_MESSAGE_RST

record coap_pdu =
  pdu_type :: coap_msg_type
  pdu_code :: u8
  pdu_token :: "byte list"
  pdu_data :: "byte list"

text \<open>A delivered message: its session, whether libcoap matched it to a sent packet, the packet.\<close>

record coap_msg =
  msg_session :: nat
  msg_sent :: bool
  msg_pdu :: coap_pdu

text \<open>
  An answer of \<open>getaddrinfo\<close>: the address family and the bytes of the socket address.
\<close>

datatype ai_family = AF_INET | AF_INET6 | AF_other

record addrinfo =
  ai_family :: ai_family
  ai_addr :: "byte list"

text \<open>
  What libcoap is given to make a session: the protocol, the bytes of the destination address and
  their number, the identity and the key of a DTLS session.
\<close>

datatype coap_proto = COAP_PROTO_UDP | COAP_PROTO_DTLS

record session_args =
  sa_proto :: coap_proto
  sa_addr :: "byte list"
  sa_size :: int
  sa_psk :: "(string \<times> string) ptr"

text \<open>\<open>rq_addr\<close> stands for the address of the entry's block, as \<open>al_addr\<close> does for alarms.\<close>

record client_req =
  rq_fd :: int
  rq_alarm_id :: int
  rq_ctx :: nat
  rq_session :: nat
  rq_uri :: string
  rq_token :: u32
  rq_callback :: client_cb
  rq_dirty :: bool
  rq_addr :: nat

record coap_client = identity +
  req_entries :: "client_req list"
  token_ctr :: u32
  coap_ctxs :: "(nat \<times> int) list"
  dtls_identity :: string
  dtls_key :: string
  e_split_uri :: "string \<Rightarrow> coap_uri ptr"
  e_getaddrinfo :: "nat \<Rightarrow> string \<Rightarrow> int \<times> addrinfo list"
  e_indet :: "nat \<Rightarrow> int \<times> byte list"
  e_ctx :: "nat \<Rightarrow> nat ptr"
  e_session :: "nat \<Rightarrow> session_args \<Rightarrow> nat ptr"
  e_pdu_ok :: "nat \<Rightarrow> bool"
  e_token_ok :: "nat \<Rightarrow> bool"
  e_io :: "nat \<Rightarrow> coap_msg list"

section \<open>libcoap contexts\<close>

text \<open>
  A new context gets a handle no live context has, and an epoll descriptor when the kernel
  gives one (\<open>coap_context_get_coap_fd\<close> returns \<open>-1\<close> otherwise).
\<close>

definition coap_new_context :: "'a coap_client_scheme \<Rightarrow> nat ptr \<times> 'a coap_client_scheme" where
  "coap_new_context s =
     (case e_ctx s (clock s) of
        None \<Rightarrow> (None, tick s)
      | Some h \<Rightarrow>
          if h \<in> fst ` set (coap_ctxs s) then (None, tick s)
          else case fd_new (tick s) of
            (f, s1) \<Rightarrow> (Some h, s1\<lparr>coap_ctxs := (h, f) # coap_ctxs s1\<rparr>))"

definition coap_context_get_coap_fd :: "nat \<Rightarrow> 'a coap_client_scheme \<Rightarrow> int" where
  "coap_context_get_coap_fd h s = (case map_of (coap_ctxs s) h of None \<Rightarrow> -1 | Some f \<Rightarrow> f)"

definition coap_free_context :: "nat \<Rightarrow> 'a coap_client_scheme \<Rightarrow> 'a coap_client_scheme" where
  "coap_free_context h s =
     (let s1 = fd_close (coap_context_get_coap_fd h s) s
      in s1\<lparr>coap_ctxs := filter (\<lambda>c. fst c \<noteq> h) (coap_ctxs s1)\<rparr>)"

section \<open>Sending a request\<close>

definition get_new_token :: "'a coap_client_scheme \<Rightarrow> u32 \<times> 'a coap_client_scheme" where
  "get_new_token s = (token_ctr s, s\<lparr>token_ctr := token_ctr s + 1\<rparr>)"

text \<open>
  The first Internet address of the host. When the resolver gives no such address the source returns
  a length it never set, with a destination it never filled: \<open>e_indet\<close> is what they hold then.
\<close>

definition resolve_address :: "string \<Rightarrow> 'a coap_client_scheme \<Rightarrow> int \<times> byte list" where
  "resolve_address hostname s =
     (case e_getaddrinfo s (clock s) hostname of (status, res) \<Rightarrow>
      if status \<noteq> 0 then (-1, snd (e_indet s (clock s)))
      else (case find (\<lambda>a. ai_family a = AF_INET \<or> ai_family a = AF_INET6) res of
              Some ainfo \<Rightarrow> (int (length (ai_addr ainfo)), ai_addr ainfo)
            | None \<Rightarrow> e_indet s (clock s)))"

text \<open>\<open>dst.addr.sin.sin_port = htons(port)\<close>: bytes 2 and 3 of the address, in network order.\<close>

definition set_sin_port :: "u16 \<Rightarrow> byte list \<Rightarrow> byte list" where
  "set_sin_port port addr = take 2 addr @ [ucast (drop_bit 8 port), ucast port] @ drop 4 addr"

definition get_session ::
    "coap_proto \<Rightarrow> byte list \<Rightarrow> int \<Rightarrow> 'a coap_client_scheme \<Rightarrow> nat ptr" where
  "get_session proto addr dst_size s = e_session s (clock s)
     \<lparr>sa_proto = proto, sa_addr = addr, sa_size = dst_size,
      sa_psk = (if proto = COAP_PROTO_DTLS then Some (dtls_identity s, dtls_key s) else None)\<rparr>"

definition request_session :: "coap_uri \<Rightarrow> int \<times> byte list \<Rightarrow> 'a coap_client_scheme \<Rightarrow> nat ptr" where
  "request_session cu dst s =
     (case dst of (res, addr) \<Rightarrow>
      get_session (if cu_secure cu then COAP_PROTO_DTLS else COAP_PROTO_UDP)
        (set_sin_port (cu_port cu) addr) res s)"

text \<open>The request code of a method; an unknown method is sent as GET.\<close>

primrec request_code :: "atlas_coap_method \<Rightarrow> atlas_coap_method" where
  "request_code ATLAS_COAP_METHOD_GET = ATLAS_COAP_METHOD_GET"
| "request_code ATLAS_COAP_METHOD_POST = ATLAS_COAP_METHOD_POST"
| "request_code ATLAS_COAP_METHOD_PUT = ATLAS_COAP_METHOD_PUT"
| "request_code ATLAS_COAP_METHOD_DELETE = ATLAS_COAP_METHOD_DELETE"
| "request_code ATLAS_COAP_METHOD_MAX = ATLAS_COAP_METHOD_GET"

definition add_request ::
    "nat \<Rightarrow> nat \<Rightarrow> string \<Rightarrow> u32 \<Rightarrow> u16 \<Rightarrow> client_cb \<Rightarrow> 'a coap_client_scheme \<Rightarrow>
     atlas_status \<times> 'a coap_client_scheme" where
  "add_request ctx session uri token timeout callback s =
     (let fd = coap_context_get_coap_fd ctx s in
      if fd = -1 then (ATLAS_GENERAL_ERR, s)
      else
        let (alarm_id, s1) = atlas_alarm_set (ucast timeout) Request_alarm_cb True s in
        if alarm_id < 0 then (ATLAS_GENERAL_ERR, s1)
        else
          let s2 = atlas_sched_add_entry fd (Some Coap_client_sched_callback) s1;
              entry = \<lparr>rq_fd = fd, rq_alarm_id = alarm_id, rq_ctx = ctx, rq_session = session,
                       rq_uri = uri, rq_token = token, rq_callback = callback, rq_dirty = False,
                       rq_addr = clock s2\<rparr>
          in (ATLAS_OK, s2\<lparr>req_entries := req_entries s2 @ [entry]\<rparr>))"

text \<open>
  The part after the context was created: session, packet, token, payload, registration. The
  environment answers in this order; every failure frees the context. \<open>req_payload_len\<close> bytes
  are read from the payload when there is one.
\<close>

definition request_on_context ::
    "nat \<Rightarrow> coap_uri \<Rightarrow> int \<times> byte list \<Rightarrow> string \<Rightarrow> atlas_coap_method \<Rightarrow> byte list ptr \<Rightarrow> nat \<Rightarrow>
     u16 \<Rightarrow> client_cb \<Rightarrow> 'a coap_client_scheme \<Rightarrow> (atlas_status \<times> 'a coap_client_scheme) option" where
  "request_on_context ctx cu dst uri method req_payload req_payload_len timeout cb s =
     (case request_session cu dst s of
        None \<Rightarrow> Some (ATLAS_GENERAL_ERR, coap_free_context ctx (tick s))
      | Some session \<Rightarrow>
        let s1 = tick s in
        if \<not> e_pdu_ok s1 (clock s1) then Some (ATLAS_GENERAL_ERR, coap_free_context ctx (tick s1))
        else
          let (token, s2) = get_new_token (tick s1) in
          if \<not> e_token_ok s2 (clock s2) then Some (ATLAS_GENERAL_ERR, coap_free_context ctx (tick s2))
          else do {
            payload \<leftarrow> (case req_payload of
                          None \<Rightarrow> Some []
                        | Some b \<Rightarrow> mem_read b 0 req_payload_len);
            let (status, s3) = add_request ctx session uri token timeout cb (tick s2);
            if status \<noteq> ATLAS_OK then Some (status, coap_free_context ctx s3)
            else Some (ATLAS_OK, emit (Coap_request (request_code method) uri token payload) s3) })"

definition atlas_coap_client_request ::
    "string ptr \<Rightarrow> atlas_coap_method \<Rightarrow> byte list ptr \<Rightarrow> nat \<Rightarrow> u16 \<Rightarrow> client_cb ptr \<Rightarrow>
     'a coap_client_scheme \<Rightarrow> (atlas_status \<times> 'a coap_client_scheme) option" where
  "atlas_coap_client_request uri method req_payload req_payload_len timeout cb s =
     (case (uri, cb) of
        (None, _) \<Rightarrow> Some (ATLAS_COAP_INVALID_URI, s)
      | (Some u, None) \<Rightarrow> Some (ATLAS_INVALID_CALLBACK, s)
      | (Some u, Some c) \<Rightarrow>
        (case e_split_uri s u of
           None \<Rightarrow> Some (ATLAS_GENERAL_ERR, s)
         | Some cu \<Rightarrow>
           let dst = resolve_address (cu_host cu) s in
           if fst dst < 0 then Some (ATLAS_GENERAL_ERR, tick s)
           else
             (case coap_new_context (tick s) of
                (None, s1) \<Rightarrow> Some (ATLAS_GENERAL_ERR, s1)
              | (Some ctx, s1) \<Rightarrow>
                  request_on_context ctx cu dst u method req_payload req_payload_len timeout c s1)))"

section \<open>Responses\<close>

definition u32_bytes :: "u32 \<Rightarrow> byte list" where
  "u32_bytes w = [ucast w, ucast (drop_bit 8 w), ucast (drop_bit 16 w), ucast (drop_bit 24 w)]"

definition validate_token :: "coap_pdu \<Rightarrow> u32 \<Rightarrow> bool" where
  "validate_token received token \<longleftrightarrow>
     length (pdu_token received) = 4 \<and> pdu_token received = u32_bytes token"

definition COAP_RESPONSE_CLASS :: "u8 \<Rightarrow> u8" where
  "COAP_RESPONSE_CLASS c = drop_bit 5 c"

text \<open>What a callback is called with: the answer and the payload.\<close>

definition response_of :: "coap_pdu \<Rightarrow> atlas_coap_response \<times> byte list ptr" where
  "response_of received =
     (if pdu_type received = COAP_MESSAGE_RST then (ATLAS_COAP_RESP_RESET, None)
      else if COAP_RESPONSE_CLASS (pdu_code received) = 2 then
        (ATLAS_COAP_RESP_OK, if pdu_data received = [] then None else Some (pdu_data received))
      else if COAP_RESPONSE_CLASS (pdu_code received) = 4 then (ATLAS_COAP_RESP_NOT_FOUND, None)
      else (ATLAS_COAP_RESP_UNKNOWN, None))"

text \<open>The higher layer's callbacks: URI, answer, payload.\<close>

type_synonym 's client_run =
  "client_cb \<Rightarrow> string \<Rightarrow> atlas_coap_response \<Rightarrow> byte list ptr \<Rightarrow> 's \<Rightarrow> 's option"

definition message_handler ::
    "'a coap_client_scheme client_run \<Rightarrow> nat \<Rightarrow> coap_msg \<Rightarrow> 'a coap_client_scheme \<Rightarrow>
     'a coap_client_scheme option" where
  "message_handler run ctx msg s =
     (let session = msg_session msg; received = msg_pdu msg in
      case find (\<lambda>e. rq_ctx e = ctx \<and> rq_session e = session) (req_entries s) of
        None \<Rightarrow> Some s
      | Some ent \<Rightarrow>
          if \<not> validate_token received (rq_token ent) then
            (if (pdu_type received = COAP_MESSAGE_CON \<or> pdu_type received = COAP_MESSAGE_NON) \<and>
                \<not> msg_sent msg
             then Some (emit (Coap_rst session) s) else Some s)
          else
            let s1 = s\<lparr>req_entries := upd_first (\<lambda>e. rq_ctx e = ctx \<and> rq_session e = session)
                                       (\<lambda>e. e\<lparr>rq_dirty := True\<rparr>) (req_entries s)\<rparr>;
                (resp, payload) = response_of received
            in run (rq_callback ent) (rq_uri ent) resp payload s1)"

fun handle_messages ::
    "'a coap_client_scheme client_run \<Rightarrow> nat \<Rightarrow> coap_msg list \<Rightarrow> 'a coap_client_scheme \<Rightarrow>
     'a coap_client_scheme option" where
  "handle_messages run ctx [] s = Some s"
| "handle_messages run ctx (m # ms) s = do {
     s1 \<leftarrow> message_handler run ctx m s;
     handle_messages run ctx ms s1 }"

text \<open>
  After \<open>coap_io_process\<close> the code reads its entry again: \<open>p\<close> is the entry of the same block,
  and a freed block would be a use after free.
\<close>

definition coap_client_sched_callback ::
    "'a coap_client_scheme client_run \<Rightarrow> int \<Rightarrow> 'a coap_client_scheme \<Rightarrow>
     'a coap_client_scheme option" where
  "coap_client_sched_callback run fd s =
     (case find (\<lambda>p. rq_fd p = fd) (req_entries s) of
        None \<Rightarrow> Some s
      | Some p0 \<Rightarrow> do {
          s1 \<leftarrow> handle_messages run (rq_ctx p0) (e_io s (clock s)) (tick s);
          p \<leftarrow> find (\<lambda>p. rq_addr p = rq_addr p0) (req_entries s1);
          if rq_dirty p then
            let s2 = s1\<lparr>req_entries := del_first (\<lambda>q. rq_addr q = rq_addr p0) (req_entries s1)\<rparr>;
                s3 = atlas_sched_del_entry (rq_fd p) s2;
                s4 = atlas_alarm_cancel (rq_alarm_id p) s3
            in Some (coap_free_context (rq_ctx p) s4)
          else Some s1 })"

definition request_alarm_cb ::
    "'a coap_client_scheme client_run \<Rightarrow> int \<Rightarrow> 'a coap_client_scheme \<Rightarrow>
     'a coap_client_scheme option" where
  "request_alarm_cb run alarm_id s =
     (case find (\<lambda>p. rq_alarm_id p = alarm_id) (req_entries s) of
        None \<Rightarrow> Some s
      | Some p \<Rightarrow> do {
          s1 \<leftarrow> run (rq_callback p) (rq_uri p) ATLAS_COAP_RESP_TIMEOUT None s;
          _ \<leftarrow> find (\<lambda>q. rq_addr q = rq_addr p) (req_entries s1);
          let s2 = s1\<lparr>req_entries := del_first (\<lambda>q. rq_addr q = rq_addr p) (req_entries s1)\<rparr>;
          let s3 = atlas_sched_del_entry (rq_fd p) s2;
          Some (coap_free_context (rq_ctx p) s3) })"

section \<open>DTLS credentials\<close>

definition ATLAS_COAP_CLIENT_DTLS_IDENTITY_LEN :: nat where "ATLAS_COAP_CLIENT_DTLS_IDENTITY_LEN = 64"
definition ATLAS_COAP_CLIENT_DTLS_KEY_LEN :: nat where "ATLAS_COAP_CLIENT_DTLS_KEY_LEN = 64"

definition atlas_coap_client_set_dtls_info ::
    "string ptr \<Rightarrow> string ptr \<Rightarrow> 'a coap_client_scheme \<Rightarrow> atlas_status \<times> 'a coap_client_scheme" where
  "atlas_coap_client_set_dtls_info idy psk s =
     (case (idy, psk) of
        (None, _) \<Rightarrow> (ATLAS_INVALID_DTLS_IDENTITY, s)
      | (Some i, None) \<Rightarrow> (ATLAS_INVALID_DTLS_PSK, s)
      | (Some i, Some k) \<Rightarrow>
          (ATLAS_OK, s\<lparr>dtls_identity := strncpy i ATLAS_COAP_CLIENT_DTLS_IDENTITY_LEN,
                        dtls_key := strncpy k ATLAS_COAP_CLIENT_DTLS_KEY_LEN\<rparr>))"

section \<open>A failed request changes nothing but the clock and the token counter\<close>

lemma atlas_alarm_set_fail:
  assumes "fst (atlas_alarm_set ms c r s) = -1"
  shows "\<exists>k. snd (atlas_alarm_set ms c r s) = s\<lparr>clock := k\<rparr>"
proof (cases "fd_pick s = -1")
  case True
  then have "snd (atlas_alarm_set ms c r s) = s\<lparr>clock := Suc (clock s)\<rparr>" by (simp add: alarm_defs Let_def)
  then show ?thesis by blast
next
  case False
  then have "fd_pick s \<notin> set (fds s)" "e_settime s (Suc (clock s)) < 0"
    using assms fd_pick_cases [of s] by (auto simp: atlas_alarm_set_result split: if_splits)
  with False have "snd (atlas_alarm_set ms c r s) = s\<lparr>clock := Suc (Suc (clock s))\<rparr>"
    by (simp add: alarm_defs Let_def)
  then show ?thesis by blast
qed

lemma add_request_fail:
  assumes "add_request ctx ses u tk tmo c s = (st, t)" and "st \<noteq> ATLAS_OK"
  shows "st = ATLAS_GENERAL_ERR \<and> (\<exists>k. t = s\<lparr>clock := k\<rparr>)"
proof (cases "coap_context_get_coap_fd ctx s = -1")
  case True
  then have "st = ATLAS_GENERAL_ERR" "t = s\<lparr>clock := clock s\<rparr>"
    using assms by (simp_all add: add_request_def)
  then show ?thesis by blast
next
  case False
  then have "fst (atlas_alarm_set (ucast tmo) Request_alarm_cb True s) < 0"
    using assms by (auto simp: add_request_def Let_def split: prod.splits if_splits)
  then have "fst (atlas_alarm_set (ucast tmo) Request_alarm_cb True s) = -1"
    by (simp add: atlas_alarm_set_neg_iff)
  from atlas_alarm_set_fail [OF this] show ?thesis
    using assms False by (auto simp: add_request_def Let_def split: prod.splits if_splits)
qed

lemma coap_new_context_NULL: "coap_new_context s = (None, t) \<Longrightarrow> t = s\<lparr>clock := Suc (clock s)\<rparr>"
  by (auto simp: coap_new_context_def tick_def split: option.splits if_splits prod.splits)

lemma coap_new_context_Some:
  assumes "coap_new_context s = (Some h, t)"
  shows "h \<notin> fst ` set (coap_ctxs s) \<and> (\<exists>f. f = fd_pick (tick s) \<and>
    t = s\<lparr>clock := Suc (Suc (clock s)), fds := (if f = -1 then fds s else f # fds s),
         coap_ctxs := (h, f) # coap_ctxs s\<rparr>)"
  using assms by (auto simp: coap_new_context_def tick_def fd_new_def split: option.splits if_splits)

lemma ctx_filter_fresh: "h \<notin> fst ` set xs \<Longrightarrow> filter (\<lambda>c. fst c \<noteq> h) xs = xs"
  by (induction xs) auto

lemma coap_free_new_context:
  assumes "coap_new_context s = (Some h, t)" and "-1 \<notin> set (fds s)"
  shows "coap_free_context h (t\<lparr>token_ctr := tk, clock := k\<rparr>) = s\<lparr>token_ctr := tk, clock := k\<rparr>"
proof -
  obtain f where h: "h \<notin> fst ` set (coap_ctxs s)" and f: "f = fd_pick (tick s)"
    and t: "t = s\<lparr>clock := Suc (Suc (clock s)), fds := (if f = -1 then fds s else f # fds s),
         coap_ctxs := (h, f) # coap_ctxs s\<rparr>"
    using coap_new_context_Some [OF assms(1)] by blast
  have "f = -1 \<or> f \<notin> set (fds s)" using fd_pick_cases [of "tick s"] by (auto simp: f tick_def)
  then have "removeAll f (if f = -1 then fds s else f # fds s) = fds s"
    using assms(2) by auto
  then show ?thesis
    using ctx_filter_fresh [OF h]
    by (simp add: t coap_free_context_def coap_context_get_coap_fd_def fd_close_def)
qed

lemma request_on_context_failed:
  assumes "request_on_context h cu dst u m p len tmo c s = Some (st, t)" and "st \<noteq> ATLAS_OK"
  shows "\<exists>k tk. t = coap_free_context h (s\<lparr>token_ctr := tk, clock := k\<rparr>)"
proof -
  let ?k = "clock s" and ?tk = "token_ctr s"
  consider (early) "t = coap_free_context h (s\<lparr>token_ctr := ?tk, clock := Suc ?k\<rparr>)"
    | (pdu) "t = coap_free_context h (s\<lparr>token_ctr := ?tk, clock := Suc (Suc ?k)\<rparr>)"
    | (token) "t = coap_free_context h (s\<lparr>token_ctr := ?tk + 1, clock := Suc (Suc (Suc ?k))\<rparr>)"
    | (add) ses s3 where "t = coap_free_context h s3"
        "add_request h ses u ?tk tmo c (s\<lparr>token_ctr := ?tk + 1, clock := Suc (Suc (Suc ?k))\<rparr>) = (st, s3)"
    using assms
    by (auto simp: request_on_context_def tick_def get_new_token_def Let_def
        split: option.splits bind_splits prod.splits if_splits)
  then show ?thesis
  proof cases
    case add
    from add_request_fail [OF add(2) assms(2)] add(1) show ?thesis by auto
  qed blast+
qed

lemma coap_request_failed:
  assumes "atlas_coap_client_request u m p len tmo cb s = Some (st, t)"
    and "st \<noteq> ATLAS_OK" and "-1 \<notin> set (fds s)"
  shows "\<exists>k tk. t = s\<lparr>token_ctr := tk, clock := k\<rparr>"
proof -
  let ?k = "clock s" and ?tk = "token_ctr s"
  consider (early) "t = s\<lparr>token_ctr := ?tk, clock := ?k\<rparr>"
    | (resolve) "t = s\<lparr>token_ctr := ?tk, clock := Suc ?k\<rparr>"
    | (ctx) "t = s\<lparr>token_ctr := ?tk, clock := Suc (Suc ?k)\<rparr>"
    | (later) h cu dst x c s1 where "coap_new_context (s\<lparr>clock := Suc ?k\<rparr>) = (Some h, s1)"
        "request_on_context h cu dst x m p len tmo c s1 = Some (st, t)"
    using assms(1,2)
    by (auto simp: atlas_coap_client_request_def tick_def Let_def dest!: coap_new_context_NULL
        split: option.splits prod.splits if_splits)
  then show ?thesis
  proof cases
    case later
    from request_on_context_failed [OF later(2) assms(2)] obtain k tk where
      "t = coap_free_context h (s1\<lparr>token_ctr := tk, clock := k\<rparr>)" by blast
    then show ?thesis using coap_free_new_context [OF later(1), where k = k and tk = tk] assms(3) by auto
  qed blast+
qed

section \<open>A successful request registers one entry, one alarm and one descriptor\<close>

lemma add_request_ok:
  assumes "add_request ctx ses u tk tmo c s = (ATLAS_OK, t)"
  shows "fst (atlas_alarm_set (ucast tmo) Request_alarm_cb True s) = fd_pick s \<and> 0 \<le> fd_pick s \<and>
    coap_context_get_coap_fd ctx s \<noteq> -1 \<and>
    t = (atlas_sched_add_entry (coap_context_get_coap_fd ctx s) (Some Coap_client_sched_callback)
          (snd (atlas_alarm_set (ucast tmo) Request_alarm_cb True s)))
        \<lparr>req_entries := req_entries s @ [\<lparr>rq_fd = coap_context_get_coap_fd ctx s,
           rq_alarm_id = fd_pick s, rq_ctx = ctx, rq_session = ses, rq_uri = u, rq_token = tk,
           rq_callback = c, rq_dirty = False, rq_addr = Suc (Suc (clock s))\<rparr>]\<rparr>"
proof -
  let ?a = "atlas_alarm_set (ucast tmo) Request_alarm_cb True s"
  from assms have ok: "coap_context_get_coap_fd ctx s \<noteq> -1" "\<not> fst ?a < 0"
    by (auto simp: add_request_def Let_def split: prod.splits if_splits)
  then have pick: "fd_pick s \<noteq> -1" "0 \<le> e_settime s (Suc (clock s))"
    by (auto simp: atlas_alarm_set_result split: if_splits)
  note a = atlas_alarm_set_ok [OF refl pick]
  from ok pick assms show ?thesis
    by (auto simp: add_request_def a atlas_sched_add_entry_def Let_def split: if_splits)
qed

text \<open>The state after a successful request, in full.\<close>

definition request_sent ::
    "string \<Rightarrow> atlas_coap_method \<Rightarrow> byte list \<Rightarrow> u16 \<Rightarrow> client_cb \<Rightarrow> nat \<Rightarrow> nat \<Rightarrow> int \<Rightarrow> int \<Rightarrow>
     'a coap_client_scheme \<Rightarrow> 'a coap_client_scheme" where
  "request_sent u m payload tmo c h ses f a s = s\<lparr>
     clock := clock s + 8, fds := a # f # fds s,
     outs := outs s @ [Coap_request (request_code m) u (token_ctr s) payload],
     sched_entries := sched_entries s @
       [\<lparr>se_fd = a, se_callback = Atlas_alarm_trigger, se_dirty = False\<rparr>,
        \<lparr>se_fd = f, se_callback = Coap_client_sched_callback, se_dirty = False\<rparr>],
     alarm_entries := alarm_entries s @
       [\<lparr>al_id = a, al_callback = Request_alarm_cb, al_run_once = True, al_addr = clock s + 8\<rparr>],
     timers := (timers s)(a := Some (timer_spec (ucast tmo) True)),
     req_entries := req_entries s @
       [\<lparr>rq_fd = f, rq_alarm_id = a, rq_ctx = h, rq_session = ses, rq_uri = u,
         rq_token = token_ctr s, rq_callback = c, rq_dirty = False, rq_addr = clock s + 8\<rparr>],
     token_ctr := token_ctr s + 1, coap_ctxs := (h, f) # coap_ctxs s\<rparr>"

lemma request_on_context_ok:
  assumes "request_on_context h cu dst u m p len tmo c s = Some (ATLAS_OK, t)"
  shows "\<exists>ses payload a. request_session cu dst s = Some ses \<and> (case p of None \<Rightarrow> payload = [] | Some b \<Rightarrow> mem_read b 0 len = Some payload) \<and>
    (let f = coap_context_get_coap_fd h s; s3 = s\<lparr>token_ctr := token_ctr s + 1, clock := Suc (Suc (Suc (clock s)))\<rparr> in 
     add_request h ses u (token_ctr s) tmo c s3 = (ATLAS_OK, a) \<and>
     t = emit (Coap_request (request_code m) u (token_ctr s) payload) a)"
  using assms
  by (auto simp: request_on_context_def tick_def get_new_token_def Let_def
      split: option.splits bind_splits prod.splits if_splits)

text \<open>The session is the one libcoap makes for the resolved address, the port and the scheme of the URI.\<close>

definition session_of_uri :: "string \<Rightarrow> 'a coap_client_scheme \<Rightarrow> nat ptr" where
  "session_of_uri u s =
     (case e_split_uri s u of
        None \<Rightarrow> None
      | Some cu \<Rightarrow> request_session cu (resolve_address (cu_host cu) s) (s\<lparr>clock := clock s + 3\<rparr>))"

lemma coap_request_ok:
  assumes "atlas_coap_client_request u m p len tmo cb s = Some (ATLAS_OK, t)"
  shows "\<exists>x c h ses f a payload.
    u = Some x \<and> cb = Some c \<and>
    payload = (case p of None \<Rightarrow> [] | Some b \<Rightarrow> take len b) \<and>
    (p \<noteq> None \<longrightarrow> len \<le> length (the p)) \<and>
    0 \<le> f \<and> 0 \<le> a \<and> a \<noteq> f \<and> f \<notin> set (fds s) \<and> a \<notin> set (fds s) \<and> h \<notin> fst ` set (coap_ctxs s) \<and>
    session_of_uri x s = Some ses \<and>
    t = request_sent x m payload tmo c h ses f a s"
proof -
  obtain x c cu dst h s1 where u: "u = Some x" "cb = Some c" "e_split_uri s x = Some cu"
      "dst = resolve_address (cu_host cu) s"
    and new: "coap_new_context (tick s) = (Some h, s1)"
    and on: "request_on_context h cu dst x m p len tmo c s1 = Some (ATLAS_OK, t)"
    using assms by (auto simp: atlas_coap_client_request_def Let_def split: option.splits prod.splits if_splits)
  from coap_new_context_Some [OF new] obtain f where
    h: "h \<notin> fst ` set (coap_ctxs s)" and f: "f = fd_pick (tick (tick s))"
    and s1: "s1 = s\<lparr>clock := Suc (Suc (Suc (clock s))), fds := (if f = -1 then fds s else f # fds s),
         coap_ctxs := (h, f) # coap_ctxs s\<rparr>"
    by (auto simp: tick_def)
  have fd: "coap_context_get_coap_fd h s1 = f" by (simp add: coap_context_get_coap_fd_def s1)
  let ?s3 = "s1\<lparr>token_ctr := token_ctr s1 + 1, clock := Suc (Suc (Suc (clock s1)))\<rparr>"
  from request_on_context_ok [OF on] obtain ses payload b where
    ses: "request_session cu dst s1 = Some ses"
    and pl: "case p of None \<Rightarrow> payload = [] | Some b \<Rightarrow> mem_read b 0 len = Some payload"
    and add: "add_request h ses x (token_ctr s1) tmo c ?s3 = (ATLAS_OK, b)"
    and t: "t = emit (Coap_request (request_code m) x (token_ctr s1) payload) b"
    by (auto simp: Let_def)
  have fd3: "coap_context_get_coap_fd h ?s3 = f" using fd by (simp add: coap_context_get_coap_fd_def)
  let ?a = "fd_pick ?s3"
  note ok = add_request_ok [OF add, unfolded fd3]
  from ok have fne: "f \<noteq> -1" and a0: "0 \<le> ?a"
    and set: "fst (atlas_alarm_set (ucast tmo) Request_alarm_cb True ?s3) = ?a" by simp_all
  then have f0: "0 \<le> f" "f \<notin> set (fds s)"
    using fd_pick_cases [of "tick (tick s)"] by (auto simp: f tick_def)
  have a: "?a \<notin> set (fds s)" "?a \<noteq> f"
    using a0 fd_new_fresh [of ?s3] fne by (auto simp: s1 split: if_splits)
  have tm: "0 \<le> e_settime ?s3 (Suc (clock ?s3))"
    using set a0 by (auto simp: atlas_alarm_set_result split: if_splits)
  have ane: "?a \<noteq> -1" using a0 by simp
  have pl': "payload = (case p of None \<Rightarrow> [] | Some b \<Rightarrow> take len b)" "p \<noteq> None \<longrightarrow> len \<le> length (the p)"
    using pl by (auto simp: mem_read_def split: option.splits if_splits)
  have "t = request_sent x m payload tmo c h ses f ?a s"
    unfolding t using ok [unfolded atlas_alarm_set_ok [OF refl ane tm]] f0 fne
    by (simp add: atlas_sched_add_entry_def emit_def request_sent_def s1)
  moreover have "session_of_uri x s = Some ses"
    using u ses by (simp add: session_of_uri_def request_session_def get_session_def s1 eval_nat_numeral
        split: prod.splits cong: if_cong)
  ultimately show ?thesis using u(1,2) pl' f0 a a0 h by blast
qed

section \<open>How a request ends\<close>

text \<open>The entry of a request just sent, and the conditions under which its ids are its own.\<close>

definition ids_fresh :: "nat \<Rightarrow> int \<Rightarrow> int \<Rightarrow> 'a coap_client_scheme \<Rightarrow> bool" where
  "ids_fresh h f a s \<longleftrightarrow> 0 \<le> f \<and> 0 \<le> a \<and> a \<noteq> f \<and> {a, f} \<inter> set (fds s) = {} \<and>
     h \<notin> fst ` set (coap_ctxs s) \<and> h \<notin> rq_ctx ` set (req_entries s) \<and>
     {a, f} \<inter> se_fd ` set (sched_entries s) = {} \<and> a \<notin> al_id ` set (alarm_entries s) \<and>
     a \<notin> rq_alarm_id ` set (req_entries s) \<and> f \<notin> rq_fd ` set (req_entries s) \<and>
     (\<forall>e \<in> set (req_entries s). rq_addr e \<le> clock s)"

text \<open>The state before, with the two marked scheduler entries of the request still to be purged.\<close>

definition request_released :: "int \<Rightarrow> int \<Rightarrow> 'a coap_client_scheme \<Rightarrow> 'a coap_client_scheme \<Rightarrow> bool" where
  "request_released f a s t \<longleftrightarrow> req_entries t = req_entries s \<and> alarm_entries t = alarm_entries s \<and>
     fds t = fds s \<and> coap_ctxs t = coap_ctxs s \<and> timers t = (timers s)(a := None) \<and>
     sched_entries t = sched_entries s @
       [\<lparr>se_fd = a, se_callback = Atlas_alarm_trigger, se_dirty = True\<rparr>,
        \<lparr>se_fd = f, se_callback = Coap_client_sched_callback, se_dirty = True\<rparr>]"

lemma find_snoc_key: "(\<forall>x \<in> set xs. k x \<noteq> v) \<Longrightarrow> k e = v \<Longrightarrow> find (\<lambda>x. k x = v) (xs @ [e]) = Some e"
  by (induction xs) auto

lemma find_snoc: "(\<forall>x \<in> set xs. \<not> P x) \<Longrightarrow> P e \<Longrightarrow> find P (xs @ [e]) = Some e"
  by (induction xs) auto

lemma request_timeout_releases:
  assumes fresh: "ids_fresh h f a s" and t: "t = request_sent u m pl tmo c h ses f a s"
    and run: "run c u ATLAS_COAP_RESP_TIMEOUT None t = Some t"
  shows "\<exists>v. atlas_alarm_trigger (\<lambda>_. request_alarm_cb run) a t = Some v \<and> request_released f a s v"
proof -
  have neq: "\<forall>x \<in> set (req_entries s). rq_alarm_id x \<noteq> a \<and> rq_addr x \<noteq> clock s + 8"
    "\<forall>x \<in> set (alarm_entries s). al_id x \<noteq> a" "\<forall>x \<in> set (sched_entries s). se_fd x \<noteq> a \<and> se_fd x \<noteq> f"
    "a \<noteq> f" "h \<notin> fst ` set (coap_ctxs s)" "a \<notin> set (fds s)" "f \<notin> set (fds s)"
    using fresh by (auto simp: ids_fresh_def)
  define v where "v = t\<lparr>req_entries := req_entries s,
    sched_entries := sched_entries s @
       [\<lparr>se_fd = a, se_callback = Atlas_alarm_trigger, se_dirty = False\<rparr>,
        \<lparr>se_fd = f, se_callback = Coap_client_sched_callback, se_dirty = True\<rparr>],
    fds := a # fds s, coap_ctxs := coap_ctxs s\<rparr>"
  have cb: "request_alarm_cb run a t = Some v"
    unfolding request_alarm_cb_def using neq run
    by (simp add: t request_sent_def find_snoc del_first_append upd_first_append atlas_sched_del_entry_def
        coap_free_context_def coap_context_get_coap_fd_def fd_close_def ctx_filter_fresh v_def)
  have "atlas_alarm_trigger (\<lambda>_. request_alarm_cb run) a t = Some (atlas_alarm_cancel a v)"
    using neq cb by (simp add: atlas_alarm_trigger_def t request_sent_def find_snoc v_def)
  moreover have "request_released f a s (atlas_alarm_cancel a v)"
    using neq
    by (simp add: v_def t request_sent_def request_released_def atlas_alarm_cancel_ok del_first_append
        upd_first_append)
  ultimately show ?thesis by blast
qed

lemma request_response_releases:
  assumes fresh: "ids_fresh h f a s" and t: "t = request_sent u m pl tmo c h ses f a s"
    and io: "e_io t (clock t) = [msg]" and ses: "msg_session msg = ses"
    and tok: "validate_token (msg_pdu msg) (token_ctr s)"
    and run: "\<And>x. run c u (fst (response_of (msg_pdu msg))) (snd (response_of (msg_pdu msg))) x = Some x"
  shows "\<exists>v. coap_client_sched_callback run f t = Some v \<and> request_released f a s v"
proof -
  have neq: "\<forall>x \<in> set (req_entries s). rq_fd x \<noteq> f \<and> rq_ctx x \<noteq> h \<and> rq_addr x \<noteq> clock s + 8"
    "\<forall>x \<in> set (alarm_entries s). al_id x \<noteq> a" "\<forall>x \<in> set (sched_entries s). se_fd x \<noteq> a \<and> se_fd x \<noteq> f"
    "a \<noteq> f" "h \<notin> fst ` set (coap_ctxs s)" "a \<notin> set (fds s)" "f \<notin> set (fds s)"
    using fresh by (auto simp: ids_fresh_def)
  let ?e = "\<lambda>d. \<lparr>rq_fd = f, rq_alarm_id = a, rq_ctx = h, rq_session = ses, rq_uri = u,
         rq_token = token_ctr s, rq_callback = c, rq_dirty = d, rq_addr = clock s + 8\<rparr>"
  define v where "v = (tick t)\<lparr>req_entries := req_entries s @ [?e True]\<rparr>"
  have msg: "message_handler run h msg (tick t) = Some v"
    using neq tok run [of v]
    by (simp add: message_handler_def ses t request_sent_def tick_def find_snoc upd_first_append v_def
        Let_def case_prod_beta)
  have reqs: "req_entries t = req_entries s @ [?e False]" by (simp add: t request_sent_def)
  have "coap_client_sched_callback run f t =
      Some (coap_free_context h (atlas_alarm_cancel a (atlas_sched_del_entry f (v\<lparr>req_entries := req_entries s\<rparr>))))"
    unfolding coap_client_sched_callback_def io reqs using neq msg
    by (simp add: find_snoc del_first_append v_def)
  moreover have "request_released f a s
      (coap_free_context h (atlas_alarm_cancel a (atlas_sched_del_entry f (v\<lparr>req_entries := req_entries s\<rparr>))))"
    using neq
    by (simp add: v_def t request_sent_def request_released_def atlas_alarm_cancel_ok del_first_append
        upd_first_append atlas_sched_del_entry_def tick_def
        coap_free_context_def coap_context_get_coap_fd_def fd_close_def ctx_filter_fresh)
  ultimately show ?thesis by blast
qed

lemma request_released_live: "request_released f a s t \<Longrightarrow> sched_live t = sched_live s"
  by (simp add: request_released_def sched_live_def)

section \<open>Messages without the token\<close>

definition unauthentic :: "nat \<Rightarrow> client_req list \<Rightarrow> coap_msg \<Rightarrow> bool" where
  "unauthentic ctx es m \<longleftrightarrow>
     (\<forall>e. find (\<lambda>e. rq_ctx e = ctx \<and> rq_session e = msg_session m) es = Some e \<longrightarrow>
        \<not> validate_token (msg_pdu m) (rq_token e))"

lemma message_handler_unauthentic:
  assumes "unauthentic ctx (req_entries s) m"
  shows "\<exists>xs. set xs \<subseteq> {Coap_rst (msg_session m)} \<and> message_handler run ctx m s = Some (s\<lparr>outs := outs s @ xs\<rparr>)"
proof -
  have "s = s\<lparr>outs := outs s @ []\<rparr>" by simp
  then show ?thesis
    using assms unfolding message_handler_def unauthentic_def emit_def Let_def
    by (cases "find (\<lambda>e. rq_ctx e = ctx \<and> rq_session e = msg_session m) (req_entries s)")
      (auto intro: exI [of _ "[]"] exI [of _ "[Coap_rst (msg_session m)]"])
qed

lemma handle_messages_unauthentic:
  assumes "\<forall>m \<in> set ms. unauthentic ctx (req_entries s) m"
  shows "\<exists>xs. set xs \<subseteq> Coap_rst ` msg_session ` set ms \<and>
    handle_messages run ctx ms s = Some (s\<lparr>outs := outs s @ xs\<rparr>)"
  using assms
proof (induction ms arbitrary: s)
  case Nil
  have "s = s\<lparr>outs := outs s @ []\<rparr>" by simp
  then show ?case by (auto intro: exI [of _ "[]"])
next
  case (Cons m ms)
  from Cons.prems obtain xs where xs: "set xs \<subseteq> {Coap_rst (msg_session m)}"
    "message_handler run ctx m s = Some (s\<lparr>outs := outs s @ xs\<rparr>)"
    using message_handler_unauthentic [of ctx s m run] by auto
  from Cons.prems Cons.IH [of "s\<lparr>outs := outs s @ xs\<rparr>"] obtain ys where
    "set ys \<subseteq> Coap_rst ` msg_session ` set ms"
    "handle_messages run ctx ms (s\<lparr>outs := outs s @ xs\<rparr>) = Some (s\<lparr>outs := outs s @ xs @ ys\<rparr>)"
    by auto
  then show ?case using xs by (intro exI [of _ "xs @ ys"]) auto
qed

lemma sched_callback_unauthentic:
  assumes p: "find (\<lambda>p. rq_fd p = fd) (req_entries s) = Some p" and "\<not> rq_dirty p"
    and addr: "distinct (map rq_addr (req_entries s))"
    and "\<forall>m \<in> set (e_io s (clock s)). unauthentic (rq_ctx p) (req_entries s) m"
  shows "\<exists>xs. set xs \<subseteq> range Coap_rst \<and>
    coap_client_sched_callback run fd s = Some ((tick s)\<lparr>outs := outs s @ xs\<rparr>)"
proof -
  from assms(4) obtain xs where xs: "set xs \<subseteq> Coap_rst ` msg_session ` set (e_io s (clock s))"
    "handle_messages run (rq_ctx p) (e_io s (clock s)) (tick s) = Some ((tick s)\<lparr>outs := outs s @ xs\<rparr>)"
    using handle_messages_unauthentic [of "e_io s (clock s)" "rq_ctx p" "tick s" run] by (auto simp: tick_def)
  have "p \<in> set (req_entries s)" using p by (auto simp: find_Some_iff)
  with addr have "find (\<lambda>q. rq_addr q = rq_addr p) (req_entries s) = Some p" by (rule find_key_unique)
  then have "coap_client_sched_callback run fd s = Some ((tick s)\<lparr>outs := outs s @ xs\<rparr>)"
    using p xs(2) assms(2) by (simp add: coap_client_sched_callback_def tick_def)
  with xs(1) show ?thesis by blast
qed

section \<open>Properties\<close>

definition client_demo :: coap_client where
  "client_demo = \<lparr>clock = 0, fds = [0, 1, 2], outs = [], e_fd = (\<lambda>n. 3 + int n),
     gw_hostname = Some \<lparr>hs_cap = 2, hs_str = ''gw''\<rparr>, gw_port = Some \<lparr>hs_cap = 4, hs_str = ''5683''\<rparr>,
     local_iface = Some \<lparr>hs_cap = 4, hs_str = ''eth0''\<rparr>, local_port = 10100,
     e_ifaddr = (\<lambda>_ _. (192, 168, 1, 20)),
     sched_entries = [], e_select = (\<lambda>_. None),
     alarm_entries = [], timers = (\<lambda>_. None), e_settime = (\<lambda>_. 0),
     identity_str = ''0123-id'', psk_str = ''secret'', identity_file = None, psk_file = None,
     e_open_ok = (\<lambda>_. True), e_read_ok = (\<lambda>_. True), e_uuid = (\<lambda>_. replicate 36 CHR ''a''),
     e_rand = (\<lambda>_. Some [1, 2, 3]), e_base64 = (\<lambda>_. ''AQID''),
     req_entries = [], token_ctr = 41, coap_ctxs = [], dtls_identity = [], dtls_key = [],
     e_split_uri = (\<lambda>u. Some \<lparr>cu_host = ''gw'', cu_port = 5683, cu_secure = True, cu_path = [], cu_query = []\<rparr>),
     e_getaddrinfo = (\<lambda>_ _. (0, [\<lparr>ai_family = AF_INET, ai_addr = [2, 0, 0, 0, 10, 0, 0, 1]\<rparr>])),
     e_indet = (\<lambda>_. (0, [])), e_ctx = (\<lambda>n. Some n), e_session = (\<lambda>n _. Some n), e_pdu_ok = (\<lambda>_. True),
     e_token_ok = (\<lambda>_. True),
     e_io = (\<lambda>n. if n = 8 then [\<lparr>msg_session = 3, msg_sent = True, msg_pdu =
       \<lparr>pdu_type = COAP_MESSAGE_ACK, pdu_code = 69, pdu_token = [41, 0, 0, 0], pdu_data = []\<rparr>\<rparr>] else [])\<rparr>"

text \<open>
  C24. A failed request leaves no trace: whatever step of \<open>atlas_coap_client_request\<close> fails
  (URI, resolution, context, session, packet, token, timer), no context, descriptor, timer,
  scheduler entry or request remains and nothing was sent; only a token may be used up.
\<close>

theorem failed_request_leaves_no_trace:
  assumes "atlas_coap_client_request u m p len tmo cb s = Some (st, t)" and "st \<noteq> ATLAS_OK"
    and "-1 \<notin> set (fds s)"
  shows "\<exists>k tk. t = s\<lparr>token_ctr := tk, clock := k\<rparr>"
  using assms by (rule coap_request_failed)

theorem failed_request_leaves_no_trace_witness:
  "\<exists>t k tk. atlas_coap_client_request (Some ''coaps://gw:5683/x'') ATLAS_COAP_METHOD_PUT (Some [1]) 1 5000
      (Some Reg_callback) (client_demo\<lparr>e_pdu_ok := (\<lambda>_. False)\<rparr>) = Some (ATLAS_GENERAL_ERR, t) \<and>
    t = (client_demo\<lparr>e_pdu_ok := (\<lambda>_. False)\<rparr>)\<lparr>token_ctr := tk, clock := k\<rparr>"
proof -
  let ?s = "client_demo\<lparr>e_pdu_ok := (\<lambda>_. False)\<rparr>"
  obtain t where r: "atlas_coap_client_request (Some ''coaps://gw:5683/x'') ATLAS_COAP_METHOD_PUT (Some [1]) 1 5000
      (Some Reg_callback) ?s = Some (ATLAS_GENERAL_ERR, t)"
    by (simp add: atlas_coap_client_request_def request_on_context_def coap_new_context_def tick_def
        fd_new_def client_demo_def request_session_def get_session_def resolve_address_def)
  have "\<exists>k tk. t = ?s\<lparr>token_ctr := tk, clock := k\<rparr>"
    by (rule failed_request_leaves_no_trace [OF r]) (simp_all add: client_demo_def)
  with r show ?thesis by blast
qed

text \<open>
  C25. A successful request sends one packet with a fresh token and the payload's first \<open>len\<close>
  bytes, and registers exactly one request, one one-shot timer with the timeout and two
  scheduler entries, on two descriptors and a context that were not in use. The
  session is the one for the URI's resolved host, port and scheme.
\<close>

theorem successful_request_registers_once:
  assumes "atlas_coap_client_request u m p len tmo cb s = Some (ATLAS_OK, t)"
  shows "\<exists>x c h ses f a payload. u = Some x \<and> cb = Some c \<and>
    payload = (case p of None \<Rightarrow> [] | Some b \<Rightarrow> take len b) \<and>
    outs t = outs s @ [Coap_request (request_code m) x (token_ctr s) payload] \<and>
    token_ctr t = token_ctr s + 1 \<and>
    req_entries t = req_entries s @ [\<lparr>rq_fd = f, rq_alarm_id = a, rq_ctx = h, rq_session = ses, rq_uri = x,
      rq_token = token_ctr s, rq_callback = c, rq_dirty = False, rq_addr = clock s + 8\<rparr>] \<and>
    alarm_active t = alarm_active s @ [(a, Request_alarm_cb)] \<and>
    timers t a = Some (timer_spec (ucast tmo) True) \<and>
    sched_live t = sched_live s @ [(a, Atlas_alarm_trigger), (f, Coap_client_sched_callback)] \<and>
    fds t = a # f # fds s \<and> coap_ctxs t = (h, f) # coap_ctxs s \<and>
    session_of_uri x s = Some ses \<and> 0 \<le> f \<and> 0 \<le> a \<and> a \<noteq> f \<and> {a, f} \<inter> set (fds s) = {} \<and> h \<notin> fst ` set (coap_ctxs s)"
proof -
  from coap_request_ok [OF assms] obtain x c h ses f a payload where
    o: "u = Some x" "cb = Some c" "payload = (case p of None \<Rightarrow> [] | Some b \<Rightarrow> take len b)"
      "0 \<le> f" "0 \<le> a" "a \<noteq> f" "f \<notin> set (fds s)" "a \<notin> set (fds s)" "h \<notin> fst ` set (coap_ctxs s)"
      "session_of_uri x s = Some ses"
    and t: "t = request_sent x m payload tmo c h ses f a s" by blast
  show ?thesis
    using o by (intro exI [of _ x] exI [of _ c] exI [of _ h] exI [of _ ses] exI [of _ f] exI [of _ a] exI [of _ payload])
      (simp add: t request_sent_def alarm_active_def sched_live_def)
qed

lemma client_demo_request:
  "atlas_coap_client_request (Some ''coaps://gw:5683/x'') ATLAS_COAP_METHOD_PUT (Some [1, 2]) 2 5000
      (Some Reg_callback) client_demo =
   Some (ATLAS_OK, request_sent ''coaps://gw:5683/x'' ATLAS_COAP_METHOD_PUT [1, 2] 5000 Reg_callback 1 3 5 9 client_demo)"
  by (simp add: atlas_coap_client_request_def request_on_context_def coap_new_context_def tick_def
      fd_new_def client_demo_def request_session_def get_session_def resolve_address_def get_new_token_def add_request_def coap_context_get_coap_fd_def alarm_defs
      fd_pick_def emit_def request_sent_def mem_read_def)

theorem successful_request_registers_once_witness:
  "\<exists>t x c h ses f a payload. atlas_coap_client_request (Some ''coaps://gw:5683/x'') ATLAS_COAP_METHOD_PUT
      (Some [1, 2]) 2 5000 (Some Reg_callback) client_demo = Some (ATLAS_OK, t) \<and>
    Some ''coaps://gw:5683/x'' = Some x \<and> Some Reg_callback = Some c \<and> payload = take 2 [1, 2] \<and>
    outs t = outs client_demo @ [Coap_request ATLAS_COAP_METHOD_PUT x (token_ctr client_demo) payload] \<and>
    token_ctr t = token_ctr client_demo + 1 \<and>
    alarm_active t = alarm_active client_demo @ [(a, Request_alarm_cb)] \<and>
    fds t = a # f # fds client_demo \<and> coap_ctxs (t :: coap_client) = (h, f) # coap_ctxs client_demo"
  using successful_request_registers_once [OF client_demo_request] client_demo_request by fastforce



text \<open>
  C27. Responses are authenticated by token: when no delivered message carries the token of the
  request it is matched to, no callback runs and the request stays; the client at most answers
  with resets.
\<close>

theorem unauthentic_messages_ignored:
  assumes "find (\<lambda>p. rq_fd p = fd) (req_entries s) = Some p" and "\<not> rq_dirty p"
    and "distinct (map rq_addr (req_entries s))"
    and "\<forall>m \<in> set (e_io s (clock s)). unauthentic (rq_ctx p) (req_entries s) m"
  shows "\<exists>xs. set xs \<subseteq> range Coap_rst \<and>
    coap_client_sched_callback run fd s = Some ((tick s)\<lparr>outs := outs s @ xs\<rparr>)"
  using assms by (rule sched_callback_unauthentic)

theorem unauthentic_messages_ignored_witness:
  "\<exists>xs s. set xs \<subseteq> range Coap_rst \<and>
    s = (request_sent ''coaps://gw:5683/x'' ATLAS_COAP_METHOD_PUT [1, 2] 5000 Reg_callback 1 3 5 9
         (client_demo\<lparr>token_ctr := 42\<rparr>)) \<and>
    coap_client_sched_callback (\<lambda>_ _ _ _ _. None) 5 s = Some ((tick s)\<lparr>outs := outs s @ xs\<rparr>)"
proof -
  let ?s = "request_sent ''coaps://gw:5683/x'' ATLAS_COAP_METHOD_PUT [1, 2] 5000 Reg_callback 1 3 5 9
         (client_demo\<lparr>token_ctr := 42\<rparr>)"
  have "\<exists>xs. set xs \<subseteq> range Coap_rst \<and>
      coap_client_sched_callback (\<lambda>_ _ _ _ _. None) 5 ?s = Some ((tick ?s)\<lparr>outs := outs ?s @ xs\<rparr>)"
    by (rule unauthentic_messages_ignored [where p = "hd (req_entries ?s)"])
      (simp_all add: client_demo_def request_sent_def unauthentic_def validate_token_def u32_bytes_def)
  then show ?thesis by blast
qed

end
