(* ===== verification/Coap_Server.thy ===== *)
theory Coap_Server
  imports Coap_Client
begin

text \<open>
  The CoAP server (src/coap/atlas\_coap\_server.c): one libcoap context with its endpoints, the
  listener lists (one per method) that map a libcoap resource to the application's callback, and
  the handlers libcoap calls for a request. libcoap is the environment: it proposes resource
  handles (never one in use) and endpoints, and delivers requests (\<open>e_srv_io\<close>), each for the
  handler it was registered with.

  The lemmas show that a failed start leaves nothing open, that a request for an added resource
  reaches exactly its callback, that no other request reaches one, which answers carry a payload,
  and that deleting a listed resource reads a freed block.
\<close>

section \<open>State\<close>

record server_listener =
  sl_resource :: nat
  sl_callback :: server_cb
  sl_uri_path :: string

datatype coap_proto = COAP_PROTO_UDP | COAP_PROTO_DTLS

datatype srv_mode =
    ATLAS_COAP_SERVER_MODE_UDP
  | ATLAS_COAP_SERVER_MODE_DTLS_PSK
  | ATLAS_COAP_SERVER_MODE_BOTH

primrec srv_mode_code :: "srv_mode \<Rightarrow> u32" where
  "srv_mode_code ATLAS_COAP_SERVER_MODE_UDP = 1"
| "srv_mode_code ATLAS_COAP_SERVER_MODE_DTLS_PSK = 2"
| "srv_mode_code ATLAS_COAP_SERVER_MODE_BOTH = 1 OR 2"

definition ATLAS_COAP_SERVER_IS_UDP :: "srv_mode \<Rightarrow> bool" where
  "ATLAS_COAP_SERVER_IS_UDP mode \<longleftrightarrow> srv_mode_code mode AND 1 \<noteq> 0"

definition ATLAS_COAP_SERVER_IS_DTLS :: "srv_mode \<Rightarrow> bool" where
  "ATLAS_COAP_SERVER_IS_DTLS mode \<longleftrightarrow> srv_mode_code mode AND 2 \<noteq> 0"

text \<open>The functions registered with libcoap as handlers of a resource.\<close>

datatype srv_handler = Get_default_index_handler | Get_handler | Post_handler | Put_handler | Delete_handler

text \<open>A delivered request; \<open>sr_uri_path\<close> is what \<open>coap_get_uri_path\<close> returns for it.\<close>

record srv_request =
  sr_handler :: srv_handler
  sr_resource :: nat
  sr_uri_path :: "byte list ptr"
  sr_data :: "byte list"

record coap_server = coap_client +
  srv_ctx :: "nat ptr"
  srv_fd :: int
  srv_key :: string
  srv_psk :: "string ptr"
  srv_endpoints :: "(nat \<times> coap_proto \<times> u16) list"
  srv_resources :: "(nat \<times> string \<times> srv_handler) list"
  server_listeners :: "atlas_coap_method \<Rightarrow> server_listener list"
  e_dtls_supported :: bool
  e_endpoint :: "nat \<Rightarrow> bool"
  e_resource :: "nat \<Rightarrow> nat ptr"
  e_srv_io :: "nat \<Rightarrow> srv_request list"

definition ATLAS_MAX_PSK_KEY_BYTES :: nat where "ATLAS_MAX_PSK_KEY_BYTES = 64"
definition ATLAS_COAP_DEFAULT_STRING :: string where
  "ATLAS_COAP_DEFAULT_STRING = ''ATLAS client CoAP server''"

section \<open>Starting the server\<close>

text \<open>The key buffer is static and one byte longer than the copy. Copying from NULL is undefined.\<close>

definition set_dtls_psk :: "string ptr \<Rightarrow> 'a coap_server_scheme \<Rightarrow> (atlas_status \<times> 'a coap_server_scheme) option" where
  "set_dtls_psk psk_val s =
     (if \<not> e_dtls_supported s then Some (ATLAS_COAP_SRV_DTLS_NOT_SUPPORTED, s)
      else do {
        p \<leftarrow> psk_val;
        let k = strncpy p ATLAS_MAX_PSK_KEY_BYTES;
        Some (ATLAS_OK, s\<lparr>srv_key := k, srv_psk := Some k\<rparr>) })"

definition coap_new_endpoint ::
    "nat \<Rightarrow> u16 \<Rightarrow> coap_proto \<Rightarrow> 'a coap_server_scheme \<Rightarrow> bool \<times> 'a coap_server_scheme" where
  "coap_new_endpoint ctx port proto s =
     (if e_endpoint s (clock s)
      then (True, (tick s)\<lparr>srv_endpoints := srv_endpoints s @ [(ctx, proto, port)]\<rparr>)
      else (False, tick s))"

text \<open>Freeing a context frees its endpoints.\<close>

definition srv_free_context :: "nat \<Rightarrow> 'a coap_server_scheme \<Rightarrow> 'a coap_server_scheme" where
  "srv_free_context h s =
     (let s1 = coap_free_context h s
      in s1\<lparr>srv_endpoints := filter (\<lambda>e. fst e \<noteq> h) (srv_endpoints s1)\<rparr>)"

text \<open>In the mode with both transports the DTLS port is the next one, modulo \<open>2 ^ 16\<close>.\<close>

definition dtls_port :: "srv_mode \<Rightarrow> u16 \<Rightarrow> u16" where
  "dtls_port mode port =
     (if ATLAS_COAP_SERVER_IS_UDP mode \<and> ATLAS_COAP_SERVER_IS_DTLS mode then port + 1 else port)"

definition get_context ::
    "u16 \<Rightarrow> srv_mode \<Rightarrow> string ptr \<Rightarrow> 'a coap_server_scheme \<Rightarrow> (nat ptr \<times> 'a coap_server_scheme) option" where
  "get_context port mode psk s =
     (case coap_new_context s of
        (None, s1) \<Rightarrow> Some (None, s1)
      | (Some ctx, s1) \<Rightarrow> do {
          (_, s2) \<leftarrow> (if ATLAS_COAP_SERVER_IS_DTLS mode then set_dtls_psk psk s1 else Some (ATLAS_OK, s1));
          let (ep, s3) = (if ATLAS_COAP_SERVER_IS_UDP mode
                          then coap_new_endpoint ctx port COAP_PROTO_UDP s2 else (True, s2));
          if \<not> ep then Some (None, srv_free_context ctx s3)
          else
            let (eps, s4) = (if ATLAS_COAP_SERVER_IS_DTLS mode
                             then coap_new_endpoint ctx (dtls_port mode port) COAP_PROTO_DTLS s3 else (True, s3))
            in if \<not> eps then Some (None, srv_free_context ctx s4)
               else Some (Some ctx, s4) })"

text \<open>A new resource gets a handle no live resource has.\<close>

definition coap_resource_init :: "'a coap_server_scheme \<Rightarrow> nat ptr \<times> 'a coap_server_scheme" where
  "coap_resource_init s =
     (case e_resource s (clock s) of
        None \<Rightarrow> (None, tick s)
      | Some r \<Rightarrow> (if r \<in> fst ` set (srv_resources s) then None else Some r, tick s))"

text \<open>The default resource is used without a check of its handle.\<close>

definition init_default_resources :: "'a coap_server_scheme \<Rightarrow> 'a coap_server_scheme option" where
  "init_default_resources s =
     (case coap_resource_init s of
        (None, _) \<Rightarrow> None
      | (Some r, s1) \<Rightarrow>
          Some (s1\<lparr>srv_resources := srv_resources s1 @ [(r, '''', Get_default_index_handler)]\<rparr>))"

definition atlas_coap_server_start ::
    "u16 \<Rightarrow> srv_mode \<Rightarrow> string ptr \<Rightarrow> 'a coap_server_scheme \<Rightarrow>
     (atlas_status \<times> 'a coap_server_scheme) option" where
  "atlas_coap_server_start port mode psk s =
     (if port = 0 then Some (ATLAS_INVALID_PORT, s)
      else do {
        (c, s1) \<leftarrow> get_context port mode psk s;
        case c of
          None \<Rightarrow> Some (ATLAS_GENERAL_ERR, s1\<lparr>srv_ctx := None\<rparr>)
        | Some ctx \<Rightarrow> do {
            s2 \<leftarrow> init_default_resources (s1\<lparr>srv_ctx := Some ctx\<rparr>);
            let f = coap_context_get_coap_fd ctx s2;
            let s3 = s2\<lparr>srv_fd := f\<rparr>;
            if f = -1 then Some (ATLAS_GENERAL_ERR, (srv_free_context ctx s3)\<lparr>srv_ctx := None\<rparr>)
            else Some (ATLAS_OK, atlas_sched_add_entry f (Some Atlas_coap_server_sched_callback) s3) } })"

section \<open>Resources\<close>

primrec handler_of :: "atlas_coap_method \<Rightarrow> srv_handler ptr" where
  "handler_of ATLAS_COAP_METHOD_GET = Some Get_handler"
| "handler_of ATLAS_COAP_METHOD_POST = Some Post_handler"
| "handler_of ATLAS_COAP_METHOD_PUT = Some Put_handler"
| "handler_of ATLAS_COAP_METHOD_DELETE = Some Delete_handler"
| "handler_of ATLAS_COAP_METHOD_MAX = None"

text \<open>
  The listener table has \<open>ATLAS_COAP_METHOD_MAX\<close> slots, so that method is outside it; adding a
  resource before the server has started passes a NULL context to libcoap.
\<close>

definition atlas_coap_server_add_resource ::
    "string ptr \<Rightarrow> atlas_coap_method \<Rightarrow> server_cb ptr \<Rightarrow> 'a coap_server_scheme \<Rightarrow>
     (atlas_status \<times> 'a coap_server_scheme) option" where
  "atlas_coap_server_add_resource uri_path method cb s =
     (case (uri_path, cb) of
        (None, _) \<Rightarrow> Some (ATLAS_COAP_INVALID_URI, s)
      | (Some _, None) \<Rightarrow> Some (ATLAS_INVALID_CALLBACK, s)
      | (Some u, Some c) \<Rightarrow>
        (case coap_resource_init s of
           (None, s1) \<Rightarrow> Some (ATLAS_GENERAL_ERR, s1)
         | (Some r, s1) \<Rightarrow> do {
             _ \<leftarrow> srv_ctx s1;
             h \<leftarrow> handler_of method;
             let s2 = s1\<lparr>srv_resources := srv_resources s1 @ [(r, u, h)]\<rparr>;
             let listener = \<lparr>sl_resource = r, sl_callback = c, sl_uri_path = u\<rparr>;
             Some (ATLAS_OK, s2\<lparr>server_listeners :=
               (server_listeners s2)(method := server_listeners s2 method @ [listener])\<rparr>) }))"

text \<open>
  The loop frees the matching listener and then reads its \<open>next\<close> to go on: a match is a use
  after free. Without a match nothing changes.
\<close>

definition atlas_coap_server_del_resource ::
    "string \<Rightarrow> atlas_coap_method \<Rightarrow> 'a coap_server_scheme \<Rightarrow> 'a coap_server_scheme option" where
  "atlas_coap_server_del_resource uri_path method s =
     (if method = ATLAS_COAP_METHOD_MAX then None
      else case find (\<lambda>p. sl_uri_path p = uri_path) (server_listeners s method) of
             None \<Rightarrow> Some s
           | Some p \<Rightarrow> None)"

section \<open>Requests\<close>

text \<open>\<open>COAP_RESPONSE_CODE\<close>: class in the upper three bits, detail in the lower five.\<close>

definition COAP_RESPONSE_CODE :: "atlas_coap_response \<Rightarrow> u8" where
  "COAP_RESPONSE_CODE r =
     (let c = coap_response_code r in push_bit 5 (of_nat (c div 100)) OR of_nat (c mod 100))"

text \<open>
  The application's callbacks: URI path and payload of the request (NULL when empty); the answer
  and its payload (NULL or a block, its length the block's).
\<close>

type_synonym 's server_run =
  "server_cb \<Rightarrow> string \<Rightarrow> byte list ptr \<Rightarrow> 's \<Rightarrow> (atlas_coap_response \<times> byte list ptr \<times> 's) option"

text \<open>
  \<open>Coap_response c b\<close> is the code the handler wrote into the response (\<open>None\<close> when it leaves
  libcoap's) and the data it handed to \<open>coap_add_data_blocked_response\<close>.
\<close>

definition process_request_handler ::
    "'a coap_server_scheme server_run \<Rightarrow> srv_request \<Rightarrow> server_listener list \<Rightarrow>
     'a coap_server_scheme \<Rightarrow> 'a coap_server_scheme option" where
  "process_request_handler run rq listeners s =
     (let req_payload = (if sr_data rq = [] then None else Some (sr_data rq)) in
      case sr_uri_path rq of
        None \<Rightarrow> Some s
      | Some path \<Rightarrow>
        (case find (\<lambda>l. sl_resource l = sr_resource rq) listeners of
           None \<Rightarrow> Some s
         | Some listener \<Rightarrow> do {
             (resp_code, resp_payload, s1) \<leftarrow> run (sl_callback listener) (c_str path) req_payload s;
             let body = (case resp_payload of
                           None \<Rightarrow> []
                         | Some b \<Rightarrow> if resp_code = ATLAS_COAP_RESP_OK then b else []);
             Some (emit (Coap_response (Some (COAP_RESPONSE_CODE resp_code)) body) s1) }))"

definition get_default_index_handler :: "'a coap_server_scheme \<Rightarrow> 'a coap_server_scheme" where
  "get_default_index_handler s = emit (Coap_response None (str_bytes ATLAS_COAP_DEFAULT_STRING)) s"

primrec run_handler ::
    "srv_handler \<Rightarrow> 'a coap_server_scheme server_run \<Rightarrow> srv_request \<Rightarrow>
     'a coap_server_scheme \<Rightarrow> 'a coap_server_scheme option" where
  "run_handler Get_default_index_handler run rq s = Some (get_default_index_handler s)"
| "run_handler Get_handler run rq s =
     process_request_handler run rq (server_listeners s ATLAS_COAP_METHOD_GET) s"
| "run_handler Post_handler run rq s =
     process_request_handler run rq (server_listeners s ATLAS_COAP_METHOD_POST) s"
| "run_handler Put_handler run rq s =
     process_request_handler run rq (server_listeners s ATLAS_COAP_METHOD_PUT) s"
| "run_handler Delete_handler run rq s =
     process_request_handler run rq (server_listeners s ATLAS_COAP_METHOD_DELETE) s"

primrec handle_requests ::
    "'a coap_server_scheme server_run \<Rightarrow> srv_request list \<Rightarrow> 'a coap_server_scheme \<Rightarrow>
     'a coap_server_scheme option" where
  "handle_requests run [] s = Some s"
| "handle_requests run (r # rs) s = do {
     s1 \<leftarrow> run_handler (sr_handler r) run r s;
     handle_requests run rs s1 }"

definition atlas_coap_server_sched_callback ::
    "'a coap_server_scheme server_run \<Rightarrow> int \<Rightarrow> 'a coap_server_scheme \<Rightarrow> 'a coap_server_scheme option" where
  "atlas_coap_server_sched_callback run fd s = do {
     _ \<leftarrow> srv_ctx s;
     handle_requests run (e_srv_io s (clock s)) (tick s) }"

section \<open>Lemmas: starting\<close>

lemma coap_free_context_srv:
  "coap_free_context h (s\<lparr>srv_key := k, srv_psk := p, srv_endpoints := e\<rparr>) =
   (coap_free_context h s)\<lparr>srv_key := k, srv_psk := p, srv_endpoints := e\<rparr>"
  by (simp add: coap_free_context_def coap_context_get_coap_fd_def fd_close_def Let_def)

definition srv_untouched :: "'a coap_server_scheme \<Rightarrow> 'a coap_server_scheme \<Rightarrow> bool" where
  "srv_untouched s t \<longleftrightarrow> fds t = fds s \<and> coap_ctxs t = coap_ctxs s \<and> sched_entries t = sched_entries s \<and>
     srv_endpoints t = srv_endpoints s \<and> server_listeners t = server_listeners s \<and> outs t = outs s"

lemma set_dtls_psk_frame:
  "set_dtls_psk p s = Some (st, t) \<Longrightarrow> \<exists>k q. t = s\<lparr>srv_key := k, srv_psk := q\<rparr>"
proof -
  assume a: "set_dtls_psk p s = Some (st, t)"
  have same: "s = s\<lparr>srv_key := srv_key s, srv_psk := srv_psk s\<rparr>" by simp
  show ?thesis
  proof (cases "e_dtls_supported s")
    case True
    with a show ?thesis by (auto simp: set_dtls_psk_def Let_def split: bind_splits)
  next
    case False
    then have "t = s" using a by (simp add: set_dtls_psk_def)
    with same show ?thesis by blast
  qed
qed

text \<open>Everything \<open>get_context\<close> does between the creation of the context and its end.\<close>

definition ctx_work :: "nat \<Rightarrow> 'a coap_server_scheme \<Rightarrow> 'a coap_server_scheme \<Rightarrow> bool" where
  "ctx_work h s t \<longleftrightarrow> (\<exists>n k q es. set es \<subseteq> {h} \<times> UNIV \<and>
     t = s\<lparr>clock := n, srv_key := k, srv_psk := q, srv_endpoints := srv_endpoints s @ es\<rparr>)"

lemma ctx_work_refl: "ctx_work h s s"
proof -
  have "s = s\<lparr>clock := clock s, srv_key := srv_key s, srv_psk := srv_psk s, srv_endpoints := srv_endpoints s @ []\<rparr>"
    by simp
  then show ?thesis unfolding ctx_work_def by (metis empty_subsetI list.set(1))
qed

lemma ctx_work_trans:
  assumes "ctx_work h s t" and "ctx_work h t u"
  shows "ctx_work h s u"
proof -
  obtain n k q es where t: "set es \<subseteq> {h} \<times> UNIV"
    "t = s\<lparr>clock := n, srv_key := k, srv_psk := q, srv_endpoints := srv_endpoints s @ es\<rparr>"
    using assms(1) by (auto simp: ctx_work_def)
  obtain n' k' q' es' where u: "set es' \<subseteq> {h} \<times> UNIV"
    "u = t\<lparr>clock := n', srv_key := k', srv_psk := q', srv_endpoints := srv_endpoints t @ es'\<rparr>"
    using assms(2) by (auto simp: ctx_work_def)
  have "u = s\<lparr>clock := n', srv_key := k', srv_psk := q', srv_endpoints := srv_endpoints s @ (es @ es')\<rparr>"
    using t(2) u(2) by simp
  moreover have "set (es @ es') \<subseteq> {h} \<times> UNIV" using t(1) u(1) by auto
  ultimately show ?thesis unfolding ctx_work_def by blast
qed

lemma ctx_work_psk: "set_dtls_psk p s = Some (st, t) \<Longrightarrow> ctx_work h s t"
proof -
  assume "set_dtls_psk p s = Some (st, t)"
  then obtain k q where "t = s\<lparr>srv_key := k, srv_psk := q\<rparr>" using set_dtls_psk_frame by blast
  then have "t = s\<lparr>clock := clock s, srv_key := k, srv_psk := q, srv_endpoints := srv_endpoints s @ []\<rparr>" by simp
  then show ?thesis unfolding ctx_work_def by (metis empty_subsetI list.set(1))
qed

lemma ctx_work_endpoint: "coap_new_endpoint h p pr s = (b, t) \<Longrightarrow> ctx_work h s t"
proof -
  assume a: "coap_new_endpoint h p pr s = (b, t)"
  then have "t = s\<lparr>clock := Suc (clock s), srv_key := srv_key s, srv_psk := srv_psk s,
      srv_endpoints := srv_endpoints s @ (if b then [(h, pr, p)] else [])\<rparr>"
    by (auto simp: coap_new_endpoint_def tick_def split: if_splits)
  moreover have "set (if b then [(h, pr, p)] else []) \<subseteq> {h} \<times> UNIV" by auto
  ultimately show ?thesis unfolding ctx_work_def by blast
qed

lemma srv_free_untouched:
  assumes new: "coap_new_context s = (Some h, s1)" and work: "ctx_work h s1 t"
    and "-1 \<notin> set (fds s)" and "h \<notin> fst ` set (srv_endpoints s)"
  shows "srv_untouched s (srv_free_context h t)"
proof -
  obtain n k q es where es: "set es \<subseteq> {h} \<times> UNIV"
    and t: "t = s1\<lparr>clock := n, srv_key := k, srv_psk := q, srv_endpoints := srv_endpoints s1 @ es\<rparr>"
    using work by (auto simp: ctx_work_def)
  have s1: "srv_endpoints s1 = srv_endpoints s" using coap_new_context_Some [OF new] by auto
  have free: "coap_free_context h (s1\<lparr>token_ctr := token_ctr s1, clock := n\<rparr>) =
      s\<lparr>token_ctr := token_ctr s1, clock := n\<rparr>"
    using new assms(3) by (rule coap_free_new_context)
  have "coap_free_context h t = (coap_free_context h (s1\<lparr>token_ctr := token_ctr s1, clock := n\<rparr>))
      \<lparr>srv_key := k, srv_psk := q, srv_endpoints := srv_endpoints s1 @ es\<rparr>"
    by (simp add: t flip: coap_free_context_srv)
  then have ct: "coap_free_context h t = s\<lparr>token_ctr := token_ctr s1, clock := n, srv_key := k, srv_psk := q,
      srv_endpoints := srv_endpoints s @ es\<rparr>" unfolding free by (simp add: s1)
  have "filter (\<lambda>e. fst e \<noteq> h) es = []" using es by (auto simp: filter_empty_conv)
  then show ?thesis
    unfolding srv_free_context_def ct using assms(4)
    by (simp add: srv_untouched_def ctx_filter_fresh Let_def)
qed

text \<open>Either the context exists with the work done on it, or it was freed again.\<close>

lemma get_context_cases:
  assumes "get_context port mode psk s = Some (c, t)"
  shows "(c = None \<and> coap_new_context s = (None, t)) \<or>
    (\<exists>h s1 u. coap_new_context s = (Some h, s1) \<and> ctx_work h s1 u \<and>
       ((c = None \<and> t = srv_free_context h u) \<or> (c = Some h \<and> t = u)))"
proof (cases "coap_new_context s")
  case (Pair c0 s1)
  show ?thesis
  proof (cases c0)
    case None
    then show ?thesis using assms Pair by (simp add: get_context_def)
  next
    case (Some h)
    obtain st2 s2 where s2: "(if ATLAS_COAP_SERVER_IS_DTLS mode then set_dtls_psk psk s1 else Some (ATLAS_OK, s1)) = Some (st2, s2)"
      using assms Pair Some by (auto simp: get_context_def split: bind_splits)
    obtain ep s3 where s3: "(if ATLAS_COAP_SERVER_IS_UDP mode
        then coap_new_endpoint h port COAP_PROTO_UDP s2 else (True, s2)) = (ep, s3)"
      by (cases "if ATLAS_COAP_SERVER_IS_UDP mode
        then coap_new_endpoint h port COAP_PROTO_UDP s2 else (True, s2)")
    obtain eps s4 where s4: "(if ATLAS_COAP_SERVER_IS_DTLS mode
        then coap_new_endpoint h (dtls_port mode port) COAP_PROTO_DTLS s3 else (True, s3)) = (eps, s4)"
      by (cases "if ATLAS_COAP_SERVER_IS_DTLS mode
        then coap_new_endpoint h (dtls_port mode port) COAP_PROTO_DTLS s3 else (True, s3)")
    have w2: "ctx_work h s1 s2" using s2 by (auto split: if_splits intro: ctx_work_refl ctx_work_psk)
    have "ctx_work h s2 s3" using s3 by (auto split: if_splits intro: ctx_work_refl ctx_work_endpoint)
    with w2 have w3: "ctx_work h s1 s3" by (rule ctx_work_trans)
    have "ctx_work h s3 s4" using s4 by (auto split: if_splits intro: ctx_work_refl ctx_work_endpoint)
    with w3 have w4: "ctx_work h s1 s4" by (rule ctx_work_trans)
    have "get_context port mode psk s = (if \<not> ep then Some (None, srv_free_context h s3)
        else if \<not> eps then Some (None, srv_free_context h s4) else Some (Some h, s4))"
      using Pair Some by (simp add: get_context_def s2 s3 s4)
    then show ?thesis using assms Pair Some w3 w4 by (auto split: if_splits)
  qed
qed

lemma init_default_resources_frame:
  assumes "init_default_resources s = Some t"
  shows "\<exists>r. t = s\<lparr>clock := Suc (clock s), srv_resources := srv_resources s @ [(r, '''', Get_default_index_handler)]\<rparr> \<and>
    r \<notin> fst ` set (srv_resources s)"
  using assms by (auto simp: init_default_resources_def coap_resource_init_def tick_def split: option.splits if_splits)

lemma coap_new_context_NULL_untouched: "coap_new_context s = (None, t) \<Longrightarrow> srv_untouched s t"
  by (drule coap_new_context_NULL) (simp add: srv_untouched_def)

lemma server_start_failed:
  assumes "atlas_coap_server_start port mode psk s = Some (st, t)" and "st \<noteq> ATLAS_OK"
    and "-1 \<notin> set (fds s)" and "fst ` set (srv_endpoints s) \<subseteq> fst ` set (coap_ctxs s)"
  shows "srv_untouched s t"
proof (cases "port = 0")
  case True
  then show ?thesis using assms by (simp add: atlas_coap_server_start_def srv_untouched_def)
next
  case False
  then obtain c s1 where ctx: "get_context port mode psk s = Some (c, s1)"
    using assms(1) by (auto simp: atlas_coap_server_start_def split: bind_splits)
  have fresh: "h \<notin> fst ` set (srv_endpoints s)" if "coap_new_context s = (Some h, s2)" for h s2
    using coap_new_context_Some [OF that] assms(4) by blast
  show ?thesis
  proof (cases c)
    case None
    then have t: "t = s1\<lparr>srv_ctx := None\<rparr>"
      using assms(1) False ctx by (simp add: atlas_coap_server_start_def)
    have "srv_untouched s s1"
      using get_context_cases [OF ctx] None fresh assms(3)
      by (auto intro: coap_new_context_NULL_untouched srv_free_untouched)
    then show ?thesis by (simp add: t srv_untouched_def)
  next
    case (Some h)
    then obtain s0 where new: "coap_new_context s = (Some h, s0)" and work: "ctx_work h s0 s1"
      using get_context_cases [OF ctx] by auto
    obtain s2 where s2: "init_default_resources (s1\<lparr>srv_ctx := Some h\<rparr>) = Some s2"
      using assms(1) False ctx Some by (auto simp: atlas_coap_server_start_def split: bind_splits)
    from init_default_resources_frame [OF s2] obtain r where
      r: "s2 = s1\<lparr>srv_ctx := Some h, clock := Suc (clock s1),
          srv_resources := srv_resources s1 @ [(r, '''', Get_default_index_handler)]\<rparr>" by auto
    let ?f = "coap_context_get_coap_fd h s2"
    have t: "t = (srv_free_context h (s2\<lparr>srv_fd := ?f\<rparr>))\<lparr>srv_ctx := None\<rparr>"
      using assms(1,2) False ctx Some s2 by (auto simp: atlas_coap_server_start_def Let_def split: if_splits)
    have "ctx_work h s1 (s1\<lparr>clock := Suc (clock s1)\<rparr>)"
    proof -
      have "s1\<lparr>clock := Suc (clock s1)\<rparr> = s1\<lparr>clock := Suc (clock s1), srv_key := srv_key s1,
          srv_psk := srv_psk s1, srv_endpoints := srv_endpoints s1 @ []\<rparr>" by simp
      then show ?thesis unfolding ctx_work_def by (metis empty_subsetI list.set(1))
    qed
    with work have "ctx_work h s0 (s1\<lparr>clock := Suc (clock s1)\<rparr>)" by (rule ctx_work_trans)
    from srv_free_untouched [OF new this assms(3) fresh [OF new]] show ?thesis
      unfolding t r
      by (simp add: srv_untouched_def srv_free_context_def coap_free_context_def
          coap_context_get_coap_fd_def fd_close_def Let_def)
  qed
qed

text \<open>A started server is scheduled on the descriptor of its own new context.\<close>

lemma server_start_state:
  assumes "atlas_coap_server_start port mode psk s = Some (ATLAS_OK, t)"
  shows "port \<noteq> 0 \<and> (\<exists>h f n k q es rs. 0 \<le> f \<and> f \<notin> set (fds s) \<and> h \<notin> fst ` set (coap_ctxs s) \<and>
    t = atlas_sched_add_entry f (Some Atlas_coap_server_sched_callback)
      (s\<lparr>fds := f # fds s, coap_ctxs := (h, f) # coap_ctxs s, srv_key := k, srv_psk := q, srv_endpoints := es,
         srv_ctx := Some h, clock := n, srv_resources := rs, srv_fd := f\<rparr>))"
proof -
  have port: "port \<noteq> 0" using assms by (auto simp: atlas_coap_server_start_def)
  obtain h s1 s2 where ctx: "get_context port mode psk s = Some (Some h, s1)"
    and s2: "init_default_resources (s1\<lparr>srv_ctx := Some h\<rparr>) = Some s2"
    and fne: "coap_context_get_coap_fd h s2 \<noteq> -1"
    and t: "t = atlas_sched_add_entry (coap_context_get_coap_fd h s2) (Some Atlas_coap_server_sched_callback)
              (s2\<lparr>srv_fd := coap_context_get_coap_fd h s2\<rparr>)"
    using assms port
    by (auto simp: atlas_coap_server_start_def Let_def split: bind_splits option.splits if_splits)
  from get_context_cases [OF ctx] obtain s0 where new: "coap_new_context s = (Some h, s0)" and work: "ctx_work h s0 s1"
    by auto
  from coap_new_context_Some [OF new] obtain f where f: "f = fd_pick (tick s)"
    and s0: "s0 = s\<lparr>clock := Suc (Suc (clock s)), fds := (if f = -1 then fds s else f # fds s),
         coap_ctxs := (h, f) # coap_ctxs s\<rparr>" by blast
  obtain n k q es where s1: "s1 = s0\<lparr>clock := n, srv_key := k, srv_psk := q, srv_endpoints := srv_endpoints s0 @ es\<rparr>"
    using work by (auto simp: ctx_work_def)
  from init_default_resources_frame [OF s2] obtain r where
    r: "s2 = s1\<lparr>srv_ctx := Some h, clock := Suc (clock s1),
          srv_resources := srv_resources s1 @ [(r, '''', Get_default_index_handler)]\<rparr>" by auto
  have fd: "coap_context_get_coap_fd h s2 = f" by (simp add: r s1 s0 coap_context_get_coap_fd_def)
  have f0: "0 \<le> f" "f \<notin> set (fds s)"
    using fd_pick_cases [of "tick s"] fne fd by (auto simp: f tick_def)
  have "h \<notin> fst ` set (coap_ctxs s)" using coap_new_context_Some [OF new] by blast
  moreover have "t = atlas_sched_add_entry f (Some Atlas_coap_server_sched_callback)
      (s\<lparr>fds := f # fds s, coap_ctxs := (h, f) # coap_ctxs s, srv_key := k, srv_psk := q, srv_endpoints := srv_endpoints s0 @ es,
         srv_ctx := Some h, clock := Suc n, srv_resources := srv_resources s @ [(r, '''', Get_default_index_handler)], srv_fd := f\<rparr>)"
    using f0 unfolding t fd by (auto simp: r s1 s0)
  ultimately show ?thesis using port f0 by blast
qed

lemma server_start_ok:
  assumes "atlas_coap_server_start port mode psk s = Some (ATLAS_OK, t)"
  shows "port \<noteq> 0 \<and> (\<exists>h f. srv_ctx t = Some h \<and> srv_fd t = f \<and> 0 \<le> f \<and> f \<notin> set (fds s) \<and> fds t = f # fds s \<and>
    coap_ctxs t = (h, f) # coap_ctxs s \<and>
    sched_live t = sched_live s @ [(f, Atlas_coap_server_sched_callback)])"
proof -
  from server_start_state [OF assms] obtain h f n k q es rs where "port \<noteq> 0" and
    f: "0 \<le> f" "f \<notin> set (fds s)" and t: "t = atlas_sched_add_entry f (Some Atlas_coap_server_sched_callback)
      (s\<lparr>fds := f # fds s, coap_ctxs := (h, f) # coap_ctxs s, srv_key := k, srv_psk := q, srv_endpoints := es,
         srv_ctx := Some h, clock := n, srv_resources := rs, srv_fd := f\<rparr>)" by blast
  moreover have "sched_live t = sched_live s @ [(f, Atlas_coap_server_sched_callback)]"
    using f unfolding t by (simp add: sched.live_add) (simp add: sched_live_def)
  ultimately show ?thesis by (simp add: atlas_sched_add_entry_def)
qed

section \<open>Lemmas: requests\<close>

lemma add_resource_ok:
  assumes "atlas_coap_server_add_resource u m cb s = Some (ATLAS_OK, t)"
  shows "\<exists>x c r h. u = Some x \<and> cb = Some c \<and> handler_of m = Some h \<and> r \<notin> fst ` set (srv_resources s) \<and>
    t = s\<lparr>clock := Suc (clock s), srv_resources := srv_resources s @ [(r, x, h)],
      server_listeners := (server_listeners s)(m := server_listeners s m @
        [\<lparr>sl_resource = r, sl_callback = c, sl_uri_path = x\<rparr>])\<rparr>"
  using assms
  by (auto simp: atlas_coap_server_add_resource_def coap_resource_init_def tick_def
      split: option.splits if_splits bind_splits prod.splits)

text \<open>Every listener's resource is registered with libcoap.\<close>

definition srv_inv :: "'a coap_server_scheme \<Rightarrow> bool" where
  "srv_inv s \<longleftrightarrow> (\<forall>m. \<forall>l \<in> set (server_listeners s m). sl_resource l \<in> fst ` set (srv_resources s))"

lemma add_resource_inv:
  "srv_inv s \<Longrightarrow> atlas_coap_server_add_resource u m cb s = Some (ATLAS_OK, t) \<Longrightarrow> srv_inv t"
  by (drule add_resource_ok) (auto simp: srv_inv_def split: if_splits)

lemma handler_of_run:
  "handler_of m = Some h \<Longrightarrow>
   run_handler h run rq s = process_request_handler run rq (server_listeners s m) s"
  by (cases m) auto

text \<open>A request for a resource just added runs the callback it was added with.\<close>

lemma added_resource_served:
  assumes "srv_inv s" and "atlas_coap_server_add_resource u m cb s = Some (ATLAS_OK, t)"
    and "sr_resource rq = fst (last (srv_resources t))"
    and "sr_handler rq = snd (snd (last (srv_resources t)))"
    and "sr_uri_path rq = Some path"
    and "run (the cb) (c_str path) (if sr_data rq = [] then None else Some (sr_data rq)) t = Some (resp, pl, v)"
  shows "run_handler (sr_handler rq) run rq t =
    Some (emit (Coap_response (Some (COAP_RESPONSE_CODE resp))
      (if resp = ATLAS_COAP_RESP_OK then (case pl of None \<Rightarrow> [] | Some b \<Rightarrow> b) else [])) v)"
proof -
  from add_resource_ok [OF assms(2)] obtain x c r h where
    o: "u = Some x" "cb = Some c" "handler_of m = Some h" "r \<notin> fst ` set (srv_resources s)"
    and t: "t = s\<lparr>clock := Suc (clock s), srv_resources := srv_resources s @ [(r, x, h)],
      server_listeners := (server_listeners s)(m := server_listeners s m @
        [\<lparr>sl_resource = r, sl_callback = c, sl_uri_path = x\<rparr>])\<rparr>" by blast
  have rq: "sr_resource rq = r" "sr_handler rq = h" using assms(3,4) by (simp_all add: t)
  have "\<forall>l \<in> set (server_listeners s m). sl_resource l \<noteq> r"
    using assms(1) o(4) by (auto simp: srv_inv_def)
  then have "find (\<lambda>l. sl_resource l = r) (server_listeners t m) =
      Some \<lparr>sl_resource = r, sl_callback = c, sl_uri_path = x\<rparr>"
    by (simp add: t find_snoc)
  then show ?thesis
    using assms(5,6) o rq
    by (simp add: handler_of_run process_request_handler_def Let_def split: option.splits)
qed

text \<open>A request for a resource nobody listens on changes nothing.\<close>

lemma unknown_resource_dropped:
  assumes "\<forall>l \<in> set listeners. sl_resource l \<noteq> sr_resource rq"
  shows "process_request_handler run rq listeners s = Some s"
proof -
  have "find (\<lambda>l. sl_resource l = sr_resource rq) listeners = None"
    using assms by (auto simp: find_None_iff)
  then show ?thesis by (simp add: process_request_handler_def split: option.splits)
qed

lemma del_resource_uaf:
  assumes "atlas_coap_server_add_resource (Some x) m (Some c) s = Some (ATLAS_OK, t)"
  shows "atlas_coap_server_del_resource x m t = None"
proof -
  from add_resource_ok [OF assms] have "\<exists>l \<in> set (server_listeners t m). sl_uri_path l = x" by auto
  then have "find (\<lambda>p. sl_uri_path p = x) (server_listeners t m) \<noteq> None" by (auto simp: find_None_iff)
  then show ?thesis by (auto simp: atlas_coap_server_del_resource_def)
qed

section \<open>Properties\<close>

definition server_demo :: coap_server where
  "server_demo = \<lparr>clock = 0, fds = [0, 1, 2], outs = [], e_fd = (\<lambda>n. 3 + int n),
     gw_hostname = Some \<lparr>hs_cap = 2, hs_str = ''gw''\<rparr>, gw_port = Some \<lparr>hs_cap = 4, hs_str = ''5683''\<rparr>,
     local_iface = Some \<lparr>hs_cap = 4, hs_str = ''eth0''\<rparr>, local_port = 10100,
     e_ifaddr = (\<lambda>_ _. (192, 168, 1, 20)),
     sched_entries = [], e_select = (\<lambda>_. None),
     alarm_entries = [], timers = (\<lambda>_. None), e_settime = (\<lambda>_. 0),
     identity_str = ''0123-id'', psk_str = ''secret'', identity_file = None, psk_file = None,
     e_open_ok = (\<lambda>_. True), e_read_ok = (\<lambda>_. True), e_uuid = (\<lambda>_. replicate 36 CHR ''a''),
     e_rand = (\<lambda>_. Some [1, 2, 3]), e_base64 = (\<lambda>_. ''AQID''),
     req_entries = [], token_ctr = 41, coap_ctxs = [], dtls_identity = [], dtls_key = [],
     e_split_uri = (\<lambda>u. Some \<lparr>cu_host = ''gw'', cu_port = 5683, cu_secure = True, cu_path = [], cu_query = []\<rparr>),
     e_getaddrinfo = (\<lambda>_ _. (0, [\<lparr>ai_family = AF_INET, ai_addr = [2, 0, 0, 0, 10, 0, 0, 1]\<rparr>])),
     e_indet = (\<lambda>_. (0, [])), e_ctx = (\<lambda>n. Some n), e_session = (\<lambda>n _. Some n), e_pdu_ok = (\<lambda>_. True),
     e_token_ok = (\<lambda>_. True),
     e_io = (\<lambda>n. if n = 8 then [\<lparr>msg_session = 3, msg_sent = True, msg_pdu =
       \<lparr>pdu_type = COAP_MESSAGE_ACK, pdu_code = 69, pdu_token = [41, 0, 0, 0], pdu_data = []\<rparr>\<rparr>] else []),
     srv_ctx = None, srv_fd = 0, srv_key = [], srv_psk = None, srv_endpoints = [], srv_resources = [],
     server_listeners = (\<lambda>_. []), e_dtls_supported = True, e_endpoint = (\<lambda>_. True),
     e_resource = (\<lambda>n. Some n), e_srv_io = (\<lambda>_. [])\<rparr>"

text \<open>
  Starting the server: success means that a non-zero port was given and the server is
  scheduled on the descriptor of its own new context; on every failure no descriptor,
  context, endpoint, scheduler entry or listener is left over.
\<close>

theorem server_start_outcomes:
  assumes "atlas_coap_server_start port mode psk s = Some (st, t)"
    and "-1 \<notin> set (fds s)" and "fst ` set (srv_endpoints s) \<subseteq> fst ` set (coap_ctxs s)"
  shows "(st = ATLAS_OK \<and> port \<noteq> 0 \<and> (\<exists>h f. srv_ctx t = Some h \<and> f \<notin> set (fds s) \<and> fds t = f # fds s \<and>
      coap_ctxs t = (h, f) # coap_ctxs s \<and>
      sched_live t = sched_live s @ [(f, Atlas_coap_server_sched_callback)])) \<or>
    (st \<noteq> ATLAS_OK \<and> srv_untouched s t)"
  using server_start_ok [of port mode psk s t] server_start_failed [OF assms(1) _ assms(2,3)] assms(1)
  by (cases "st = ATLAS_OK") auto

lemma server_demo_start:
  "\<exists>t. atlas_coap_server_start 10100 ATLAS_COAP_SERVER_MODE_DTLS_PSK (Some ''secret'') server_demo = Some (ATLAS_OK, t) \<and>
     srv_ctx t = Some 0 \<and> srv_resources t = [(3, [], Get_default_index_handler)] \<and> server_listeners t = (\<lambda>_. []) \<and>
     clock t = 4 \<and> e_resource t = (\<lambda>n. Some n)"
  by (simp add: atlas_coap_server_start_def get_context_def coap_new_context_def server_demo_def tick_def
      fd_new_def fd_pick_def set_dtls_psk_def coap_new_endpoint_def ATLAS_COAP_SERVER_IS_DTLS_def
      ATLAS_COAP_SERVER_IS_UDP_def init_default_resources_def coap_resource_init_def
      coap_context_get_coap_fd_def atlas_sched_add_entry_def Let_def)

theorem server_start_outcomes_witness:
  "\<exists>st t. atlas_coap_server_start 10100 ATLAS_COAP_SERVER_MODE_DTLS_PSK (Some ''secret'') server_demo = Some (st, t) \<and>
   ((st = ATLAS_OK \<and> (10100 :: u16) \<noteq> 0 \<and> (\<exists>h f. srv_ctx t = Some h \<and> f \<notin> set (fds server_demo) \<and>
      fds t = f # fds server_demo \<and> coap_ctxs t = (h, f) # coap_ctxs server_demo \<and>
      sched_live t = sched_live server_demo @ [(f, Atlas_coap_server_sched_callback)])) \<or>
    (st \<noteq> ATLAS_OK \<and> srv_untouched server_demo t))"
proof -
  obtain t where t: "atlas_coap_server_start 10100 ATLAS_COAP_SERVER_MODE_DTLS_PSK (Some ''secret'') server_demo =
      Some (ATLAS_OK, t)" using server_demo_start by blast
  with server_start_outcomes [OF t] show ?thesis by (auto simp: server_demo_def)
qed

text \<open>
  C30. Routing: after a resource was added for a method, a request that libcoap delivers for it runs
  exactly the callback it was added with, on the request's path and payload, and answers with the
  callback's code and, only for an OK answer, its payload.
\<close>

theorem added_resource_is_served:
  assumes "srv_inv s" and "atlas_coap_server_add_resource u m cb s = Some (ATLAS_OK, t)"
    and "sr_resource rq = fst (last (srv_resources t))"
    and "sr_handler rq = snd (snd (last (srv_resources t)))"
    and "sr_uri_path rq = Some path"
    and "run (the cb) (c_str path) (if sr_data rq = [] then None else Some (sr_data rq)) t = Some (resp, pl, v)"
  shows "srv_inv t \<and> run_handler (sr_handler rq) run rq t =
      Some (emit (Coap_response (Some (COAP_RESPONSE_CODE resp))
        (if resp = ATLAS_COAP_RESP_OK then (case pl of None \<Rightarrow> [] | Some b \<Rightarrow> b) else [])) v)"
  using added_resource_served [OF assms(1-5), of run] assms(6) add_resource_inv [OF assms(1,2)]
  by blast

theorem added_resource_is_served_witness:
  "\<exists>t rq. run_handler (sr_handler rq) (\<lambda>_ _ _ x. Some (ATLAS_COAP_RESP_OK, Some [9], x)) rq t =
      Some (emit (Coap_response (Some 64) [9]) (t :: coap_server))"
proof -
  let ?run = "\<lambda>_ _ _ x. Some (ATLAS_COAP_RESP_OK, Some [9], x :: coap_server)"
  let ?s = "server_demo\<lparr>srv_ctx := Some 0, srv_resources := [(3, [], Get_default_index_handler)], clock := 4\<rparr>"
  let ?t = "?s\<lparr>clock := 5, srv_resources := [(3, [], Get_default_index_handler), (4, ''x'', Put_handler)],
      server_listeners := (\<lambda>_. [])(ATLAS_COAP_METHOD_PUT := [\<lparr>sl_resource = 4,
        sl_callback = Atlas_execute_command_cb, sl_uri_path = ''x''\<rparr>])\<rparr>"
  let ?rq = "\<lparr>sr_handler = Put_handler, sr_resource = 4, sr_uri_path = Some (str_bytes ''x''), sr_data = []\<rparr>"
  have inv: "srv_inv ?s" by (simp add: srv_inv_def server_demo_def)
  have add: "atlas_coap_server_add_resource (Some ''x'') ATLAS_COAP_METHOD_PUT (Some Atlas_execute_command_cb) ?s =
      Some (ATLAS_OK, ?t)"
    by (simp add: atlas_coap_server_add_resource_def coap_resource_init_def server_demo_def tick_def)
  have "run_handler (sr_handler ?rq) ?run ?rq ?t =
      Some (emit (Coap_response (Some (COAP_RESPONSE_CODE ATLAS_COAP_RESP_OK))
        (if ATLAS_COAP_RESP_OK = ATLAS_COAP_RESP_OK then (case Some [9] of None \<Rightarrow> [] | Some b \<Rightarrow> b) else [])) ?t)"
    using added_resource_is_served [OF inv add, of ?rq "str_bytes ''x''" ?run ATLAS_COAP_RESP_OK "Some [9]" ?t]
    by simp
  moreover have "COAP_RESPONSE_CODE ATLAS_COAP_RESP_OK = 64" by (simp add: COAP_RESPONSE_CODE_def)
  ultimately show ?thesis by (intro exI [of _ ?t] exI [of _ ?rq]) simp
qed

text \<open>
  Deleting a resource that exists is a use after free: \<open>atlas_coap_server_del_resource\<close> reads
  the \<open>next\<close> pointer of the listener it has just freed.
\<close>

theorem delete_resource_use_after_free:
  assumes "atlas_coap_server_add_resource (Some x) m (Some c) s = Some (ATLAS_OK, t)"
  shows "atlas_coap_server_del_resource x m t = None"
  using assms by (rule del_resource_uaf)

theorem delete_resource_use_after_free_witness:
  "\<exists>t. atlas_coap_server_add_resource (Some ''x'') ATLAS_COAP_METHOD_PUT (Some Atlas_execute_command_cb)
      (server_demo\<lparr>srv_ctx := Some 0\<rparr>) = Some (ATLAS_OK, t) \<and>
    atlas_coap_server_del_resource ''x'' ATLAS_COAP_METHOD_PUT t = None"
proof -
  obtain t where t: "atlas_coap_server_add_resource (Some ''x'') ATLAS_COAP_METHOD_PUT (Some Atlas_execute_command_cb)
      (server_demo\<lparr>srv_ctx := Some 0\<rparr>) = Some (ATLAS_OK, t)"
    by (simp add: atlas_coap_server_add_resource_def coap_resource_init_def server_demo_def tick_def)
  with delete_resource_use_after_free [OF t] show ?thesis by blast
qed

end
