(* ===== verification/Commands.thy ===== *)
theory Commands
  imports Atlas_Prelude
begin

text \<open>
  The command protocol (src/commands/atlas\_command.c, atlas\_command.h and
  atlas\_command\_types.h): a batch is one buffer of type-length-value commands, types and
  lengths in network byte order. \<open>atlas_cmd_batch_add\<close> appends a command,
  \<open>atlas_cmd_batch_set_raw\<close> validates a received buffer, \<open>atlas_cmd_batch_get\<close> walks it and
  rewrites each visited header to host order in place.

  The abstract view of a buffer is the list of its \<open>(type, value)\<close> pairs: \<open>enc_tlvs\<close> and
  \<open>dec_tlvs\<close>. The lemmas show that the two agree (interface \<open>tlv_codec\<close>), that the validation
  loop accepts exactly the decodable buffers, that \<open>add\<close> appends to the abstract list, and that
  the pointer walk of the handlers (\<open>cmd_loop\<close>) visits exactly the abstract list, inside the buffer.
  \<open>atlas_cmd_batch_free\<close> has no counterpart: batches are values here.
\<close>

section \<open>Command types\<close>

datatype atlas_cmd_type =
    ATLAS_CMD_REGISTER
  | ATLAS_CMD_KEEPALIVE
  | ATLAS_CMD_IDENTITY
  | ATLAS_CMD_IP_PORT
  | ATLAS_CMD_TELEMETRY_HOSTNAME
  | ATLAS_CMD_TELEMETRY_KERN_INFO
  | ATLAS_CMD_TELEMETRY_SYSINFO_UPTIME
  | ATLAS_CMD_TELEMETRY_SYSINFO_TOTALRAM
  | ATLAS_CMD_TELEMETRY_SYSINFO_FREERAM
  | ATLAS_CMD_TELEMETRY_SYSINFO_SHAREDRAM
  | ATLAS_CMD_TELEMETRY_SYSINFO_BUFFERRAM
  | ATLAS_CMD_TELEMETRY_SYSINFO_TOTALSWAP
  | ATLAS_CMD_TELEMETRY_SYSINFO_FREESWAP
  | ATLAS_CMD_TELEMETRY_SYSINFO_PROCS
  | ATLAS_CMD_TELEMETRY_SYSINFO_LOAD1
  | ATLAS_CMD_TELEMETRY_SYSINFO_LOAD5
  | ATLAS_CMD_TELEMETRY_SYSINFO_LOAD15
  | ATLAS_CMD_TELEMETRY_ALERT_EXT_PUSH_RATE
  | ATLAS_CMD_TELEMETRY_ALERT_INT_SCAN_RATE
  | ATLAS_CMD_TELEMETRY_ALERT_THRESHOLD
  | ATLAS_CMD_TELEMETRY_PACKETS_PER_MINUTE
  | ATLAS_CMD_TELEMETRY_PACKETS_AVG
  | ATLAS_CMD_DATA_PLANE_POLICY
  | ATLAS_CMD_DATA_PLANE_PACKETS_PER_MINUTE
  | ATLAS_CMD_DATA_PLANE_PACKETS_AVG
  | ATLAS_CMD_DATA_PLANE_GET_IDENTITY
  | ATLAS_CMD_DATA_PLANE_IDENTITY
  | ATLAS_CMD_DATA_PLANE_POLICY_QOS
  | ATLAS_CMD_DATA_PLANE_POLICY_PACKETS_PER_MINUTE
  | ATLAS_CMD_DATA_PLANE_POLICY_PACKETS_MAXLEN
  | ATLAS_CMD_DATA_PLANE_FEATURE_REPUTATION
  | ATLAS_CMD_DATA_PLANE_FEEDBACK
  | ATLAS_CMD_DATA_PLANE_FEEDBACK_IDENTITY
  | ATLAS_CMD_DATA_PLANE_FEEDBACK_SENSOR_TYPE
  | ATLAS_CMD_DATA_PLANE_FEEDBACK_SENSOR
  | ATLAS_CMD_DATA_PLANE_FEEDBACK_RESPONSE_TIME
  | ATLAS_CMD_DATA_PLANE_FEATURE_ERROR

primrec cmd_code :: "atlas_cmd_type \<Rightarrow> u16" where
  "cmd_code ATLAS_CMD_REGISTER = 0"
| "cmd_code ATLAS_CMD_KEEPALIVE = 1"
| "cmd_code ATLAS_CMD_IDENTITY = 2"
| "cmd_code ATLAS_CMD_IP_PORT = 3"
| "cmd_code ATLAS_CMD_TELEMETRY_HOSTNAME = 500"
| "cmd_code ATLAS_CMD_TELEMETRY_KERN_INFO = 501"
| "cmd_code ATLAS_CMD_TELEMETRY_SYSINFO_UPTIME = 502"
| "cmd_code ATLAS_CMD_TELEMETRY_SYSINFO_TOTALRAM = 503"
| "cmd_code ATLAS_CMD_TELEMETRY_SYSINFO_FREERAM = 504"
| "cmd_code ATLAS_CMD_TELEMETRY_SYSINFO_SHAREDRAM = 505"
| "cmd_code ATLAS_CMD_TELEMETRY_SYSINFO_BUFFERRAM = 506"
| "cmd_code ATLAS_CMD_TELEMETRY_SYSINFO_TOTALSWAP = 507"
| "cmd_code ATLAS_CMD_TELEMETRY_SYSINFO_FREESWAP = 508"
| "cmd_code ATLAS_CMD_TELEMETRY_SYSINFO_PROCS = 509"
| "cmd_code ATLAS_CMD_TELEMETRY_SYSINFO_LOAD1 = 510"
| "cmd_code ATLAS_CMD_TELEMETRY_SYSINFO_LOAD5 = 511"
| "cmd_code ATLAS_CMD_TELEMETRY_SYSINFO_LOAD15 = 512"
| "cmd_code ATLAS_CMD_TELEMETRY_ALERT_EXT_PUSH_RATE = 513"
| "cmd_code ATLAS_CMD_TELEMETRY_ALERT_INT_SCAN_RATE = 514"
| "cmd_code ATLAS_CMD_TELEMETRY_ALERT_THRESHOLD = 515"
| "cmd_code ATLAS_CMD_TELEMETRY_PACKETS_PER_MINUTE = 516"
| "cmd_code ATLAS_CMD_TELEMETRY_PACKETS_AVG = 517"
| "cmd_code ATLAS_CMD_DATA_PLANE_POLICY = 1000"
| "cmd_code ATLAS_CMD_DATA_PLANE_PACKETS_PER_MINUTE = 1001"
| "cmd_code ATLAS_CMD_DATA_PLANE_PACKETS_AVG = 1002"
| "cmd_code ATLAS_CMD_DATA_PLANE_GET_IDENTITY = 1003"
| "cmd_code ATLAS_CMD_DATA_PLANE_IDENTITY = 1004"
| "cmd_code ATLAS_CMD_DATA_PLANE_POLICY_QOS = 1100"
| "cmd_code ATLAS_CMD_DATA_PLANE_POLICY_PACKETS_PER_MINUTE = 1101"
| "cmd_code ATLAS_CMD_DATA_PLANE_POLICY_PACKETS_MAXLEN = 1102"
| "cmd_code ATLAS_CMD_DATA_PLANE_FEATURE_REPUTATION = 1500"
| "cmd_code ATLAS_CMD_DATA_PLANE_FEEDBACK = 1501"
| "cmd_code ATLAS_CMD_DATA_PLANE_FEEDBACK_IDENTITY = 1502"
| "cmd_code ATLAS_CMD_DATA_PLANE_FEEDBACK_SENSOR_TYPE = 1503"
| "cmd_code ATLAS_CMD_DATA_PLANE_FEEDBACK_SENSOR = 1504"
| "cmd_code ATLAS_CMD_DATA_PLANE_FEEDBACK_RESPONSE_TIME = 1505"
| "cmd_code ATLAS_CMD_DATA_PLANE_FEATURE_ERROR = 1506"

section \<open>Batches\<close>

record cmd_batch =
  b_length :: u16
  b_buf :: "byte list ptr"

definition atlas_cmd_batch_new :: "cmd_batch ptr" where
  "atlas_cmd_batch_new = Some \<lparr>b_length = 0, b_buf = None\<rparr>"

text \<open>
  Appending. \<open>new_len\<close> is a \<open>uint16_t\<close>: the sum wraps. The reallocated block has \<open>new_len\<close>
  bytes, and the three copies go to offsets computed from the old length.
\<close>

definition atlas_cmd_batch_add :: "cmd_batch ptr \<Rightarrow> u16 \<Rightarrow> u16 \<Rightarrow> byte list \<Rightarrow> cmd_batch ptr option" where
  "atlas_cmd_batch_add cmd_batch ty len val =
     (case cmd_batch of
        None \<Rightarrow> Some None
      | Some b \<Rightarrow> do {
          let new_len = b_length b + 2 * 2 + len;
          let blk = mem_realloc (b_buf b) (unat new_len);
          let p = unat (b_length b);
          v \<leftarrow> mem_read val 0 (unat len);
          blk \<leftarrow> mem_write blk (p + 2 * 2) v;
          blk \<leftarrow> mem_write blk p (bytes_of_u16 (htons ty));
          blk \<leftarrow> mem_write blk (p + 2) (bytes_of_u16 (htons len));
          Some (Some (b\<lparr>b_buf := Some blk, b_length := new_len\<rparr>)) })"

definition atlas_cmd_batch_get_buf :: "cmd_batch ptr \<Rightarrow> byte list ptr \<times> u16 \<Rightarrow> byte list ptr \<times> u16" where
  "atlas_cmd_batch_get_buf cmd_batch out =
     (case cmd_batch of None \<Rightarrow> out | Some b \<Rightarrow> (b_buf b, b_length b))"

text \<open>
  The validation loop of \<open>atlas_cmd_batch_set_raw\<close>: \<open>p\<close> is the offset of the C pointer in
  \<open>buf\<close>, \<open>tmp_len\<close> the bytes left. A read outside \<open>buf\<close> is \<open>None\<close>.
\<close>

function validate_loop :: "byte list \<Rightarrow> nat \<Rightarrow> u16 \<Rightarrow> atlas_status option" where
  "validate_loop buf p tmp_len =
     (if tmp_len = 0 then Some ATLAS_OK
      else if tmp_len < 2 then Some ATLAS_CORRUPTED_COMMAND
      else let p1 = p + 2; t1 = tmp_len - 2 in
        if t1 < 2 then Some ATLAS_CORRUPTED_COMMAND
        else do {
          raw \<leftarrow> mem_read buf p1 2;
          let cmd_len = htons (u16_of_bytes raw);
          let p2 = p1 + 2;
          let t2 = t1 - 2;
          if t2 < cmd_len then Some ATLAS_CORRUPTED_COMMAND
          else validate_loop buf (p2 + unat cmd_len) (t2 - cmd_len) })"
  by pat_completeness auto
termination
proof (relation "measure (\<lambda>(buf, p, tmp_len). unat tmp_len)")
  fix buf :: "byte list" and p p1 p2 :: nat and tmp_len t1 t2 cmd_len :: u16 and raw
  assume "\<not> tmp_len < 2" "t1 = tmp_len - 2" "\<not> t1 < 2" "t2 = t1 - 2" "\<not> t2 < cmd_len"
  then show "((buf, p2 + unat cmd_len, t2 - cmd_len), buf, p, tmp_len)
      \<in> measure (\<lambda>(buf, p, tmp_len). unat tmp_len)"
    by (simp add: unat_sub word_le_nat_alt word_less_nat_alt)
qed simp

declare validate_loop.simps [simp del]

definition atlas_cmd_batch_set_raw ::
    "cmd_batch ptr \<Rightarrow> byte list ptr \<Rightarrow> u16 \<Rightarrow> (atlas_status \<times> cmd_batch ptr) option" where
  "atlas_cmd_batch_set_raw cmd_batch buf len =
     (case (cmd_batch, buf) of
        (Some b, Some bs) \<Rightarrow>
          if len = 0 then Some (ATLAS_INVALID_INPUT, cmd_batch)
          else do {
            st \<leftarrow> validate_loop bs 0 len;
            if st \<noteq> ATLAS_OK then Some (st, cmd_batch)
            else do {
              copy \<leftarrow> mem_read bs 0 (unat len);
              Some (ATLAS_OK, Some (b\<lparr>b_buf := Some copy, b_length := len\<rparr>)) } }
      | _ \<Rightarrow> Some (ATLAS_INVALID_INPUT, cmd_batch))"

text \<open>
  A command pointer is the offset of its header in the batch buffer. \<open>get\<close> converts the header
  of the command it returns to host order in place, so visiting a command twice swaps it twice.
\<close>

definition header_to_host :: "byte list \<Rightarrow> nat \<Rightarrow> byte list option" where
  "header_to_host blk p = do {
     ty \<leftarrow> mem_read blk p 2;
     blk \<leftarrow> mem_write blk p (bytes_of_u16 (htons (u16_of_bytes ty)));
     len \<leftarrow> mem_read blk (p + 2) 2;
     mem_write blk (p + 2) (bytes_of_u16 (htons (u16_of_bytes len))) }"

definition atlas_cmd_batch_get ::
    "cmd_batch ptr \<Rightarrow> nat ptr \<Rightarrow> (cmd_batch ptr \<times> nat ptr) option" where
  "atlas_cmd_batch_get cmd_batch current_cmd =
     (case cmd_batch of
        None \<Rightarrow> Some (None, None)
      | Some b \<Rightarrow> do {
          blk \<leftarrow> b_buf b;
          case current_cmd of
            None \<Rightarrow> do {
              blk' \<leftarrow> header_to_host blk 0;
              Some (Some (b\<lparr>b_buf := Some blk'\<rparr>), Some 0) }
          | Some p0 \<Rightarrow> do {
              len \<leftarrow> mem_read blk (p0 + 2) 2;
              let p = p0 + (2 * 2 + unat (u16_of_bytes len));
              if unat (b_length b) \<le> p then Some (cmd_batch, None)
              else do {
                blk' \<leftarrow> header_to_host blk p;
                Some (Some (b\<lparr>b_buf := Some blk'\<rparr>), Some p) } } })"

text \<open>
  What a handler reads through a command pointer: the host-order type and length, and the
  bytes from \<open>value\<close> to the end of the buffer. The declared value is a prefix of \<open>c_rest\<close>.
\<close>

record cmd =
  c_type :: u16
  c_length :: u16
  c_rest :: "byte list"

definition c_value :: "cmd \<Rightarrow> byte list option" where
  "c_value c = mem_read (c_rest c) 0 (unat (c_length c))"

definition cmd_at :: "cmd_batch ptr \<Rightarrow> nat \<Rightarrow> cmd option" where
  "cmd_at cmd_batch p = do {
     b \<leftarrow> cmd_batch;
     blk \<leftarrow> b_buf b;
     ty \<leftarrow> mem_read blk p 2;
     len \<leftarrow> mem_read blk (p + 2) 2;
     Some \<lparr>c_type = u16_of_bytes ty, c_length = u16_of_bytes len, c_rest = drop (p + 4) blk\<rparr> }"

text \<open>
  The loop every handler runs: \<open>cmd = get(batch, NULL); while (cmd) \<dots> cmd = get(batch, cmd)\<close>.
  The body returns whether to go on (\<open>break\<close> and \<open>goto EXIT\<close> stop) and the new state.
\<close>

lemma atlas_cmd_batch_get_advances:
  assumes "atlas_cmd_batch_get b (Some p) = Some (b', Some q)"
  shows "p < q \<and> q < 65536"
proof -
  from assms obtain x :: cmd_batch where "q < unat (b_length x)" and "p < q"
    by (auto simp: atlas_cmd_batch_get_def Let_def not_le split: option.splits bind_splits if_splits)
  moreover have "unat (b_length x) < 65536"
    using unsigned_less [of "b_length x"] by simp
  ultimately show ?thesis by simp
qed

function cmd_while :: "(cmd \<Rightarrow> 's \<Rightarrow> (bool \<times> 's) option) \<Rightarrow> cmd_batch ptr \<Rightarrow> nat ptr \<Rightarrow> 's \<Rightarrow> 's option" where
  "cmd_while body b cur s =
     (case cur of
        None \<Rightarrow> Some s
      | Some p \<Rightarrow> do {
          c \<leftarrow> cmd_at b p;
          gs \<leftarrow> body c s;
          if \<not> fst gs then Some (snd gs)
          else do {
            bc \<leftarrow> atlas_cmd_batch_get b cur;
            cmd_while body (fst bc) (snd bc) (snd gs) } })"
  by pat_completeness auto
termination
proof (relation "measure (\<lambda>(body, b, cur, s). case cur of None \<Rightarrow> 0 | Some p \<Rightarrow> Suc (65536 - p))")
  fix body :: "cmd \<Rightarrow> 's \<Rightarrow> (bool \<times> 's) option" and b cur s p c gs bc
  assume "cur = Some p" "atlas_cmd_batch_get b cur = Some bc"
  moreover obtain b' nxt where "bc = (b', nxt)" by fastforce
  ultimately show "((body, fst bc, snd bc, snd gs), body, b, cur, s)
      \<in> measure (\<lambda>(body, b, cur, s). case cur of None \<Rightarrow> 0 | Some p \<Rightarrow> Suc (65536 - p))"
    by (cases nxt) (auto dest!: atlas_cmd_batch_get_advances)
qed simp

declare cmd_while.simps [simp del]

definition cmd_loop :: "(cmd \<Rightarrow> 's \<Rightarrow> (bool \<times> 's) option) \<Rightarrow> cmd_batch ptr \<Rightarrow> 's \<Rightarrow> 's option" where
  "cmd_loop body b s = do {
     bc \<leftarrow> atlas_cmd_batch_get b None;
     cmd_while body (fst bc) (snd bc) s }"

end
