(* ===== verification/Command_Codec.thy ===== *)
theory Command_Codec
  imports Commands
begin

text \<open>
  The abstract view of the command protocol and its refinement: a batch is a list of
  \<open>(type, value)\<close> pairs. \<open>enc_tlvs\<close> lays the list out as the bytes of the wire, \<open>dec_tlvs\<close>
  reads them back; the interface \<open>tlv_codec\<close> states their laws and derives what clients use
  (unique decoding, nesting). The lemmas tie the C-level operations of \<open>Commands\<close> to it.
\<close>

section \<open>The abstract commands\<close>

type_synonym tlv = "u16 \<times> byte list"

definition wf_tlv :: "tlv \<Rightarrow> bool" where
  "wf_tlv x \<longleftrightarrow> length (snd x) < 65536"

definition enc_tlv :: "tlv \<Rightarrow> byte list" where
  "enc_tlv x = net_bytes (fst x) @ net_bytes (of_nat (length (snd x))) @ snd x"

definition enc_tlvs :: "tlv list \<Rightarrow> byte list" where
  "enc_tlvs xs = concat (map enc_tlv xs)"

function dec_tlvs :: "byte list \<Rightarrow> tlv list option" where
  "dec_tlvs [] = Some []"
| "dec_tlvs [a] = None"
| "dec_tlvs [a, b] = None"
| "dec_tlvs [a, b, c] = None"
| "dec_tlvs (a # b # c # d # bs) =
     (let n = unat (htons (u16_of_bytes [c, d]))
      in if n \<le> length bs
         then map_option (\<lambda>xs. (htons (u16_of_bytes [a, b]), take n bs) # xs) (dec_tlvs (drop n bs))
         else None)"
  by pat_completeness auto
termination by (relation "measure length") auto

lemma unat_of_nat16 [simp]: "n < 65536 \<Longrightarrow> unat (of_nat n :: u16) = n"
  by (simp add: unat_of_nat take_bit_eq_mod)

lemma unat_u16_less [simp]: "unat (w :: u16) < 65536"
  using unsigned_less [of w] by simp

lemma enc_tlvs_simps [simp]:
  "enc_tlvs [] = []"
  "enc_tlvs (x # xs) = enc_tlv x @ enc_tlvs xs"
  "enc_tlvs (xs @ ys) = enc_tlvs xs @ enc_tlvs ys"
  by (simp_all add: enc_tlvs_def)

lemma length_enc_tlv [simp]: "length (enc_tlv x) = 4 + length (snd x)"
  by (simp add: enc_tlv_def)

lemma net_bytes_conv: "\<exists>a b. net_bytes w = [a, b]"
  by (rule list_of_length_2) simp

lemma dec_tlvs_enc_tlv:
  assumes "wf_tlv x"
  shows "dec_tlvs (enc_tlv x @ bs) = map_option (\<lambda>xs. x # xs) (dec_tlvs bs)"
proof -
  obtain a b where ab: "net_bytes (fst x) = [a, b]" using net_bytes_conv by blast
  obtain c d where cd: "net_bytes (of_nat (length (snd x))) = [c, d]" using net_bytes_conv by blast
  have "htons (u16_of_bytes [a, b]) = fst x" by (metis ab u16_of_net_bytes)
  moreover have "unat (htons (u16_of_bytes [c, d])) = length (snd x)"
    using assms by (metis cd u16_of_net_bytes unat_of_nat16 wf_tlv_def)
  ultimately show ?thesis by (simp add: enc_tlv_def ab cd)
qed

lemma dec_enc_tlvs: "list_all wf_tlv xs \<Longrightarrow> dec_tlvs (enc_tlvs xs) = Some xs"
  by (induction xs) (simp_all add: dec_tlvs_enc_tlv)

lemma enc_dec_tlvs: "dec_tlvs bs = Some xs \<Longrightarrow> enc_tlvs xs = bs \<and> list_all wf_tlv xs"
proof (induction bs arbitrary: xs rule: dec_tlvs.induct)
  case (5 a b c d bs)
  let ?n = "unat (htons (u16_of_bytes [c, d]))"
  from 5(2) obtain ys where n: "?n \<le> length bs" and ys: "dec_tlvs (drop ?n bs) = Some ys"
    and xs: "xs = (htons (u16_of_bytes [a, b]), take ?n bs) # ys"
    by (auto simp: Let_def split: if_splits)
  from 5(1) [OF refl n ys] have "enc_tlvs ys = drop ?n bs" "list_all wf_tlv ys" by auto
  moreover have "of_nat ?n = htons (u16_of_bytes [c, d])" by simp
  moreover have "wf_tlv (htons (u16_of_bytes [a, b]), take ?n bs)"
    using n unat_u16_less [of "htons (u16_of_bytes [c, d])"] by (simp add: wf_tlv_def)
  ultimately show ?case using n xs
    by (simp add: enc_tlv_def net_bytes_of_wire min_absorb2)
qed auto

section \<open>The interface of a wire codec\<close>

text \<open>
  What the senders and receivers of the protocol rely on: what is encoded decodes to itself,
  and only encodings decode. Unique decoding, injectivity and transport of one encoded batch
  as the value of another command follow.
\<close>

locale tlv_codec =
  fixes enc :: "'a list \<Rightarrow> 'b list"
    and dec :: "'b list \<Rightarrow> 'a list option"
    and valid :: "'a \<Rightarrow> bool"
  assumes dec_enc: "list_all valid xs \<Longrightarrow> dec (enc xs) = Some xs"
    and enc_dec: "dec bs = Some xs \<Longrightarrow> enc xs = bs \<and> list_all valid xs"
begin

lemma dec_iff: "dec bs = Some xs \<longleftrightarrow> bs = enc xs \<and> list_all valid xs"
  using dec_enc enc_dec by blast

lemma enc_inj: "list_all valid xs \<Longrightarrow> list_all valid ys \<Longrightarrow> enc xs = enc ys \<Longrightarrow> xs = ys"
  using dec_enc by (metis option.inject)

lemma decodable_iff: "dec bs \<noteq> None \<longleftrightarrow> (\<exists>xs. list_all valid xs \<and> bs = enc xs)"
  using dec_iff by (metis not_None_eq)

lemma nested_dec:
  assumes "dec outer = Some xs" and "x \<in> set xs" and "payload x = enc ys" and "list_all valid ys"
  shows "dec (payload x) = Some ys"
  using assms dec_enc by simp

end

interpretation cmds: tlv_codec enc_tlvs dec_tlvs wf_tlv
  by unfold_locales (rule dec_enc_tlvs enc_dec_tlvs; assumption)+

section \<open>Validation accepts exactly the decodable buffers\<close>

lemma dec_tlvs_short: "0 < length bs \<Longrightarrow> length bs < 4 \<Longrightarrow> dec_tlvs bs = None"
  by (cases bs rule: dec_tlvs.cases) auto

lemma dec_tlvs_header:
  assumes "4 \<le> length bs"
  shows "dec_tlvs bs =
    (let n = unat (htons (u16_of_bytes (take 2 (drop 2 bs))))
     in if n \<le> length bs - 4
        then map_option (\<lambda>xs. (htons (u16_of_bytes (take 2 bs)), take n (drop 4 bs)) # xs)
               (dec_tlvs (drop (4 + n) bs))
        else None)"
  using assms by (cases bs rule: dec_tlvs.cases) (auto simp: Let_def numeral_eq_Suc)

lemma validate_loop_correct:
  assumes "p + unat tmp_len \<le> length buf"
  shows "validate_loop buf p tmp_len =
    Some (if dec_tlvs (take (unat tmp_len) (drop p buf)) \<noteq> None
          then ATLAS_OK else ATLAS_CORRUPTED_COMMAND)"
  using assms
proof (induction buf p tmp_len rule: validate_loop.induct)
  case (1 buf p t)
  let ?bs = "take (unat t) (drop p buf)"
  have len: "length ?bs = unat t" using 1(2) by simp
  show ?case
  proof (cases "unat t < 4")
    case True
    then have "t = 0 \<or> t < 2 \<or> t - 2 < 2"
      by (cases "t < 2") (auto simp: word_less_nat_alt unat_sub word_le_nat_alt)
    moreover have "t \<noteq> 0 \<Longrightarrow> dec_tlvs ?bs = None"
      using True len dec_tlvs_short [of ?bs] by (simp add: unat_gt_0)
    ultimately show ?thesis by (auto simp: validate_loop.simps [of buf p t])
  next
    case False
    then have t0: "t \<noteq> 0" "\<not> t < 2" "\<not> t - 2 < 2" and t4: "unat (t - 2 - 2) = unat t - 4"
      by (auto simp: word_less_nat_alt unat_sub word_le_nat_alt)
    let ?raw = "take 2 (drop (p + 2) buf)"
    let ?l = "htons (u16_of_bytes ?raw)"
    have read: "mem_read buf (p + 2) 2 = Some ?raw"
      using False 1(2) by (simp add: mem_read_def)
    have raw: "take 2 (drop 2 ?bs) = ?raw"
      using False by (simp add: drop_take add.commute)
    have unf: "validate_loop buf p t =
        (if t - 2 - 2 < ?l then Some ATLAS_CORRUPTED_COMMAND
         else validate_loop buf (p + 2 + 2 + unat ?l) (t - 2 - 2 - ?l))"
      using t0 by (subst validate_loop.simps) (simp add: read Let_def del: add_2_eq_Suc')
    have hdr: "dec_tlvs ?bs =
        (if unat ?l \<le> length ?bs - 4
         then map_option (\<lambda>xs. (htons (u16_of_bytes (take 2 ?bs)), take (unat ?l) (drop 4 ?bs)) # xs)
               (dec_tlvs (drop (4 + unat ?l) ?bs)) else None)"
    proof -
      have "4 \<le> length ?bs" using False len by simp
      then show ?thesis by (rule dec_tlvs_header [unfolded Let_def, of ?bs, unfolded raw])
    qed
    show ?thesis
    proof (cases "t - 2 - 2 < ?l")
      case True
      then have "\<not> unat ?l \<le> length ?bs - 4" using t4 len by (simp add: word_less_nat_alt)
      then show ?thesis using True unf hdr by simp
    next
      case le: False
      then have u: "unat (t - 2 - 2 - ?l) = unat t - 4 - unat ?l" "unat ?l \<le> unat t - 4"
        using t4 by (auto simp: word_less_nat_alt unat_sub word_le_nat_alt not_less)
      have rest: "take (unat (t - 2 - 2 - ?l)) (drop (p + 2 + 2 + unat ?l) buf) = drop (4 + unat ?l) ?bs"
      proof -
        have "p + 2 + 2 + unat ?l = 4 + unat ?l + p" by simp
        then show ?thesis by (simp only: u(1) drop_take drop_drop diff_diff_left)
      qed
      have "p + 2 + 2 + unat ?l + unat (t - 2 - 2 - ?l) \<le> length buf"
        using u 1(2) False by simp
      note ih = 1(1) [OF t0(1,2) refl refl t0(3) read refl refl refl le this, unfolded rest]
      have "(dec_tlvs ?bs \<noteq> None) = (dec_tlvs (drop (4 + unat ?l) ?bs) \<noteq> None)"
        unfolding hdr using u len by simp
      then show ?thesis using le unf ih by (simp only: if_False)
    qed
  qed
qed

section \<open>Batches as abstract lists\<close>

definition mk_batch :: "tlv list \<Rightarrow> cmd_batch" where
  "mk_batch xs = \<lparr>b_length = of_nat (length (enc_tlvs xs)),
                  b_buf = (if xs = [] then None else Some (enc_tlvs xs))\<rparr>"

lemma atlas_cmd_batch_new_mk [batch_simps]: "atlas_cmd_batch_new = Some (mk_batch [])"
  by (simp add: atlas_cmd_batch_new_def mk_batch_def)

lemma atlas_cmd_batch_get_buf_mk [batch_simps]:
  "xs \<noteq> [] \<Longrightarrow> atlas_cmd_batch_get_buf (Some (mk_batch xs)) out =
     (Some (enc_tlvs xs), of_nat (length (enc_tlvs xs)))"
  by (simp add: atlas_cmd_batch_get_buf_def mk_batch_def)

lemma mem_realloc_mk:
  assumes "length (enc_tlvs xs) \<le> n"
  shows "mem_realloc (b_buf (mk_batch xs)) n = enc_tlvs xs @ replicate (n - length (enc_tlvs xs)) 0"
  using assms by (simp add: mk_batch_def mem_realloc_grow)

text \<open>
  Appending: as long as the whole buffer stays below 64 KiB, \<open>add\<close> appends the pair, whatever
  was in the reallocated bytes.
\<close>

lemma atlas_cmd_batch_add_mk:
  assumes "length (enc_tlvs xs) + 4 + unat len < 65536" and "unat len \<le> length val"
  shows "atlas_cmd_batch_add (Some (mk_batch xs)) ty len val =
    Some (Some (mk_batch (xs @ [(ty, take (unat len) val)])))"
proof -
  let ?E = "enc_tlvs xs" and ?v = "take (unat len) val" and ?n = "length (enc_tlvs xs) + 4 + unat len"
  have E: "unat (b_length (mk_batch xs)) = length ?E"
    using assms(1) by (simp add: mk_batch_def)
  have "b_length (mk_batch xs) + 2 * 2 + len = of_nat ?n"
    by (simp add: mk_batch_def ac_simps)
  then have new: "unat (b_length (mk_batch xs) + 2 * 2 + len) = ?n"
    using assms(1) by (simp only: unat_of_nat16)
  have new': "b_length (mk_batch xs) + 2 * 2 + len = of_nat (length (enc_tlvs (xs @ [(ty, ?v)])))"
    using assms by (simp add: mk_batch_def ac_simps)
  have v: "length ?v = unat len" using assms(2) by simp
  have zeros: "replicate (?n - length ?E) (0::byte) =
      replicate 2 0 @ replicate 2 0 @ replicate (unat len) 0"
    by (simp add: numeral_eq_Suc)
  have blk: "mem_realloc (b_buf (mk_batch xs)) ?n =
      ?E @ replicate 2 0 @ replicate 2 0 @ replicate (unat len) 0"
    unfolding zeros [symmetric] by (rule mem_realloc_mk) simp
  have w1: "mem_write (?E @ replicate 2 0 @ replicate 2 0 @ replicate (unat len) 0) (length ?E + 2 * 2) ?v
      = Some (?E @ replicate 2 0 @ replicate 2 0 @ ?v)"
    using v by (simp add: mem_write_def)
  have w2: "mem_write (?E @ replicate 2 0 @ replicate 2 0 @ ?v) (length ?E) (bytes_of_u16 (htons ty))
      = Some (?E @ net_bytes ty @ replicate 2 0 @ ?v)"
    by (simp add: mem_write_append net_bytes_def)
  have w3: "mem_write (?E @ net_bytes ty @ replicate 2 0 @ ?v) (length ?E + 2) (bytes_of_u16 (htons len))
      = Some (?E @ net_bytes ty @ net_bytes len @ ?v)"
    by (simp add: mem_write_append2 net_bytes_def [of len])
  have enc: "enc_tlvs (xs @ [(ty, ?v)]) = ?E @ net_bytes ty @ net_bytes len @ ?v"
    using v by (simp add: enc_tlv_def min_absorb2 del: length_take)
  have read: "mem_read val 0 (unat len) = Some ?v"
    using assms(2) by (simp add: mem_read_def)
  have "(mk_batch xs)\<lparr>b_buf := Some (?E @ net_bytes ty @ net_bytes len @ ?v),
      b_length := b_length (mk_batch xs) + 2 * 2 + len\<rparr> = mk_batch (xs @ [(ty, ?v)])"
    unfolding enc [symmetric] new' by (simp add: mk_batch_def)
  then show ?thesis
    unfolding atlas_cmd_batch_add_def option.case Let_def new E blk read bind.bind_lunit w1 w2 w3
    by (simp only:)
qed

lemma atlas_cmd_batch_add_bytes [batch_simps]:
  assumes "length (enc_tlvs (xs @ [(ty, val)])) < 65536"
  shows "atlas_cmd_batch_add (Some (mk_batch xs)) ty (of_nat (length val)) val =
    Some (Some (mk_batch (xs @ [(ty, val)])))"
  using assms by (subst atlas_cmd_batch_add_mk) simp_all

text \<open>
  The \<open>uint16_t\<close> sum of lengths is not checked: once the batch would pass 64 KiB, the block is
  reallocated too small and the copies run out of it.
\<close>

lemma atlas_cmd_batch_add_overflow:
  assumes "65536 \<le> length (enc_tlvs xs) + 4 + unat len" and "length (enc_tlvs xs) < 65536"
  shows "atlas_cmd_batch_add (Some (mk_batch xs)) ty len val = None"
proof -
  let ?new = "b_length (mk_batch xs) + 2 * 2 + len"
  have "?new = of_nat (length (enc_tlvs xs) + 4 + unat len)"
    by (simp add: mk_batch_def ac_simps)
  then have "unat ?new = (length (enc_tlvs xs) + 4 + unat len) mod 65536"
    by (simp only: unat_of_nat take_bit_eq_mod) simp
  moreover have "length (enc_tlvs xs) + 4 + unat len < 2 * 65536 + 4"
    using assms(2) unat_u16_less [of len] by linarith
  ultimately have small: "unat ?new < length (enc_tlvs xs) + 4 + unat len"
    using assms(1) by (auto simp: mod_if)
  show ?thesis
  proof (cases "mem_read val 0 (unat len)")
    case (Some v)
    then have "length v = unat len" by (rule length_mem_read)
    then have "mem_write (mem_realloc (b_buf (mk_batch xs)) (unat ?new))
        (unat (b_length (mk_batch xs)) + 2 * 2) v = None"
      using small assms(2) by (simp add: mem_write_def mk_batch_def ac_simps)
    then show ?thesis by (simp add: atlas_cmd_batch_add_def Some Let_def)
  qed (simp add: atlas_cmd_batch_add_def Let_def)
qed

section \<open>Receiving: set\_raw and the walk over the commands\<close>

lemma set_raw_dec:
  assumes "unat len \<le> length bs" and "len \<noteq> 0"
  shows "atlas_cmd_batch_set_raw (Some b) (Some bs) len =
    Some (case dec_tlvs (take (unat len) bs) of
            None \<Rightarrow> (ATLAS_CORRUPTED_COMMAND, Some b)
          | Some xs \<Rightarrow> (ATLAS_OK, Some (mk_batch xs)))"
proof -
  have v: "validate_loop bs 0 len =
      Some (if dec_tlvs (take (unat len) bs) \<noteq> None then ATLAS_OK else ATLAS_CORRUPTED_COMMAND)"
    using validate_loop_correct [of 0 len bs] assms(1) by simp
  show ?thesis
  proof (cases "dec_tlvs (take (unat len) bs)")
    case None
    then show ?thesis using v assms(2) by (simp add: atlas_cmd_batch_set_raw_def)
  next
    case (Some xs)
    then have enc: "enc_tlvs xs = take (unat len) bs" using cmds.enc_dec by blast
    then have "length (enc_tlvs xs) = unat len" using assms(1) by simp
    moreover from this have "xs \<noteq> []" using assms(2) by (auto simp: unat_eq_0)
    ultimately have "mk_batch xs = b\<lparr>b_buf := Some (take (unat len) bs), b_length := len\<rparr>"
      by (simp add: mk_batch_def enc del: length_take)
    then show ?thesis using Some v assms by (simp add: atlas_cmd_batch_set_raw_def mem_read_def)
  qed
qed

text \<open>The abstract walk: the body sees each pair, and after it the bytes of the later commands.\<close>

definition view :: "tlv \<Rightarrow> tlv list \<Rightarrow> cmd" where
  "view x rest = \<lparr>c_type = fst x, c_length = of_nat (length (snd x)),
                  c_rest = snd x @ enc_tlvs rest\<rparr>"

fun cmd_fold :: "(cmd \<Rightarrow> 's \<Rightarrow> (bool \<times> 's) option) \<Rightarrow> tlv list \<Rightarrow> 's \<Rightarrow> 's option" where
  "cmd_fold body [] s = Some s"
| "cmd_fold body (x # xs) s = do {
     gs \<leftarrow> body (view x xs) s;
     if \<not> fst gs then Some (snd gs) else cmd_fold body xs (snd gs) }"

lemma c_value_view [simp]: "wf_tlv x \<Longrightarrow> c_value (view x rest) = Some (snd x)"
  by (simp add: c_value_def view_def mem_read_prefix wf_tlv_def)

lemma c_type_view [simp]: "c_type (view x rest) = fst x"
  and c_length_view [simp]: "c_length (view x rest) = of_nat (length (snd x))"
  and c_rest_view [simp]: "c_rest (view x rest) = snd x @ enc_tlvs rest"
  by (simp_all add: view_def)

lemma header_to_host_enc:
  assumes "p = length pre"
  shows "header_to_host (pre @ enc_tlv x @ post) p =
    Some (pre @ bytes_of_u16 (fst x) @ bytes_of_u16 (of_nat (length (snd x))) @ snd x @ post)"
proof -
  let ?l = "of_nat (length (snd x)) :: u16"
  have r1: "mem_read (pre @ net_bytes (fst x) @ net_bytes ?l @ snd x @ post) p 2 = Some (net_bytes (fst x))"
    using assms by (simp add: mem_read_append)
  have w1: "mem_write (pre @ net_bytes (fst x) @ net_bytes ?l @ snd x @ post) p (bytes_of_u16 (fst x))
      = Some (pre @ bytes_of_u16 (fst x) @ net_bytes ?l @ snd x @ post)"
    using assms by (simp add: mem_write_append)
  have r2: "mem_read (pre @ bytes_of_u16 (fst x) @ net_bytes ?l @ snd x @ post) (p + 2) 2 = Some (net_bytes ?l)"
    using assms by (simp add: mem_read_append2)
  have w2: "mem_write (pre @ bytes_of_u16 (fst x) @ net_bytes ?l @ snd x @ post) (p + 2) (bytes_of_u16 ?l)
      = Some (pre @ bytes_of_u16 (fst x) @ bytes_of_u16 ?l @ snd x @ post)"
    using assms by (simp add: mem_write_append2)
  show ?thesis
    unfolding header_to_host_def enc_tlv_def append_assoc r1 bind.bind_lunit u16_of_net_bytes w1 r2 w2 by (rule refl)
qed

text \<open>A walk that has reached the command \<open>x\<close>: everything before it is arbitrary.\<close>

definition walk_batch :: "byte list \<Rightarrow> tlv \<Rightarrow> tlv list \<Rightarrow> cmd_batch" where
  "walk_batch pre x rest =
     \<lparr>b_length = of_nat (length pre + length (enc_tlvs (x # rest))),
      b_buf = Some (pre @ bytes_of_u16 (fst x) @ bytes_of_u16 (of_nat (length (snd x)))
                    @ snd x @ enc_tlvs rest)\<rparr>"

lemma cmd_at_walk: "cmd_at (Some (walk_batch pre x rest)) (length pre) = Some (view x rest)"
  by (simp add: cmd_at_def walk_batch_def view_def mem_read_append mem_read_append2)

lemma get_first_mk:
  assumes "xs = x # rest"
  shows "atlas_cmd_batch_get (Some (mk_batch xs)) None = Some (Some (walk_batch [] x rest), Some 0)"
  using assms header_to_host_enc [of 0 "[]" x "enc_tlvs rest"]
  by (simp add: atlas_cmd_batch_get_def mk_batch_def walk_batch_def)

lemma get_next_walk:
  assumes "length pre + length (enc_tlvs (x # rest)) < 65536" and "wf_tlv x"
  shows "atlas_cmd_batch_get (Some (walk_batch pre x rest)) (Some (length pre)) =
    Some (case rest of
            [] \<Rightarrow> (Some (walk_batch pre x rest), None)
          | y # ys \<Rightarrow>
              let pre' = pre @ bytes_of_u16 (fst x) @ bytes_of_u16 (of_nat (length (snd x))) @ snd x
              in (Some (walk_batch pre' y ys), Some (length pre')))"
proof -
  let ?l = "bytes_of_u16 (of_nat (length (snd x)))"
  let ?p = "length pre + (2 * 2 + length (snd x))"
  have read: "mem_read (pre @ bytes_of_u16 (fst x) @ ?l @ snd x @ enc_tlvs rest) (length pre + 2) 2 = Some ?l"
    by (simp add: mem_read_append2)
  have len: "unat (b_length (walk_batch pre x rest)) = length pre + length (enc_tlvs (x # rest))"
    using assms(1) by (simp only: walk_batch_def cmd_batch.simps unat_of_nat16)
  have l: "unat (u16_of_bytes ?l) = length (snd x)"
    using assms(2) by (simp add: wf_tlv_def)
  show ?thesis
  proof (cases rest)
    case Nil
    then show ?thesis using read len l
      by (simp add: atlas_cmd_batch_get_def walk_batch_def Let_def)
  next
    case (Cons y ys)
    let ?pre = "pre @ bytes_of_u16 (fst x) @ ?l @ snd x"
    have "header_to_host (?pre @ enc_tlv y @ enc_tlvs ys) ?p =
        Some (?pre @ bytes_of_u16 (fst y) @ bytes_of_u16 (of_nat (length (snd y))) @ snd y @ enc_tlvs ys)"
      by (rule header_to_host_enc) simp
    moreover have "\<not> unat (b_length (walk_batch pre x rest)) \<le> ?p"
      using len Cons by simp
    ultimately show ?thesis using read l Cons
      by (simp add: atlas_cmd_batch_get_def walk_batch_def Let_def ac_simps)
  qed
qed

text \<open>The pointer walk of the handlers is the abstract fold: it stays inside the buffer and ends.\<close>

lemma cmd_while_walk:
  assumes "length pre + length (enc_tlvs (x # rest)) < 65536" and "list_all wf_tlv (x # rest)"
  shows "cmd_while body (Some (walk_batch pre x rest)) (Some (length pre)) s = cmd_fold body (x # rest) s"
  using assms
proof (induction rest arbitrary: pre x s)
  case Nil
  then show ?case
    by (simp add: cmd_while.simps [of body _ "Some _"] cmd_while.simps [of body _ None]
        cmd_at_walk get_next_walk cong: if_cong)
next
  case (Cons y ys)
  let ?pre = "pre @ bytes_of_u16 (fst x) @ bytes_of_u16 (of_nat (length (snd x))) @ snd x"
  have "cmd_while body (Some (walk_batch ?pre y ys)) (Some (length ?pre)) s' = cmd_fold body (y # ys) s'" for s'
    using Cons.prems by (intro Cons.IH) simp_all
  then show ?case using Cons.prems
    by (subst cmd_while.simps) (simp add: cmd_at_walk get_next_walk cong: if_cong)
qed

lemma cmd_loop_mk [batch_simps]:
  assumes "xs \<noteq> []" and "list_all wf_tlv xs" and "length (enc_tlvs xs) < 65536"
  shows "cmd_loop body (Some (mk_batch xs)) s = cmd_fold body xs s"
proof -
  obtain x rest where xs: "xs = x # rest" using assms(1) by (cases xs) auto
  then show ?thesis
    using cmd_while_walk [of "[]" x rest body s] assms(2,3)
    by (simp add: cmd_loop_def get_first_mk [OF refl])
qed

text \<open>Receiving a whole buffer: validation followed by the walk.\<close>

lemma length_dec_tlvs: "dec_tlvs bs = Some xs \<Longrightarrow> length (enc_tlvs xs) = length bs"
  using cmds.enc_dec by auto

lemma dec_tlvs_nonempty: "dec_tlvs bs = Some xs \<Longrightarrow> bs \<noteq> [] \<Longrightarrow> xs \<noteq> []"
  using cmds.enc_dec by fastforce

section \<open>Properties\<close>

text \<open>A sender adds its commands one after the other.\<close>

fun add_all :: "tlv list \<Rightarrow> cmd_batch ptr \<Rightarrow> cmd_batch ptr option" where
  "add_all [] b = Some b"
| "add_all ((ty, val) # xs) b = do {
     b' \<leftarrow> atlas_cmd_batch_add b ty (of_nat (length val)) val;
     add_all xs b' }"

lemma add_all_mk [batch_simps]:
  "length (enc_tlvs (xs @ ys)) < 65536 \<Longrightarrow>
   add_all ys (Some (mk_batch xs)) = Some (Some (mk_batch (xs @ ys)))"
proof (induction ys arbitrary: xs)
  case (Cons y ys)
  obtain ty val where y: "y = (ty, val)" by (cases y)
  have "length (enc_tlvs (xs @ [(ty, val)])) < 65536" using Cons.prems y by simp
  moreover have "add_all ys (Some (mk_batch (xs @ [(ty, val)]))) = Some (Some (mk_batch (xs @ y # ys)))"
    using Cons.IH [of "xs @ [(ty, val)]"] Cons.prems y by simp
  ultimately show ?case using y by (simp add: atlas_cmd_batch_add_bytes)
qed simp

lemma wf_of_short: "length (enc_tlvs xs) < 65536 \<Longrightarrow> list_all wf_tlv xs"
  by (induction xs) (auto simp: wf_tlv_def)

lemma set_raw_mk:
  assumes "xs \<noteq> []" and "length (enc_tlvs xs) < 65536"
  shows "atlas_cmd_batch_set_raw (Some b) (Some (enc_tlvs xs)) (of_nat (length (enc_tlvs xs))) =
    Some (ATLAS_OK, Some (mk_batch xs))"
proof -
  have len: "unat (of_nat (length (enc_tlvs xs)) :: u16) = length (enc_tlvs xs)" using assms(2) by simp
  obtain x r where xs: "xs = x # r" using assms(1) by (cases xs) auto
  have "0 < length (enc_tlvs xs)" unfolding xs by simp
  then have "(of_nat (length (enc_tlvs xs)) :: u16) \<noteq> 0" using len by (metis less_not_refl unat_0)
  moreover have "dec_tlvs (take (unat (of_nat (length (enc_tlvs xs)) :: u16)) (enc_tlvs xs)) = Some xs"
    unfolding len using assms(2) by (simp add: cmds.dec_enc wf_of_short)
  ultimately show ?thesis by (subst set_raw_dec) (simp_all add: len)
qed

text \<open>
  C4. Sending and receiving: the buffer of a batch built with \<open>atlas_cmd_batch_add\<close> is accepted
  by \<open>atlas_cmd_batch_set_raw\<close>, and the receiver's walk runs its body on exactly the commands that
  were added, in order, with their types, lengths and values.
\<close>

theorem send_receive_roundtrip:
  assumes "xs \<noteq> []" and "length (enc_tlvs xs) < 65536"
  shows "\<exists>batch buf len batch'.
    add_all xs atlas_cmd_batch_new = Some batch \<and>
    atlas_cmd_batch_get_buf batch (None, 0) = (Some buf, len) \<and> unat len = length buf \<and>
    atlas_cmd_batch_set_raw atlas_cmd_batch_new (Some buf) len = Some (ATLAS_OK, batch') \<and>
    (\<forall>body (s :: 's). cmd_loop body batch' s = cmd_fold body xs s)"
  using assms
  by (intro exI [of _ "Some (mk_batch xs)"] exI [of _ "enc_tlvs xs"] exI [of _ "of_nat (length (enc_tlvs xs))"])
    (auto simp: batch_simps add_all_mk [of "[]", simplified] set_raw_mk wf_of_short)

theorem send_receive_roundtrip_witness:
  "\<exists>batch buf len batch'.
    add_all [(3, [65, 66]), (1, [])] atlas_cmd_batch_new = Some batch \<and>
    atlas_cmd_batch_get_buf batch (None, 0) = (Some buf, len) \<and> unat len = length buf \<and>
    atlas_cmd_batch_set_raw atlas_cmd_batch_new (Some buf) len = Some (ATLAS_OK, batch') \<and>
    (\<forall>body (s :: nat). cmd_loop body batch' s = cmd_fold body [(3, [65, 66]), (1, [])] s)"
  by (rule send_receive_roundtrip) simp_all

text \<open>
  C3. Receiving an arbitrary buffer: \<open>atlas_cmd_batch_set_raw\<close> never reads outside it, accepts it
  exactly when it is a sequence of complete commands, leaves the batch alone otherwise, and after
  acceptance every handler walk stays inside the buffer and visits exactly the decoded commands.
\<close>

theorem receive_exact:
  assumes "unat len \<le> length bs" and "len \<noteq> 0"
  shows "\<exists>st b'. atlas_cmd_batch_set_raw (Some b) (Some bs) len = Some (st, b') \<and>
    (case dec_tlvs (take (unat len) bs) of
       None \<Rightarrow> st = ATLAS_CORRUPTED_COMMAND \<and> b' = Some b
     | Some xs \<Rightarrow> st = ATLAS_OK \<and> (\<forall>body (s :: 's). cmd_loop body b' s = cmd_fold body xs s))"
proof (cases "dec_tlvs (take (unat len) bs)")
  case None
  then show ?thesis using set_raw_dec [OF assms] by simp
next
  case (Some xs)
  have "length (enc_tlvs xs) = unat len" using length_dec_tlvs [OF Some] assms(1) by simp
  moreover from this have "xs \<noteq> []" using assms(2) by (auto simp: unat_eq_0)
  ultimately show ?thesis using set_raw_dec [OF assms] Some
    by (simp add: cmd_loop_mk wf_of_short)
qed

theorem receive_exact_witness:
  "\<exists>st b'. atlas_cmd_batch_set_raw (Some \<lparr>b_length = 0, b_buf = None\<rparr>) (Some [0, 3, 0, 1, 7]) 5 = Some (st, b') \<and>
    (case dec_tlvs (take (unat (5 :: u16)) [0, 3, 0, 1, 7]) of
       None \<Rightarrow> st = ATLAS_CORRUPTED_COMMAND \<and> b' = Some \<lparr>b_length = 0, b_buf = None\<rparr>
     | Some xs \<Rightarrow> st = ATLAS_OK \<and> (\<forall>body (s :: nat). cmd_loop body b' s = cmd_fold body xs s))"
  by (rule receive_exact) simp_all

text \<open>
  C32. The \<open>uint16_t\<close> length of a batch: a command that would take the buffer to 64 KiB or beyond
  makes \<open>atlas_cmd_batch_add\<close> reallocate too small a block and write outside it.
\<close>

theorem add_past_64k_overflows:
  assumes "length (enc_tlvs xs) < 65536" and "65536 \<le> length (enc_tlvs xs) + 4 + unat len"
  shows "add_all xs atlas_cmd_batch_new = Some (Some (mk_batch xs)) \<and>
    atlas_cmd_batch_add (Some (mk_batch xs)) ty len val = None"
  using assms by (simp add: atlas_cmd_batch_add_overflow atlas_cmd_batch_new_mk add_all_mk)

theorem add_past_64k_overflows_witness:
  "add_all [(1, replicate 10 0)] atlas_cmd_batch_new = Some (Some (mk_batch [(1, replicate 10 0)])) \<and>
   atlas_cmd_batch_add (Some (mk_batch [(1, replicate 10 0)])) 2 65530 (replicate 65530 0) = None"
  by (rule add_past_64k_overflows) simp_all

lemma header_to_host_swap:
  "header_to_host (bytes_of_u16 a @ bytes_of_u16 l @ rest) 0 =
   Some (bytes_of_u16 (htons a) @ bytes_of_u16 (htons l) @ rest)"
proof -
  have r1: "mem_read (bytes_of_u16 a @ bytes_of_u16 l @ rest) 0 2 = Some (bytes_of_u16 a)"
    by (simp add: mem_read_def)
  have w1: "mem_write (bytes_of_u16 a @ bytes_of_u16 l @ rest) 0 (bytes_of_u16 (htons a)) =
      Some (bytes_of_u16 (htons a) @ bytes_of_u16 l @ rest)"
    by (simp add: mem_write_def)
  have r2: "mem_read (bytes_of_u16 (htons a) @ bytes_of_u16 l @ rest) (0 + 2) 2 = Some (bytes_of_u16 l)"
    by (simp add: mem_read_def)
  have w2: "mem_write (bytes_of_u16 (htons a) @ bytes_of_u16 l @ rest) (0 + 2) (bytes_of_u16 (htons l)) =
      Some (bytes_of_u16 (htons a) @ bytes_of_u16 (htons l) @ rest)"
    by (simp add: mem_write_def)
  show ?thesis
    unfolding header_to_host_def r1 bind.bind_lunit u16_of_bytes_of_u16 w1 r2 w2 by (rule refl)
qed

text \<open>
  \<open>atlas_cmd_batch_get\<close> converts the header it visits in place: a second walk from the start
  sees the first command with its type byte-swapped.
\<close>

theorem second_walk_swaps_header:
  "\<exists>b1 b2. atlas_cmd_batch_get (Some (mk_batch (x # rest))) None = Some (b1, Some 0) \<and>
     map_option c_type (cmd_at b1 0) = Some (fst x) \<and>
     atlas_cmd_batch_get b1 None = Some (b2, Some 0) \<and>
     map_option c_type (cmd_at b2 0) = Some (htons (fst x))"
proof -
  let ?l = "of_nat (length (snd x)) :: u16"
  let ?w = "walk_batch [] x rest"
  have hdr: "header_to_host (bytes_of_u16 (fst x) @ bytes_of_u16 ?l @ snd x @ enc_tlvs rest) 0 =
      Some (bytes_of_u16 (htons (fst x)) @ bytes_of_u16 (htons ?l) @ snd x @ enc_tlvs rest)"
    by (rule header_to_host_swap)
  then have g2: "atlas_cmd_batch_get (Some ?w) None =
      Some (Some (?w\<lparr>b_buf := Some (bytes_of_u16 (htons (fst x)) @ bytes_of_u16 (htons ?l) @ snd x @ enc_tlvs rest)\<rparr>), Some 0)"
    by (simp add: atlas_cmd_batch_get_def walk_batch_def)
  have "cmd_at (Some ?w) 0 = Some (view x rest)" using cmd_at_walk [of "[]" x rest] by simp
  moreover have "map_option c_type (cmd_at (Some (?w\<lparr>b_buf := Some (bytes_of_u16 (htons (fst x)) @
      bytes_of_u16 (htons ?l) @ snd x @ enc_tlvs rest)\<rparr>)) 0) = Some (htons (fst x))"
    by (simp add: cmd_at_def mem_read_def)
  ultimately show ?thesis using get_first_mk [OF refl, of x rest] g2 by auto
qed

end
