(* ===== verification/Messages.thy ===== *)
theory Messages
  imports Coap_Server Command_Codec
begin

text \<open>
  What the senders of the client share: each of them builds a command batch, asks the
  configuration for the URI and sends the batch with \<open>atlas_coap_client_request\<close>. \<open>sends\<close> is the
  abstract form of that sequence, on the list of commands; the components show that their code
  refines it. The lemmas here bound what any sender can do to the state.
\<close>

section \<open>Requests never fault on a payload of the declared length\<close>

lemma request_on_context_total:
  assumes "case p of None \<Rightarrow> True | Some b \<Rightarrow> len \<le> length b"
  shows "\<exists>st t. request_on_context h cu dst u m p len tmo c s = Some (st, t)"
  using assms
  by (auto simp: request_on_context_def Let_def mem_read_def split: option.splits prod.splits)

lemma client_request_total:
  assumes "case p of None \<Rightarrow> True | Some b \<Rightarrow> len \<le> length b"
  shows "\<exists>st t. atlas_coap_client_request u m p len tmo cb s = Some (st, t)"
  by (auto simp: atlas_coap_client_request_def Let_def request_on_context_total [OF assms]
      split: option.splits prod.splits)

section \<open>Sending a list of commands\<close>

definition sends ::
    "string \<Rightarrow> atlas_coap_method \<Rightarrow> tlv list \<Rightarrow> u16 \<Rightarrow> client_cb \<Rightarrow>
     'a coap_server_scheme \<Rightarrow> 'a coap_server_scheme option" where
  "sends path m xs tmo cb s =
     map_option snd (atlas_coap_client_request (Some (cfg_uri s path)) m (Some (enc_tlvs xs))
       (length (enc_tlvs xs)) tmo (Some cb) s)"

lemma sends_total: "\<exists>t. sends path m xs tmo cb s = Some t"
  using client_request_total [where p = "Some (enc_tlvs xs)" and len = "length (enc_tlvs xs)" and
      u = "Some (cfg_uri s path)" and m = m and tmo = tmo and cb = "Some cb" and s = s]
  by (auto simp: sends_def)

text \<open>Either nothing happened (but a token may be used up), or the whole request was registered.\<close>

definition sent_or_not ::
    "string \<Rightarrow> atlas_coap_method \<Rightarrow> byte list \<Rightarrow> u16 \<Rightarrow> client_cb \<Rightarrow>
     'a coap_client_scheme \<Rightarrow> 'a coap_client_scheme \<Rightarrow> bool" where
  "sent_or_not u m payload tmo cb s t \<longleftrightarrow>
     (\<exists>k tk. t = s\<lparr>token_ctr := tk, clock := k\<rparr>) \<or>
     (\<exists>h ses f a. 0 \<le> f \<and> 0 \<le> a \<and> a \<noteq> f \<and> f \<notin> set (fds s) \<and> a \<notin> set (fds s) \<and>
        h \<notin> fst ` set (coap_ctxs s) \<and> t = request_sent u m payload tmo cb h ses f a s)"

lemma client_request_sent_or_not:
  assumes "atlas_coap_client_request (Some u) m (Some b) len tmo (Some cb) s = Some (st, t)"
    and "-1 \<notin> set (fds s)"
  shows "sent_or_not u m (take len b) tmo cb s t"
proof (cases "st = ATLAS_OK")
  case True
  with assms(1) have "atlas_coap_client_request (Some u) m (Some b) len tmo (Some cb) s = Some (ATLAS_OK, t)"
    by simp
  from coap_request_ok [OF this] show ?thesis unfolding sent_or_not_def by simp blast
next
  case False
  from coap_request_failed [OF assms(1) this assms(2)] show ?thesis unfolding sent_or_not_def by blast
qed

lemma sends_sent_or_not:
  assumes "sends path m xs tmo cb s = Some t" and "-1 \<notin> set (fds s)"
  shows "sent_or_not (cfg_uri s path) m (enc_tlvs xs) tmo cb s t"
  using assms client_request_sent_or_not [of "cfg_uri s path" m "enc_tlvs xs" "length (enc_tlvs xs)" tmo cb s _ t]
  by (auto simp: sends_def)

text \<open>The steps a sender's code consists of, and their composition.\<close>

lemma send_steps:
  assumes "cfg_ok s" and "length path \<le> 112" and "xs \<noteq> []" and "length (enc_tlvs xs) < 65536"
  shows "(do { uri \<leftarrow> atlas_cfg_coap_get_uri (Some path) ATLAS_URI_MAX_LEN (Some '''') s;
              (st, s1) \<leftarrow> atlas_coap_client_request uri m (fst (atlas_cmd_batch_get_buf (Some (mk_batch xs)) (None, 0)))
                 (unat (snd (atlas_cmd_batch_get_buf (Some (mk_batch xs)) (None, 0)))) tmo (Some cb) s;
              Some s1 }) = sends path m xs tmo cb s"
  using get_uri_ok [OF assms(1,2), of "''''"] assms(3,4)
  by (auto simp: atlas_cmd_batch_get_buf_mk sends_def split: bind_splits option.splits)

text \<open>Fields of the layers above are out of reach of a sender.\<close>

lemma sent_or_not_frame [frame_simps]:
  assumes "sent_or_not u m p tmo cb s t"
  shows "gw_hostname t = gw_hostname s" "gw_port t = gw_port s" "local_iface t = local_iface s"
    "local_port t = local_port s" "identity_str t = identity_str s" "psk_str t = psk_str s"
    "server_listeners t = server_listeners s" "srv_ctx t = srv_ctx s" "coap_server.more t = coap_server.more s"
    "fst ` set (coap_ctxs s) \<subseteq> fst ` set (coap_ctxs t)" "set (fds s) \<subseteq> set (fds t)"
    "-1 \<in> set (fds t) \<longleftrightarrow> -1 \<in> set (fds s)"
  using assms by (auto simp: sent_or_not_def request_sent_def)

lemma cfg_ok_frame:
  "gw_hostname t = gw_hostname s \<Longrightarrow> gw_port t = gw_port s \<Longrightarrow> local_iface t = local_iface s \<Longrightarrow>
   cfg_ok t = cfg_ok s"
  by (simp add: cfg_ok_def)

end
