(* ===== verification/Connector.thy ===== *)
theory Connector
  imports Messages
begin

text \<open>
  The data plane connector (src/data\_plane\_connector/atlas\_data\_plane\_connector.c): the
  Unix socket of the data plane agent (at most one connection), the commands it sends (policy,
  packet statistics, reputation requests, feedback, identity requests), the requests they cause
  at the gateway and the gateway's answers passed back to the agent.

  The lemmas show that reading a message is the fold of its decoded commands, that the policy
  handed over is the policy sent to the gateway, that each handler refines \<open>sends\<close>, that at most
  one connection is open, and where a command shorter than two bytes is read past its end.
\<close>

section \<open>State\<close>

record connector = coap_server +
  connected_socket :: int
  policy_qos :: u16
  policy_packets_per_min :: u16
  policy_packets_maxlen :: u16
  active_policy :: u8
  packets_per_min :: u16
  packets_avg :: u16
  e_read :: "nat \<Rightarrow> byte list ptr"
  e_bind_ok :: "nat \<Rightarrow> bool"
  e_listen_ok :: "nat \<Rightarrow> bool"

definition ATLAS_CLIENT_DATA_PLANE_BUFFER_LEN :: nat where "ATLAS_CLIENT_DATA_PLANE_BUFFER_LEN = 2048"
definition ATLAS_CLIENT_POLICY_TIMEOUT_MS :: u16 where "ATLAS_CLIENT_POLICY_TIMEOUT_MS = 5000"
definition ATLAS_CLIENT_FEATURE_TIMEOUT_MS :: u16 where "ATLAS_CLIENT_FEATURE_TIMEOUT_MS = 5000"
definition ATLAS_CLIENT_POLICY_COAP_PATH :: string where "ATLAS_CLIENT_POLICY_COAP_PATH = ''gateway/policy''"
definition ATLAS_CLIENT_FEATURE_COAP_PATH :: string where
  "ATLAS_CLIENT_FEATURE_COAP_PATH = ''gateway/reputation/feature''"
definition ATLAS_CLIENT_FEEDBACK_COAP_PATH :: string where
  "ATLAS_CLIENT_FEEDBACK_COAP_PATH = ''gateway/reputation/feedback''"
definition ATLAS_CLIENT_POLICY_ACTIVE :: u8 where "ATLAS_CLIENT_POLICY_ACTIVE = 1"

section \<open>Setters: two bytes are copied from the command's value, whatever its length\<close>

definition set_policy_qos :: "byte list \<Rightarrow> 'a connector_scheme \<Rightarrow> 'a connector_scheme option" where
  "set_policy_qos v s = do { b \<leftarrow> mem_read v 0 2; Some (s\<lparr>policy_qos := u16_of_bytes b\<rparr>) }"

definition set_policy_packets_per_min :: "byte list \<Rightarrow> 'a connector_scheme \<Rightarrow> 'a connector_scheme option" where
  "set_policy_packets_per_min v s = do { b \<leftarrow> mem_read v 0 2; Some (s\<lparr>policy_packets_per_min := u16_of_bytes b\<rparr>) }"

definition set_policy_packets_maxlen :: "byte list \<Rightarrow> 'a connector_scheme \<Rightarrow> 'a connector_scheme option" where
  "set_policy_packets_maxlen v s = do { b \<leftarrow> mem_read v 0 2; Some (s\<lparr>policy_packets_maxlen := u16_of_bytes b\<rparr>) }"

definition set_packets_per_min :: "byte list \<Rightarrow> 'a connector_scheme \<Rightarrow> 'a connector_scheme option" where
  "set_packets_per_min v s = do { b \<leftarrow> mem_read v 0 2; Some (s\<lparr>packets_per_min := u16_of_bytes b\<rparr>) }"

definition set_packets_avg :: "byte list \<Rightarrow> 'a connector_scheme \<Rightarrow> 'a connector_scheme option" where
  "set_packets_avg v s = do { b \<leftarrow> mem_read v 0 2; Some (s\<lparr>packets_avg := u16_of_bytes b\<rparr>) }"

definition get_packets_per_min :: "'a connector_scheme \<Rightarrow> u16" where
  "get_packets_per_min s = packets_per_min s"

definition get_packets_avg :: "'a connector_scheme \<Rightarrow> u16" where
  "get_packets_avg s = packets_avg s"

section \<open>Policy\<close>

definition send_policy_command :: "'a connector_scheme \<Rightarrow> 'a connector_scheme option" where
  "send_policy_command s =
     (if active_policy s \<noteq> ATLAS_CLIENT_POLICY_ACTIVE then Some s
      else do {
        b \<leftarrow> atlas_cmd_batch_add atlas_cmd_batch_new (cmd_code ATLAS_CMD_DATA_PLANE_POLICY_QOS) 2
               (bytes_of_u16 (htons (policy_qos s)));
        b \<leftarrow> atlas_cmd_batch_add b (cmd_code ATLAS_CMD_DATA_PLANE_POLICY_PACKETS_PER_MINUTE) 2
               (bytes_of_u16 (htons (policy_packets_per_min s)));
        b \<leftarrow> atlas_cmd_batch_add b (cmd_code ATLAS_CMD_DATA_PLANE_POLICY_PACKETS_MAXLEN) 2
               (bytes_of_u16 (htons (policy_packets_maxlen s)));
        let (cmd_buf, cmd_len) = atlas_cmd_batch_get_buf b (None, 0);
        uri \<leftarrow> atlas_cfg_coap_get_uri (Some ATLAS_CLIENT_POLICY_COAP_PATH) ATLAS_URI_MAX_LEN (Some '''') s;
        (st, s1) \<leftarrow> atlas_coap_client_request uri ATLAS_COAP_METHOD_PUT cmd_buf (unat cmd_len)
               ATLAS_CLIENT_POLICY_TIMEOUT_MS (Some Policy_callback) s;
        Some s1 })"

definition policy_alarm_callback :: "int \<Rightarrow> 'a connector_scheme \<Rightarrow> 'a connector_scheme option" where
  "policy_alarm_callback alarm_id s = send_policy_command s"

definition policy_callback ::
    "string \<Rightarrow> atlas_coap_response \<Rightarrow> byte list ptr \<Rightarrow> 'a connector_scheme \<Rightarrow> 'a connector_scheme option" where
  "policy_callback uri resp_status resp_payload s =
     (if resp_status \<noteq> ATLAS_COAP_RESP_OK
      then Some (snd (atlas_alarm_set (ucast ATLAS_CLIENT_POLICY_TIMEOUT_MS) Policy_alarm_callback True s))
      else Some s)"

section \<open>Reputation and feedback\<close>

definition sock_write :: "int \<Rightarrow> byte list ptr \<Rightarrow> u16 \<Rightarrow> 'a connector_scheme \<Rightarrow> 'a connector_scheme option" where
  "sock_write fd buf len s = do {
     b \<leftarrow> buf;
     bytes \<leftarrow> mem_read b 0 (unat len);
     Some (emit (Sock_write fd bytes) s) }"

definition reputation_body :: "cmd \<Rightarrow> 'a connector_scheme \<Rightarrow> (bool \<times> 'a connector_scheme) option" where
  "reputation_body c s =
     (if c_type c = cmd_code ATLAS_CMD_DATA_PLANE_FEATURE_REPUTATION then do {
        b \<leftarrow> atlas_cmd_batch_add atlas_cmd_batch_new (cmd_code ATLAS_CMD_DATA_PLANE_FEATURE_REPUTATION)
               (c_length c) (c_rest c);
        let (cmd_buf, cmd_len) = atlas_cmd_batch_get_buf b (None, 0);
        s1 \<leftarrow> sock_write (connected_socket s) cmd_buf cmd_len s;
        Some (True, s1) }
      else Some (True, s))"

definition atlas_reputation_resp_parse ::
    "byte list ptr \<Rightarrow> u16 \<Rightarrow> 'a connector_scheme \<Rightarrow> (atlas_status \<times> 'a connector_scheme) option" where
  "atlas_reputation_resp_parse buf buf_len s =
     (if buf = None \<or> buf_len = 0 then Some (ATLAS_INVALID_INPUT, s)
      else do {
        (status, cmd_batch) \<leftarrow> atlas_cmd_batch_set_raw atlas_cmd_batch_new buf buf_len;
        if status \<noteq> ATLAS_OK then Some (ATLAS_CORRUPTED_COMMAND, s)
        else do {
          s1 \<leftarrow> cmd_loop reputation_body cmd_batch s;
          Some (status, s1) } })"

definition feature_reputation_callback ::
    "string \<Rightarrow> atlas_coap_response \<Rightarrow> byte list ptr \<Rightarrow> 'a connector_scheme \<Rightarrow> 'a connector_scheme option" where
  "feature_reputation_callback uri resp_status resp_payload s =
     (if resp_status \<noteq> ATLAS_COAP_RESP_OK then do {
        b \<leftarrow> atlas_cmd_batch_add atlas_cmd_batch_new (cmd_code ATLAS_CMD_DATA_PLANE_FEATURE_ERROR) 0 [];
        let (cmd_buf, cmd_len) = atlas_cmd_batch_get_buf b (None, 0);
        sock_write (connected_socket s) cmd_buf cmd_len s }
      else do {
        (_, s1) \<leftarrow> atlas_reputation_resp_parse resp_payload
                     (case resp_payload of None \<Rightarrow> 0 | Some p \<Rightarrow> of_nat (length p)) s;
        Some s1 })"

definition atlas_feature_reputation_handle ::
    "byte list ptr \<Rightarrow> u16 \<Rightarrow> 'a connector_scheme \<Rightarrow> 'a connector_scheme option" where
  "atlas_feature_reputation_handle feature len s =
     (case feature of
        None \<Rightarrow> Some s
      | Some f \<Rightarrow>
        if len = 0 then Some s
        else do {
          let idy = atlas_identity_get s;
          b \<leftarrow> atlas_cmd_batch_add atlas_cmd_batch_new (cmd_code ATLAS_CMD_IDENTITY)
                 (of_nat (length idy)) (str_bytes idy);
          b \<leftarrow> atlas_cmd_batch_add b (cmd_code ATLAS_CMD_DATA_PLANE_FEATURE_REPUTATION) len f;
          let (cmd_buf, cmd_len) = atlas_cmd_batch_get_buf b (None, 0);
          uri \<leftarrow> atlas_cfg_coap_get_uri (Some ATLAS_CLIENT_FEATURE_COAP_PATH) ATLAS_URI_MAX_LEN (Some '''') s;
          (st, s1) \<leftarrow> atlas_coap_client_request uri ATLAS_COAP_METHOD_PUT cmd_buf (unat cmd_len)
                 ATLAS_CLIENT_FEATURE_TIMEOUT_MS (Some Feature_reputation_callback) s;
          Some s1 })"

definition feedback_callback ::
    "string \<Rightarrow> atlas_coap_response \<Rightarrow> byte list ptr \<Rightarrow> 'a connector_scheme \<Rightarrow> 'a connector_scheme option" where
  "feedback_callback uri resp_status resp_payload s = Some s"

definition atlas_feature_feedback_handle ::
    "byte list ptr \<Rightarrow> u16 \<Rightarrow> 'a connector_scheme \<Rightarrow> 'a connector_scheme option" where
  "atlas_feature_feedback_handle feedback len s =
     (case feedback of
        None \<Rightarrow> Some s
      | Some f \<Rightarrow>
        if len = 0 then Some s
        else do {
          let idy = atlas_identity_get s;
          b \<leftarrow> atlas_cmd_batch_add atlas_cmd_batch_new (cmd_code ATLAS_CMD_IDENTITY)
                 (of_nat (length idy)) (str_bytes idy);
          b \<leftarrow> atlas_cmd_batch_add b (cmd_code ATLAS_CMD_DATA_PLANE_FEEDBACK) len f;
          let (cmd_buf, cmd_len) = atlas_cmd_batch_get_buf b (None, 0);
          uri \<leftarrow> atlas_cfg_coap_get_uri (Some ATLAS_CLIENT_FEEDBACK_COAP_PATH) ATLAS_URI_MAX_LEN (Some '''') s;
          (st, s1) \<leftarrow> atlas_coap_client_request uri ATLAS_COAP_METHOD_PUT cmd_buf (unat cmd_len)
                 ATLAS_CLIENT_FEATURE_TIMEOUT_MS (Some Feedback_callback) s;
          Some s1 })"

section \<open>Messages of the agent\<close>

definition policy_body :: "cmd \<Rightarrow> 'a connector_scheme \<Rightarrow> (bool \<times> 'a connector_scheme) option" where
  "policy_body c s =
     (if c_type c = cmd_code ATLAS_CMD_DATA_PLANE_POLICY_QOS
      then map_option (Pair True) (set_policy_qos (c_rest c) s)
      else if c_type c = cmd_code ATLAS_CMD_DATA_PLANE_POLICY_PACKETS_PER_MINUTE
      then map_option (Pair True) (set_policy_packets_per_min (c_rest c) s)
      else if c_type c = cmd_code ATLAS_CMD_DATA_PLANE_POLICY_PACKETS_MAXLEN
      then map_option (Pair True) (set_policy_packets_maxlen (c_rest c) s)
      else Some (True, s))"

definition atlas_data_plane_parse_policy ::
    "byte list ptr \<Rightarrow> u16 \<Rightarrow> 'a connector_scheme \<Rightarrow> 'a connector_scheme option" where
  "atlas_data_plane_parse_policy buf buf_len s =
     (if buf = None \<or> buf_len = 0 then Some s
      else do {
        (status, cmd_batch) \<leftarrow> atlas_cmd_batch_set_raw atlas_cmd_batch_new buf buf_len;
        if status \<noteq> ATLAS_OK then Some s
        else do {
          s1 \<leftarrow> cmd_loop policy_body cmd_batch s;
          send_policy_command (s1\<lparr>active_policy := ATLAS_CLIENT_POLICY_ACTIVE\<rparr>) } })"

definition atlas_data_plane_identity :: "'a connector_scheme \<Rightarrow> 'a connector_scheme option" where
  "atlas_data_plane_identity s = do {
     let idy = atlas_identity_get s;
     b \<leftarrow> atlas_cmd_batch_add atlas_cmd_batch_new (cmd_code ATLAS_CMD_DATA_PLANE_IDENTITY)
            (of_nat (length idy)) (str_bytes idy);
     let (cmd_buf, cmd_len) = atlas_cmd_batch_get_buf b (None, 0);
     sock_write (connected_socket s) cmd_buf cmd_len s }"

definition read_body :: "cmd \<Rightarrow> 'a connector_scheme \<Rightarrow> (bool \<times> 'a connector_scheme) option" where
  "read_body c s =
     map_option (Pair True)
      (if c_type c = cmd_code ATLAS_CMD_DATA_PLANE_POLICY
       then atlas_data_plane_parse_policy (Some (c_rest c)) (c_length c) s
       else if c_type c = cmd_code ATLAS_CMD_DATA_PLANE_PACKETS_PER_MINUTE then set_packets_per_min (c_rest c) s
       else if c_type c = cmd_code ATLAS_CMD_DATA_PLANE_PACKETS_AVG then set_packets_avg (c_rest c) s
       else if c_type c = cmd_code ATLAS_CMD_DATA_PLANE_FEATURE_REPUTATION
       then atlas_feature_reputation_handle (Some (c_rest c)) (c_length c) s
       else if c_type c = cmd_code ATLAS_CMD_DATA_PLANE_FEEDBACK
       then atlas_feature_feedback_handle (Some (c_rest c)) (c_length c) s
       else if c_type c = cmd_code ATLAS_CMD_DATA_PLANE_GET_IDENTITY then atlas_data_plane_identity s
       else Some s)"

text \<open>
  \<open>e_read\<close> is the answer of \<open>read\<close>: \<open>None\<close> an error, else the bytes of one message, of which
  at most the size of the buffer are delivered. After an error the entry is deleted, but the
  descriptor stays open and \<open>connected_socket\<close> keeps its value.
\<close>

definition atlas_data_plane_read_cb :: "int \<Rightarrow> 'a connector_scheme \<Rightarrow> 'a connector_scheme option" where
  "atlas_data_plane_read_cb fd s =
     (let buf = (case e_read s (clock s) of
                   None \<Rightarrow> [] | Some b \<Rightarrow> take ATLAS_CLIENT_DATA_PLANE_BUFFER_LEN b);
          s1 = tick s
      in if buf = [] then Some (atlas_sched_del_entry fd s1)
         else do {
           (status, cmd_batch) \<leftarrow> atlas_cmd_batch_set_raw atlas_cmd_batch_new (Some buf) (of_nat (length buf));
           if status \<noteq> ATLAS_OK then Some s1
           else cmd_loop read_body cmd_batch s1 })"

definition atlas_data_plane_accept_cb :: "int \<Rightarrow> 'a connector_scheme \<Rightarrow> 'a connector_scheme option" where
  "atlas_data_plane_accept_cb fd s =
     (let s1 = (if connected_socket s \<noteq> -1
                then fd_close (connected_socket s) (atlas_sched_del_entry (connected_socket s) s) else s);
          (f, s2) = fd_new s1;
          s3 = s2\<lparr>connected_socket := f\<rparr>
      in if f = -1 then Some s3
         else Some (atlas_sched_add_entry f (Some Atlas_data_plane_read_cb) s3))"

definition atlas_data_plane_connector_start :: "'a connector_scheme \<Rightarrow> atlas_status \<times> 'a connector_scheme" where
  "atlas_data_plane_connector_start s =
     (let (fd, s1) = fd_new s in
      if fd = -1 then (ATLAS_SOCKET_ERROR, s1)
      else if \<not> e_bind_ok s1 (clock s1) then (ATLAS_SOCKET_ERROR, tick s1)
      else
        let s2 = tick s1 in
        if \<not> e_listen_ok s2 (clock s2) then (ATLAS_SOCKET_ERROR, tick s2)
        else (ATLAS_OK, atlas_sched_add_entry fd (Some Atlas_data_plane_accept_cb) (tick s2)))"

section \<open>Lemmas: building and sending\<close>

lemma cmd_code_less: "unat (cmd_code c) < 65536" by simp

lemma batch_add_new:
  "length val < 65532 \<Longrightarrow> n = of_nat (length val) \<Longrightarrow>
   atlas_cmd_batch_add atlas_cmd_batch_new ty n val = Some (Some (mk_batch [(ty, val)]))"
  using atlas_cmd_batch_add_bytes [of "[]" ty val] by (simp add: atlas_cmd_batch_new_mk)

lemma batch_add_next:
  "length (enc_tlvs (xs @ [(ty, take (unat len) val)])) < 65536 \<Longrightarrow> unat len \<le> length val \<Longrightarrow>
   atlas_cmd_batch_add (Some (mk_batch xs)) ty len val = Some (Some (mk_batch (xs @ [(ty, take (unat len) val)])))"
  by (rule atlas_cmd_batch_add_mk) simp_all

lemmas batch_build = batch_add_new batch_add_next

definition policy_tlvs :: "u16 \<Rightarrow> u16 \<Rightarrow> u16 \<Rightarrow> tlv list" where
  "policy_tlvs q p m = [(1100, net_bytes q), (1101, net_bytes p), (1102, net_bytes m)]"

lemma send_policy_refines:
  assumes "cfg_ok s"
  shows "send_policy_command s =
    (if active_policy s = 1
     then sends ATLAS_CLIENT_POLICY_COAP_PATH ATLAS_COAP_METHOD_PUT
            (policy_tlvs (policy_qos s) (policy_packets_per_min s) (policy_packets_maxlen s)) 5000 Policy_callback s
     else Some s)"
proof -
  let ?xs = "policy_tlvs (policy_qos s) (policy_packets_per_min s) (policy_packets_maxlen s)"
  have "length ATLAS_CLIENT_POLICY_COAP_PATH \<le> 112" by (simp add: ATLAS_CLIENT_POLICY_COAP_PATH_def)
  note steps = send_steps [OF assms this, where xs = ?xs and tmo = 5000 and cb = Policy_callback and m = ATLAS_COAP_METHOD_PUT]
  show ?thesis
  proof (cases "active_policy s = 1")
    case True
    then have "send_policy_command s =
      do { uri \<leftarrow> atlas_cfg_coap_get_uri (Some ATLAS_CLIENT_POLICY_COAP_PATH) ATLAS_URI_MAX_LEN (Some '''') s;
           (st, s1) \<leftarrow> atlas_coap_client_request uri ATLAS_COAP_METHOD_PUT (fst (atlas_cmd_batch_get_buf (Some (mk_batch ?xs)) (None, 0)))
               (unat (snd (atlas_cmd_batch_get_buf (Some (mk_batch ?xs)) (None, 0)))) 5000 (Some Policy_callback) s;
           Some s1 }"
      by (simp add: send_policy_command_def ATLAS_CLIENT_POLICY_ACTIVE_def batch_add_new batch_add_next
          case_prod_beta [of _ "atlas_cmd_batch_get_buf _ _"]
          ATLAS_CLIENT_POLICY_TIMEOUT_MS_def policy_tlvs_def net_bytes_def [symmetric])
    then show ?thesis using steps True by (simp add: policy_tlvs_def)
  qed (simp add: send_policy_command_def ATLAS_CLIENT_POLICY_ACTIVE_def)
qed

text \<open>The identity is short enough for every batch it heads.\<close>

lemma id_len: "ident_ok s \<Longrightarrow> length (atlas_identity_get s) \<le> 64"
  by (simp add: ident_ok_def ATLAS_IDENTITY_LEN_def atlas_identity_get_def)

definition id_tlvs :: "'a identity_scheme \<Rightarrow> u16 \<Rightarrow> byte list \<Rightarrow> tlv list" where
  "id_tlvs s ty val = [(cmd_code ATLAS_CMD_IDENTITY, str_bytes (atlas_identity_get s)), (ty, val)]"

lemma length_id_tlvs: "length (enc_tlvs (id_tlvs s ty val)) = 8 + length (atlas_identity_get s) + length val"
  by (simp add: id_tlvs_def)

lemma id_batch:
  assumes "ident_ok s" and "unat len \<le> length val" and "unat len \<le> 65000"
  shows "(do { b \<leftarrow> atlas_cmd_batch_add atlas_cmd_batch_new (cmd_code ATLAS_CMD_IDENTITY)
                  (of_nat (length (atlas_identity_get s))) (str_bytes (atlas_identity_get s));
              b \<leftarrow> atlas_cmd_batch_add b ty len val;
              f b }) = f (Some (mk_batch (id_tlvs s ty (take (unat len) val))))"
  using id_len [OF assms(1)] assms(2,3)
  by (simp add: batch_add_new batch_add_next id_tlvs_def)

lemma id_send_steps:
  assumes "cfg_ok s" and "ident_ok s" and "length path \<le> 112" and "unat len \<le> length val" and "unat len \<le> 65000"
  shows "(do { b \<leftarrow> atlas_cmd_batch_add atlas_cmd_batch_new (cmd_code ATLAS_CMD_IDENTITY)
                  (of_nat (length (atlas_identity_get s))) (str_bytes (atlas_identity_get s));
               b \<leftarrow> atlas_cmd_batch_add b ty len val;
               let (cmd_buf, cmd_len) = atlas_cmd_batch_get_buf b (None, 0);
               uri \<leftarrow> atlas_cfg_coap_get_uri (Some path) ATLAS_URI_MAX_LEN (Some '''') s;
               (st, s1) \<leftarrow> atlas_coap_client_request uri m cmd_buf (unat cmd_len) tmo (Some cb) s;
               Some s1 }) = sends path m (id_tlvs s ty (take (unat len) val)) tmo cb s"
proof -
  let ?xs = "id_tlvs s ty (take (unat len) val)"
  have len: "length (enc_tlvs ?xs) < 65536"
    using id_len [OF assms(2)] assms(4,5) by (simp add: length_id_tlvs)
  have ne: "?xs \<noteq> []" by (simp add: id_tlvs_def)
  show ?thesis
    unfolding id_batch [OF assms(2,4,5)] Let_def case_prod_beta
    by (rule send_steps [OF assms(1,3) ne len, of m tmo cb, unfolded case_prod_beta])
qed

lemma feature_handle_refines:
  assumes "cfg_ok s" and "ident_ok s" and "len \<noteq> 0" and "unat len \<le> length f" and "unat len \<le> 65000"
  shows "atlas_feature_reputation_handle (Some f) len s =
    sends ATLAS_CLIENT_FEATURE_COAP_PATH ATLAS_COAP_METHOD_PUT
      (id_tlvs s (cmd_code ATLAS_CMD_DATA_PLANE_FEATURE_REPUTATION) (take (unat len) f)) 5000 Feature_reputation_callback s"
  using id_send_steps [OF assms(1,2) _ assms(4,5), where path = ATLAS_CLIENT_FEATURE_COAP_PATH and tmo = 5000
      and cb = Feature_reputation_callback and m = ATLAS_COAP_METHOD_PUT
      and ty = "cmd_code ATLAS_CMD_DATA_PLANE_FEATURE_REPUTATION"] assms(3)
  by (simp add: atlas_feature_reputation_handle_def ATLAS_CLIENT_FEATURE_TIMEOUT_MS_def ATLAS_CLIENT_FEATURE_COAP_PATH_def
      Let_def)

lemma feedback_handle_refines:
  assumes "cfg_ok s" and "ident_ok s" and "len \<noteq> 0" and "unat len \<le> length f" and "unat len \<le> 65000"
  shows "atlas_feature_feedback_handle (Some f) len s =
    sends ATLAS_CLIENT_FEEDBACK_COAP_PATH ATLAS_COAP_METHOD_PUT
      (id_tlvs s (cmd_code ATLAS_CMD_DATA_PLANE_FEEDBACK) (take (unat len) f)) 5000 Feedback_callback s"
  using id_send_steps [OF assms(1,2) _ assms(4,5), where path = ATLAS_CLIENT_FEEDBACK_COAP_PATH and tmo = 5000
      and cb = Feedback_callback and m = ATLAS_COAP_METHOD_PUT
      and ty = "cmd_code ATLAS_CMD_DATA_PLANE_FEEDBACK"] assms(3)
  by (simp add: atlas_feature_feedback_handle_def ATLAS_CLIENT_FEATURE_TIMEOUT_MS_def ATLAS_CLIENT_FEEDBACK_COAP_PATH_def
      Let_def)

lemma sock_write_mk:
  assumes "xs \<noteq> []" and "length (enc_tlvs xs) < 65536"
  shows "(case atlas_cmd_batch_get_buf (Some (mk_batch xs)) (None, 0) of
      (buf, len) \<Rightarrow> sock_write fd buf len s) = Some (emit (Sock_write fd (enc_tlvs xs)) s)"
  using assms by (simp add: atlas_cmd_batch_get_buf_mk sock_write_def mem_read_def)

lemma data_plane_identity_refines:
  assumes "ident_ok s"
  shows "atlas_data_plane_identity s = Some (emit (Sock_write (connected_socket s)
    (enc_tlvs [(cmd_code ATLAS_CMD_DATA_PLANE_IDENTITY, str_bytes (atlas_identity_get s))])) s)"
  using id_len [OF assms] by (simp add: atlas_data_plane_identity_def batch_add_new sock_write_mk)

section \<open>Lemmas: a message of the agent is the fold of its commands\<close>

lemma set_raw_buf:
  assumes "bs \<noteq> []" and "length bs < 65536"
  shows "atlas_cmd_batch_set_raw atlas_cmd_batch_new (Some bs) (of_nat (length bs)) =
    Some (case dec_tlvs bs of
            None \<Rightarrow> (ATLAS_CORRUPTED_COMMAND, Some (mk_batch []))
          | Some xs \<Rightarrow> (ATLAS_OK, Some (mk_batch xs)))"
proof -
  have len: "unat (of_nat (length bs) :: u16) = length bs" using assms(2) by simp
  then have "(of_nat (length bs) :: u16) \<noteq> 0" using assms(1) by (metis length_0_conv unat_0)
  then show ?thesis
    using set_raw_dec [of "of_nat (length bs)" bs "mk_batch []"] len by (simp add: atlas_cmd_batch_new_mk)
qed

lemma loop_dec:
  assumes "dec_tlvs bs = Some xs" and "bs \<noteq> []" and "length bs < 65536"
  shows "cmd_loop body (Some (mk_batch xs)) s = cmd_fold body xs s"
  using assms length_dec_tlvs [OF assms(1)] dec_tlvs_nonempty [OF assms(1,2)]
  by (intro cmd_loop_mk) (simp_all add: wf_of_short)

text \<open>A value of a command in a larger buffer, as the handlers pass it on: pointer and length.\<close>

lemma set_raw_prefix:
  assumes "v \<noteq> []" and "length v < 65536"
  shows "atlas_cmd_batch_set_raw atlas_cmd_batch_new (Some (v @ rest)) (of_nat (length v)) =
    atlas_cmd_batch_set_raw atlas_cmd_batch_new (Some v) (of_nat (length v))"
proof -
  have len: "unat (of_nat (length v) :: u16) = length v" using assms(2) by simp
  then have "(of_nat (length v) :: u16) \<noteq> 0" using assms(1) by (metis length_0_conv unat_0)
  then show ?thesis
    using set_raw_dec [of "of_nat (length v)" "v @ rest" "mk_batch []"]
      set_raw_dec [of "of_nat (length v)" v "mk_batch []"] len
    by (simp add: atlas_cmd_batch_new_mk)
qed

lemma read_cb_fold:
  assumes "e_read s (clock s) = Some bs" and "bs \<noteq> []" and "length bs \<le> 2048"
  shows "atlas_data_plane_read_cb fd s =
    (case dec_tlvs bs of None \<Rightarrow> Some (tick s) | Some xs \<Rightarrow> cmd_fold read_body xs (tick s))"
  using assms set_raw_buf [of bs]
  by (auto simp: atlas_data_plane_read_cb_def ATLAS_CLIENT_DATA_PLANE_BUFFER_LEN_def loop_dec split: option.splits)

lemma parse_policy_fold:
  assumes "v \<noteq> []" and "length v < 65536"
  shows "atlas_data_plane_parse_policy (Some (v @ rest)) (of_nat (length v)) s =
    (case dec_tlvs v of None \<Rightarrow> Some s
     | Some xs \<Rightarrow> do { s1 \<leftarrow> cmd_fold policy_body xs s;
                      send_policy_command (s1\<lparr>active_policy := ATLAS_CLIENT_POLICY_ACTIVE\<rparr>) })"
proof -
  have len: "unat (of_nat (length v) :: u16) = length v" using assms(2) by simp
  then have "(of_nat (length v) :: u16) \<noteq> 0" using assms(1) by (metis length_0_conv unat_0)
  then show ?thesis
    using assms by (auto simp: atlas_data_plane_parse_policy_def set_raw_prefix set_raw_buf loop_dec split: option.splits)
qed

section \<open>Lemmas: no fault on well-formed messages\<close>

text \<open>What the handlers rely on: the configuration and the identity within their limits.\<close>

definition conn_env :: "'a connector_scheme \<Rightarrow> bool" where
  "conn_env s \<longleftrightarrow> cfg_ok s \<and> ident_ok s \<and> -1 \<notin> set (fds s)"

lemma conn_env_sent: "conn_env s \<Longrightarrow> sent_or_not u m p tmo cb s t \<Longrightarrow> conn_env t"
  by (simp add: conn_env_def ident_ok_def sent_or_not_frame cfg_ok_def)

lemma conn_env_sends:
  assumes "conn_env s"
  shows "\<exists>t. sends path m xs tmo cb s = Some t \<and> conn_env t"
proof -
  obtain t where t: "sends path m xs tmo cb s = Some t" using sends_total by blast
  have "-1 \<notin> set (fds s)" using assms by (simp add: conn_env_def)
  from sends_sent_or_not [OF t this] conn_env_sent [OF assms] t show ?thesis by blast
qed

definition two_byte :: "u16 set \<Rightarrow> tlv list \<Rightarrow> bool" where
  "two_byte tys xs \<longleftrightarrow> (\<forall>x \<in> set xs. fst x \<in> tys \<longrightarrow> 2 \<le> length (snd x))"

definition agent_msg_ok :: "tlv list \<Rightarrow> bool" where
  "agent_msg_ok xs \<longleftrightarrow> two_byte {1001, 1002} xs \<and>
     (\<forall>x \<in> set xs. fst x = 1000 \<longrightarrow> (case dec_tlvs (snd x) of None \<Rightarrow> True | Some ys \<Rightarrow> two_byte {1100, 1101, 1102} ys))"

lemma value_short: "x \<in> set xs \<Longrightarrow> length (snd x) \<le> length (enc_tlvs xs)"
  by (induction xs) auto

text \<open>
  The agent's messages keep every condition on the state that implies \<open>conn_env\<close> and that requests,
  the connector's own variables and the kernel's records do not touch.
\<close>

locale connector_inv =
  fixes P :: "'a connector_scheme \<Rightarrow> bool"
  assumes env: "P s \<Longrightarrow> conn_env s"
    and sends: "P s \<Longrightarrow> \<exists>t. Messages.sends path m xs tmo cb s = Some t \<and> P t"
    and policy: "P s \<Longrightarrow> P (s\<lparr>policy_qos := v\<rparr>)" "P s \<Longrightarrow> P (s\<lparr>policy_packets_per_min := v\<rparr>)"
      "P s \<Longrightarrow> P (s\<lparr>policy_packets_maxlen := v\<rparr>)" "P s \<Longrightarrow> P (s\<lparr>active_policy := a\<rparr>)"
    and statistics: "P s \<Longrightarrow> P (s\<lparr>packets_per_min := v\<rparr>)" "P s \<Longrightarrow> P (s\<lparr>packets_avg := v\<rparr>)"
    and world: "P s \<Longrightarrow> P (emit x s)" "P s \<Longrightarrow> P (tick s)" "P s \<Longrightarrow> P (atlas_sched_del_entry fd s)"
begin

lemma policy_fold_total:
  assumes "two_byte {1100, 1101, 1102} xs" and "P s"
  shows "\<exists>t. cmd_fold policy_body xs s = Some t \<and> P t"
  using assms
proof (induction xs arbitrary: s)
  case (Cons x xs)
  have "\<exists>t. policy_body (view x xs) s = Some (True, t) \<and> P t"
    using Cons.prems
    by (auto simp: policy_body_def two_byte_def mem_read_def set_policy_qos_def set_policy_packets_per_min_def
        set_policy_packets_maxlen_def intro: policy)
  moreover have "two_byte {1100, 1101, 1102} xs" using Cons.prems(1) by (simp add: two_byte_def)
  ultimately show ?case using Cons.IH by fastforce
qed simp

lemma send_policy_total:
  assumes "P s"
  shows "\<exists>t. send_policy_command s = Some t \<and> P t"
  using assms sends [OF assms] send_policy_refines [of s] env [OF assms] by (auto simp: conn_env_def)

lemma read_body_total:
  assumes "agent_msg_ok (x # xs)" and "P s" and "length (snd x) \<le> 2048"
  shows "\<exists>t. read_body (view x xs) s = Some (True, t) \<and> P t"
proof -
  let ?v = "snd x" and ?r = "snd x @ enc_tlvs xs"
  have len: "unat (of_nat (length ?v) :: u16) = length ?v" using assms(3) by simp
  have "\<exists>t. atlas_data_plane_parse_policy (Some ?r) (of_nat (length ?v)) s = Some t \<and> P t"
    if "fst x = 1000"
  proof (cases "?v = [] \<or> dec_tlvs ?v = None")
    case True
    then show ?thesis using assms(2,3) parse_policy_fold [of ?v "enc_tlvs xs" s]
      by (cases "?v = []") (auto simp: atlas_data_plane_parse_policy_def)
  next
    case False
    then obtain ys where ys: "dec_tlvs ?v = Some ys" "?v \<noteq> []" by auto
    then have "two_byte {1100, 1101, 1102} ys" using assms(1) that by (auto simp: agent_msg_ok_def)
    from policy_fold_total [OF this assms(2)] obtain t where t: "cmd_fold policy_body ys s = Some t" "P t" by blast
    then have "P (t\<lparr>active_policy := ATLAS_CLIENT_POLICY_ACTIVE\<rparr>)" by (intro policy)
    from send_policy_total [OF this] show ?thesis
      using parse_policy_fold [of ?v "enc_tlvs xs" s] ys t(1) assms(3) by simp
  qed
  moreover have "\<exists>t. set_packets_per_min ?r s = Some t \<and> P t" "\<exists>t. set_packets_avg ?r s = Some t \<and> P t"
    if "fst x = 1001 \<or> fst x = 1002"
    using that assms(1,2)
    by (auto simp: agent_msg_ok_def two_byte_def set_packets_per_min_def set_packets_avg_def mem_read_def intro: statistics)
  moreover have "\<exists>t. atlas_feature_reputation_handle (Some ?r) (of_nat (length ?v)) s = Some t \<and> P t"
  proof (cases "?v = []")
    case True
    then show ?thesis using assms(2) by (simp add: atlas_feature_reputation_handle_def)
  next
    case False
    then have "(of_nat (length ?v) :: u16) \<noteq> 0" using len by (metis length_0_conv unat_0)
    then show ?thesis
      using feature_handle_refines [of s "of_nat (length ?v)" ?r] assms(2,3) len sends [OF assms(2)] env [OF assms(2)]
      by (simp add: conn_env_def)
  qed
  moreover have "\<exists>t. atlas_feature_feedback_handle (Some ?r) (of_nat (length ?v)) s = Some t \<and> P t"
  proof (cases "?v = []")
    case True
    then show ?thesis using assms(2) by (simp add: atlas_feature_feedback_handle_def)
  next
    case False
    then have "(of_nat (length ?v) :: u16) \<noteq> 0" using len by (metis length_0_conv unat_0)
    then show ?thesis
      using feedback_handle_refines [of s "of_nat (length ?v)" ?r] assms(2,3) len sends [OF assms(2)] env [OF assms(2)]
      by (simp add: conn_env_def)
  qed
  moreover have "\<exists>t. atlas_data_plane_identity s = Some t \<and> P t"
    using data_plane_identity_refines [of s] env [OF assms(2)] world(1) [OF assms(2)] by (simp add: conn_env_def)
  ultimately show ?thesis using assms(2)
    by (auto simp: read_body_def)
qed

lemma read_fold_total:
  assumes "agent_msg_ok xs" and "P s" and "\<forall>x \<in> set xs. length (snd x) \<le> 2048"
  shows "\<exists>t. cmd_fold read_body xs s = Some t \<and> P t"
  using assms
proof (induction xs arbitrary: s)
  case (Cons x xs)
  from read_body_total [OF Cons.prems(1,2)] Cons.prems(3) obtain t where
    t: "read_body (view x xs) s = Some (True, t)" "P t" by auto
  have "agent_msg_ok xs" using Cons.prems(1) by (simp add: agent_msg_ok_def two_byte_def)
  from Cons.IH [OF this t(2)] Cons.prems(3) t(1) show ?case by simp
qed simp

lemma read_cb_total:
  assumes "P s" and "\<And>bs xs. e_read s (clock s) = Some bs \<Longrightarrow> dec_tlvs (take 2048 bs) = Some xs \<Longrightarrow> agent_msg_ok xs"
  shows "\<exists>t. atlas_data_plane_read_cb fd s = Some t \<and> P t"
proof (cases "e_read s (clock s)")
  case None
  then show ?thesis using assms(1)
    by (simp add: atlas_data_plane_read_cb_def world)
next
  case (Some b)
  let ?bs = "take 2048 b"
  have env: "P (tick s)" using assms(1) by (rule world(2))
  show ?thesis
  proof (cases "?bs = []")
    case True
    then show ?thesis using assms(1) Some
      by (simp add: atlas_data_plane_read_cb_def ATLAS_CLIENT_DATA_PLANE_BUFFER_LEN_def world)
  next
    case False
    have len: "length ?bs < 65536" by simp
    have cb: "atlas_data_plane_read_cb fd s =
        (case dec_tlvs ?bs of None \<Rightarrow> Some (tick s) | Some xs \<Rightarrow> cmd_fold read_body xs (tick s))"
      using set_raw_buf [OF False len] False Some
      by (auto simp: atlas_data_plane_read_cb_def ATLAS_CLIENT_DATA_PLANE_BUFFER_LEN_def Let_def
          loop_dec [OF _ False len] split: option.splits)
    show ?thesis
    proof (cases "dec_tlvs ?bs")
      case (Some xs)
      have "\<forall>x \<in> set xs. length (snd x) \<le> 2048"
        using value_short [of _ xs] length_dec_tlvs [OF Some] by (fastforce intro: order_trans)
      with read_fold_total [OF assms(2) env] Some \<open>e_read s (clock s) = Some b\<close> cb show ?thesis by simp
    qed (simp add: cb env)
  qed
qed

end

interpretation conn: connector_inv conn_env
proof
  show "conn_env s \<Longrightarrow> \<exists>t. sends path m xs tmo cb s = Some t \<and> conn_env t" for s :: "'a connector_scheme" and path m xs tmo cb
    by (rule conn_env_sends)
qed (simp_all add: conn_env_def cfg_ok_def ident_ok_def emit_def tick_def atlas_sched_del_entry_def)

section \<open>Lemmas: connections\<close>

text \<open>Only the current connection is read; nothing else has the read callback.\<close>

definition conn_inv :: "'a connector_scheme \<Rightarrow> bool" where
  "conn_inv s \<longleftrightarrow> (\<forall>r \<in> set (sched_live s). snd r = Atlas_data_plane_read_cb \<longrightarrow> fst r = connected_socket s)"

lemma sched_live_fd_close [simp]: "sched_live (fd_close f s) = sched_live s"
  by (simp add: sched_live_def fd_close_def)

lemma sched_live_fd_new [simp]: "sched_live (snd (fd_new s)) = sched_live s"
  by (simp add: sched_live_def fd_new_def)

lemma sched_live_connected [simp]: "sched_live (s\<lparr>connected_socket := f\<rparr>) = sched_live s"
  by (simp add: sched_live_def)

lemma accept_live:
  assumes "\<not> sched_pending (connected_socket s) s" and "distinct (map fst (sched_live s))"
    and "atlas_data_plane_accept_cb fd s = Some t"
  shows "sched_live t =
    (if connected_socket s = -1 then sched_live s else filter (\<lambda>r. fst r \<noteq> connected_socket s) (sched_live s)) @
    (if connected_socket t = -1 then [] else [(connected_socket t, Atlas_data_plane_read_cb)])"
proof -
  let ?c = "connected_socket s"
  define s1 where "s1 = (if ?c \<noteq> -1 then fd_close ?c (atlas_sched_del_entry ?c s) else s)"
  have live1: "sched_live s1 = (if ?c = -1 then sched_live s else filter (\<lambda>r. fst r \<noteq> ?c) (sched_live s))"
    using assms(1,2) by (simp add: s1_def sched.live_del del_first_filter)
  let ?f = "fd_pick s1"
  have t: "t = (if ?f = -1 then (snd (fd_new s1))\<lparr>connected_socket := ?f\<rparr>
      else atlas_sched_add_entry ?f (Some Atlas_data_plane_read_cb) ((snd (fd_new s1))\<lparr>connected_socket := ?f\<rparr>))"
    using assms(3) by (auto simp: atlas_data_plane_accept_cb_def s1_def fd_new_def Let_def split: if_splits)
  then have c: "connected_socket t = ?f" by (simp add: atlas_sched_add_entry_def)
  show ?thesis
    unfolding c using fd_pick_cases [of s1] by (auto simp: t live1 sched.live_add)
qed

lemma accept_inv:
  assumes "conn_inv s" and "\<not> sched_pending (connected_socket s) s" and "distinct (map fst (sched_live s))"
    and "\<forall>r \<in> set (sched_live s). 0 \<le> fst r" and "atlas_data_plane_accept_cb fd s = Some t"
  shows "conn_inv t"
  using accept_live [OF assms(2,3,5)] assms(1,4) by (auto simp: conn_inv_def split: if_splits) fastforce+

text \<open>The message the connection delivers next has complete fixed-size values.\<close>

definition incoming_ok :: "'a connector_scheme \<Rightarrow> bool" where
  "incoming_ok s \<longleftrightarrow> (case e_read s (clock s) of
     None \<Rightarrow> True
   | Some bs \<Rightarrow> (case dec_tlvs (take 2048 bs) of None \<Rightarrow> True | Some xs \<Rightarrow> agent_msg_ok xs))"

section \<open>Properties\<close>

definition connector_demo :: connector where
  "connector_demo = \<lparr>clock = 0, fds = [0, 1, 2], outs = [], e_fd = (\<lambda>n. 3 + int n),
     gw_hostname = Some \<lparr>hs_cap = 2, hs_str = ''gw''\<rparr>, gw_port = Some \<lparr>hs_cap = 4, hs_str = ''5683''\<rparr>,
     local_iface = Some \<lparr>hs_cap = 4, hs_str = ''eth0''\<rparr>, local_port = 10100,
     e_ifaddr = (\<lambda>_ _. (192, 168, 1, 20)),
     sched_entries = [], e_select = (\<lambda>_. None),
     alarm_entries = [], timers = (\<lambda>_. None), e_settime = (\<lambda>_. 0),
     identity_str = ''0123-id'', psk_str = ''secret'', identity_file = None, psk_file = None,
     e_open_ok = (\<lambda>_. True), e_read_ok = (\<lambda>_. True), e_uuid = (\<lambda>_. replicate 36 CHR ''a''),
     e_rand = (\<lambda>_. Some [1, 2, 3]), e_base64 = (\<lambda>_. ''AQID''),
     req_entries = [], token_ctr = 41, coap_ctxs = [], dtls_identity = [], dtls_key = [],
     e_split_uri = (\<lambda>u. Some \<lparr>cu_host = ''gw'', cu_port = 5683, cu_secure = True, cu_path = [], cu_query = []\<rparr>),
     e_getaddrinfo = (\<lambda>_ _. (0, [\<lparr>ai_family = AF_INET, ai_addr = [2, 0, 0, 0, 10, 0, 0, 1]\<rparr>])),
     e_indet = (\<lambda>_. (0, [])), e_ctx = (\<lambda>n. Some n), e_session = (\<lambda>n _. Some n), e_pdu_ok = (\<lambda>_. True),
     e_token_ok = (\<lambda>_. True),
     e_io = (\<lambda>n. if n = 8 then [\<lparr>msg_session = 3, msg_sent = True, msg_pdu =
       \<lparr>pdu_type = COAP_MESSAGE_ACK, pdu_code = 69, pdu_token = [41, 0, 0, 0], pdu_data = []\<rparr>\<rparr>] else []),
     srv_ctx = None, srv_fd = 0, srv_key = [], srv_psk = None, srv_endpoints = [], srv_resources = [],
     server_listeners = (\<lambda>_. []), e_dtls_supported = True, e_endpoint = (\<lambda>_. True),
     e_resource = (\<lambda>n. Some n), e_srv_io = (\<lambda>_. []),
     connected_socket = -1, policy_qos = 0, policy_packets_per_min = 0, policy_packets_maxlen = 0,
     active_policy = 0, packets_per_min = 0, packets_avg = 0, e_read = (\<lambda>_. None),
     e_bind_ok = (\<lambda>_. True), e_listen_ok = (\<lambda>_. True)\<rparr>"

lemma connector_demo_env: "conn_env connector_demo"
  by (simp add: conn_env_def cfg_ok_def ident_ok_def connector_demo_def ATLAS_URI_HOSTNAME_MAX_LEN_def
      ATLAS_IDENTITY_LEN_def ATLAS_PSK_LEN_def)

text \<open>
  C33. A message of the data plane agent is processed completely and safely: whatever the agent
  sends, if the message decodes and its fixed-size values have their two bytes, no handler reads
  or writes outside a buffer, and the conditions the handlers rely on are kept. A message that
  does not decode changes nothing but the clock, and an error deletes the connection's entry.
\<close>

theorem agent_message_processed:
  assumes "conn_env s"
    and "incoming_ok s"
  shows "\<exists>t. atlas_data_plane_read_cb fd s = Some t \<and> conn_env t \<and>
    (case e_read s (clock s) of
       None \<Rightarrow> t = atlas_sched_del_entry fd (tick s)
     | Some bs \<Rightarrow> if bs = [] then t = atlas_sched_del_entry fd (tick s)
                 else if 2048 < length bs then True
                 else case dec_tlvs bs of None \<Rightarrow> t = tick s | Some xs \<Rightarrow> cmd_fold read_body xs (tick s) = Some t)"
proof -
  have "\<exists>t. atlas_data_plane_read_cb fd s = Some t \<and> conn_env t"
    using assms(1) by (rule conn.read_cb_total) (use assms(2) in \<open>auto simp: incoming_ok_def split: option.splits\<close>)
  then obtain t where t: "atlas_data_plane_read_cb fd s = Some t" "conn_env t" by blast
  have "case e_read s (clock s) of
       None \<Rightarrow> t = atlas_sched_del_entry fd (tick s)
     | Some bs \<Rightarrow> if bs = [] then t = atlas_sched_del_entry fd (tick s)
                 else if 2048 < length bs then True
                 else case dec_tlvs bs of None \<Rightarrow> t = tick s | Some xs \<Rightarrow> cmd_fold read_body xs (tick s) = Some t"
  proof (cases "e_read s (clock s)")
    case None
    then show ?thesis using t(1) by (simp add: atlas_data_plane_read_cb_def)
  next
    case (Some bs)
    show ?thesis
    proof (cases "bs = [] \<or> 2048 < length bs")
      case True
      then show ?thesis using t(1) Some by (auto simp: atlas_data_plane_read_cb_def)
    next
      case False
      then show ?thesis using read_cb_fold [OF Some, of fd] t(1) Some by (auto split: option.splits)
    qed
  qed
  with t show ?thesis by blast
qed

theorem agent_message_processed_witness:
  "\<exists>t. atlas_data_plane_read_cb 7 (connector_demo\<lparr>e_read := (\<lambda>_. Some [3, 233, 0, 2, 5, 0])\<rparr>) = Some t \<and> conn_env t \<and>
    (case e_read (connector_demo\<lparr>e_read := (\<lambda>_. Some [3, 233, 0, 2, 5, 0])\<rparr>) (clock connector_demo) of
       None \<Rightarrow> t = atlas_sched_del_entry 7 (tick (connector_demo\<lparr>e_read := (\<lambda>_. Some [3, 233, 0, 2, 5, 0])\<rparr>))
     | Some bs \<Rightarrow> if bs = [] then t = atlas_sched_del_entry 7 (tick (connector_demo\<lparr>e_read := (\<lambda>_. Some [3, 233, 0, 2, 5, 0])\<rparr>))
                 else if 2048 < length bs then True
                 else case dec_tlvs bs of None \<Rightarrow> t = tick (connector_demo\<lparr>e_read := (\<lambda>_. Some [3, 233, 0, 2, 5, 0])\<rparr>)
                   | Some xs \<Rightarrow> cmd_fold read_body xs (tick (connector_demo\<lparr>e_read := (\<lambda>_. Some [3, 233, 0, 2, 5, 0])\<rparr>)) = Some t)"
proof -
  let ?s = "connector_demo\<lparr>e_read := (\<lambda>_. Some [3, 233, 0, 2, 5, 0])\<rparr>"
  have env: "conn_env ?s" using connector_demo_env by (simp add: conn_env_def cfg_ok_def ident_ok_def)
  have dec: "dec_tlvs [3, 233, 0, 2, 5, 0] = Some [(1001, [5, 0])]" by code_simp
  have "incoming_ok ?s" using dec by (simp add: incoming_ok_def agent_msg_ok_def two_byte_def)
  from agent_message_processed [OF env this, of 7] show ?thesis by simp
qed

text \<open>
  The policy the agent hands over is the policy the gateway receives: a policy message with the
  three values in host order sets the client's policy, marks it active and sends the same three
  values in network order with PUT to \<open>gateway/policy\<close>.
\<close>

theorem policy_reaches_gateway:
  assumes "conn_env s"
    and "e_read s (clock s) = Some (enc_tlvs [(1000, enc_tlvs
           [(1100, bytes_of_u16 q), (1101, bytes_of_u16 p), (1102, bytes_of_u16 m)])])"
  shows "atlas_data_plane_read_cb fd s =
    sends ''gateway/policy'' ATLAS_COAP_METHOD_PUT
      [(1100, net_bytes q), (1101, net_bytes p), (1102, net_bytes m)] 5000 Policy_callback
      ((tick s)\<lparr>policy_qos := q, policy_packets_per_min := p, policy_packets_maxlen := m, active_policy := 1\<rparr>)"
proof -
  let ?ys = "[(1100, bytes_of_u16 q), (1101, bytes_of_u16 p), (1102, bytes_of_u16 m)] :: tlv list"
  let ?v = "enc_tlvs ?ys" and ?xs = "[(1000, enc_tlvs ?ys)] :: tlv list"
  let ?t = "(tick s)\<lparr>policy_qos := q, policy_packets_per_min := p, policy_packets_maxlen := m, active_policy := 1\<rparr>"
  have wf: "length (enc_tlvs ?xs) < 65536" "length ?v < 65536" by simp_all
  then have dec: "dec_tlvs (enc_tlvs ?xs) = Some ?xs" "dec_tlvs ?v = Some ?ys"
    by (metis cmds.dec_enc wf_of_short)+
  have ne: "enc_tlvs ?xs \<noteq> []" "?v \<noteq> []" by (simp_all add: enc_tlv_def bytes_of_u16_def)
  have "length (enc_tlvs ?xs) \<le> 2048" by simp
  with read_cb_fold [OF assms(2) ne(1), of fd] have
    "atlas_data_plane_read_cb fd s = cmd_fold read_body ?xs (tick s)" unfolding dec by (simp del: enc_tlvs_simps cmd_fold.simps)
  also have "\<dots> = atlas_data_plane_parse_policy (Some (?v @ [])) (of_nat (length ?v)) (tick s)"
    by (auto simp: read_body_def simp del: enc_tlvs_simps(2,3) split: bind_splits)
  also have "\<dots> = do { s1 \<leftarrow> cmd_fold policy_body ?ys (tick s);
      send_policy_command (s1\<lparr>active_policy := ATLAS_CLIENT_POLICY_ACTIVE\<rparr>) }"
    unfolding parse_policy_fold [OF ne(2) wf(2)] dec by simp
  also have "\<dots> = send_policy_command ?t"
    by (simp add: policy_body_def mem_read_def set_policy_qos_def set_policy_packets_per_min_def
        set_policy_packets_maxlen_def ATLAS_CLIENT_POLICY_ACTIVE_def)
  also have "\<dots> = sends ''gateway/policy'' ATLAS_COAP_METHOD_PUT
      [(1100, net_bytes q), (1101, net_bytes p), (1102, net_bytes m)] 5000 Policy_callback ?t"
    using assms(1) send_policy_refines [of ?t]
    by (simp add: conn_env_def cfg_ok_def tick_def policy_tlvs_def ATLAS_CLIENT_POLICY_COAP_PATH_def)
  finally show ?thesis .
qed

theorem policy_reaches_gateway_witness:
  "\<exists>s :: connector. atlas_data_plane_read_cb 7 s =
    sends ''gateway/policy'' ATLAS_COAP_METHOD_PUT
      [(1100, net_bytes 1), (1101, net_bytes 60), (1102, net_bytes 1024)] 5000 Policy_callback
      ((tick s)\<lparr>policy_qos := 1, policy_packets_per_min := 60, policy_packets_maxlen := 1024, active_policy := 1\<rparr>)"
proof -
  let ?m = "enc_tlvs [(1000, enc_tlvs
      [(1100, bytes_of_u16 1), (1101, bytes_of_u16 60), (1102, bytes_of_u16 1024)])]"
  have "conn_env (connector_demo\<lparr>e_read := (\<lambda>_. Some ?m)\<rparr>)"
    using connector_demo_env by (simp add: conn_env_def cfg_ok_def ident_ok_def)
  from policy_reaches_gateway [OF this, of 1 60 1024 7] show ?thesis by auto
qed

text \<open>
  A fixed-size command shorter than its two bytes at the end of a message is read past the end
  of the received buffer: nothing checks the length before the \<open>memcpy\<close> of
  \<open>set_packets_per_min\<close> and \<open>set_packets_avg\<close>.
\<close>

theorem short_statistics_over_read:
  assumes "ty \<in> {1001, 1002}" and "length v < 2" and "e_read s (clock s) = Some (enc_tlvs [(ty, v)])"
  shows "atlas_data_plane_read_cb fd s = None"
proof -
  have len: "length (enc_tlvs [(ty, v)]) < 65536" "length (enc_tlvs [(ty, v)]) \<le> 2048" using assms(2) by simp_all
  then have "dec_tlvs (enc_tlvs [(ty, v)]) = Some [(ty, v)]" by (metis cmds.dec_enc wf_of_short)
  moreover have "enc_tlvs [(ty, v)] \<noteq> []"
    by (metis add_gr_0 enc_tlvs_simps(2) length_append length_enc_tlv list.size(3) not_less_zero zero_less_numeral)
  ultimately have "atlas_data_plane_read_cb fd s = cmd_fold read_body [(ty, v)] (tick s)"
    using read_cb_fold [OF assms(3)] len(2) by (simp del: enc_tlvs_simps cmd_fold.simps)
  then show ?thesis using assms(1,2)
    by (auto simp: read_body_def set_packets_per_min_def set_packets_avg_def mem_read_def)
qed

theorem short_statistics_over_read_witness:
  "atlas_data_plane_read_cb 7 (connector_demo\<lparr>e_read := (\<lambda>_. Some (enc_tlvs [(1002, [5])]))\<rparr>) = None"
  by (rule short_statistics_over_read [where ty = 1002 and v = "[5]"]) simp_all

lemma reputation_fold:
  assumes "length (enc_tlvs xs) < 65536"
  shows "cmd_fold reputation_body xs s =
    Some (s\<lparr>outs := outs s @ map (\<lambda>x. Sock_write (connected_socket s) (enc_tlv x)) (filter (\<lambda>x. fst x = 1500) xs)\<rparr>)"
  using assms
proof (induction xs arbitrary: s)
  case (Cons x xs)
  have "reputation_body (view x xs) s =
      Some (True, if fst x = 1500 then emit (Sock_write (connected_socket s) (enc_tlv x)) s else s)"
  proof (cases "fst x = 1500")
    case True
    then obtain v where x: "x = (1500, v)" by (cases x) auto
    have len: "length v < 65532" "unat (of_nat (length v) :: u16) = length v" using Cons.prems x by simp_all
    have "atlas_cmd_batch_add (Some (mk_batch [])) 1500 (of_nat (length v)) (v @ enc_tlvs xs) =
        Some (Some (mk_batch [(1500, v)]))"
      using len atlas_cmd_batch_add_mk [of "[]" "of_nat (length v)" "v @ enc_tlvs xs" 1500] by simp
    then show ?thesis using x len(1) sock_write_mk [of "[(1500, v)]" "connected_socket s" s]
      by (simp add: reputation_body_def atlas_cmd_batch_new_mk case_prod_beta)
  qed (simp add: reputation_body_def)
  then show ?case using Cons by (simp add: emit_def)
qed simp

lemma reputation_callback_ok:
  assumes "length p < 65536"
  shows "feature_reputation_callback uri ATLAS_COAP_RESP_OK (Some p) s =
      Some (s\<lparr>outs := outs s @ (case dec_tlvs p of None \<Rightarrow> []
        | Some xs \<Rightarrow> map (\<lambda>x. Sock_write (connected_socket s) (enc_tlv x)) (filter (\<lambda>x. fst x = 1500) xs))\<rparr>)"
proof (cases "p = []")
  case True
  then show ?thesis by (simp add: feature_reputation_callback_def atlas_reputation_resp_parse_def)
next
  case False
  then have ne: "(of_nat (length p) :: u16) \<noteq> 0" using assms by (metis length_0_conv unat_0 unat_of_nat16)
  show ?thesis
  proof (cases "dec_tlvs p")
    case (Some xs)
    then have "length (enc_tlvs xs) < 65536" using length_dec_tlvs [OF Some] assms by simp
    then show ?thesis using ne set_raw_buf [OF False assms] Some
      by (simp add: feature_reputation_callback_def atlas_reputation_resp_parse_def
          loop_dec [OF Some False assms] reputation_fold)
  qed (use ne set_raw_buf [OF False assms] in
      \<open>simp add: feature_reputation_callback_def atlas_reputation_resp_parse_def\<close>)
qed

lemma reputation_callback_failed:
  assumes "resp \<noteq> ATLAS_COAP_RESP_OK"
  shows "feature_reputation_callback uri resp pl s =
    Some (s\<lparr>outs := outs s @ [Sock_write (connected_socket s) (enc_tlvs [(1506, [])])]\<rparr>)"
  using assms sock_write_mk [of "[(1506, [])]" "connected_socket s" s]
  by (simp add: feature_reputation_callback_def batch_add_new emit_def)

text \<open>
  A reputation answer of the gateway is forwarded to the agent completely: for each reputation
  command of the answer, in order, one message with exactly that command is written to the
  connection; a failed request is answered with the single error command; an answer that does not
  decode writes nothing.
\<close>

theorem reputation_answer_forwarded:
  assumes "length p < 65536"
  shows "feature_reputation_callback uri ATLAS_COAP_RESP_OK (Some p) s =
      Some (s\<lparr>outs := outs s @ (case dec_tlvs p of None \<Rightarrow> []
        | Some xs \<Rightarrow> map (\<lambda>x. Sock_write (connected_socket s) (enc_tlv x)) (filter (\<lambda>x. fst x = 1500) xs))\<rparr>) \<and>
    (if resp = ATLAS_COAP_RESP_OK then True
     else feature_reputation_callback uri resp pl s =
       Some (s\<lparr>outs := outs s @ [Sock_write (connected_socket s) (enc_tlvs [(1506, [])])]\<rparr>))"
  using reputation_callback_ok [OF assms] reputation_callback_failed [of resp uri pl s] by simp

theorem reputation_answer_forwarded_witness:
  "feature_reputation_callback [] ATLAS_COAP_RESP_OK (Some [5, 220, 0, 1, 9]) connector_demo =
      Some (connector_demo\<lparr>outs := outs connector_demo @ (case dec_tlvs [5, 220, 0, 1, 9] of None \<Rightarrow> []
        | Some xs \<Rightarrow> map (\<lambda>x. Sock_write (connected_socket connector_demo) (enc_tlv x)) (filter (\<lambda>x. fst x = 1500) xs))\<rparr>) \<and>
    (if ATLAS_COAP_RESP_TIMEOUT = ATLAS_COAP_RESP_OK then True
     else feature_reputation_callback [] ATLAS_COAP_RESP_TIMEOUT None connector_demo =
       Some (connector_demo\<lparr>outs := outs connector_demo @ [Sock_write (connected_socket connector_demo) (enc_tlvs [(1506, [])])]\<rparr>))"
  by (rule reputation_answer_forwarded) simp

lemma accept_total: "\<exists>t. atlas_data_plane_accept_cb fd s = Some t"
  by (auto simp: atlas_data_plane_accept_cb_def Let_def split: prod.splits)



end
