(* ===== verification/Payloads.thy ===== *)
theory Payloads
  imports Connector
begin

text \<open>
  The registration flag (a file-static of src/register/atlas\_register.c that telemetry asks for)
  and the payloads of the telemetry features: host name (atlas\_telemetry\_hostname.c), kernel
  information (atlas\_telemetry\_kern\_info.c), the eleven \<open>sysinfo\<close> values
  (atlas\_telemetry\_sysinfo.c) and the packet statistics (atlas\_telemetry\_packets\_info.c). Each
  payload is a batch of the client's identity and one command with the value as text; the kernel's
  answers (\<open>/etc/hostname\<close>, \<open>uname\<close>, \<open>sysinfo\<close>) are the environment.

  The lemmas show that every payload has that form, that the texts fit their buffers, and when a
  feature has no payload.
\<close>

section \<open>State\<close>

text \<open>The fields of \<open>struct sysinfo\<close> the features print; \<open>loads\<close> has three entries.\<close>

record sysinfo =
  si_uptime :: "64 word"
  si_totalram :: "64 word"
  si_freeram :: "64 word"
  si_sharedram :: "64 word"
  si_bufferram :: "64 word"
  si_totalswap :: "64 word"
  si_freeswap :: "64 word"
  si_procs :: u16
  si_load1 :: "64 word"
  si_load5 :: "64 word"
  si_load15 :: "64 word"

record utsname =
  un_sysname :: string
  un_nodename :: string
  un_release :: string
  un_version :: string
  un_machine :: string

record payloads = connector +
  registered :: u8
  ka_token :: u16
  ka_count :: u8
  ka_alarm_id :: int
  procs_threshold :: u16
  e_hostname_open :: "nat \<Rightarrow> bool"
  e_hostname :: "nat \<Rightarrow> byte list ptr"
  e_uname :: "nat \<Rightarrow> utsname ptr"
  e_sysinfo :: "nat \<Rightarrow> sysinfo ptr"

definition atlas_is_registered :: "'a payloads_scheme \<Rightarrow> u8" where
  "atlas_is_registered s = registered s"

definition ATLAS_TELEMETRY_USE_THRESHOLD :: u8 where "ATLAS_TELEMETRY_USE_THRESHOLD = 1"
definition ATLAS_TELEMETRY_SKIP_THRESHOLD :: u8 where "ATLAS_TELEMETRY_SKIP_THRESHOLD = 0"
definition ATLAS_HOSTNAME_MAX_LEN :: nat where "ATLAS_HOSTNAME_MAX_LEN = 32"
definition ATLAS_KERNEL_INFO_MAX_LEN :: nat where "ATLAS_KERNEL_INFO_MAX_LEN = 128"
definition ATLAS_SYSINFO_FEATURE_MAX_LEN :: nat where "ATLAS_SYSINFO_FEATURE_MAX_LEN = 32"
definition ATLAS_PACKETS_INFO_FEATURE_MAX_LEN :: nat where "ATLAS_PACKETS_INFO_FEATURE_MAX_LEN = 32"

text \<open>
  What a payload callback leaves behind: the block and its length (NULL and 0 when it returns
  early), and the state (only the clock moves).
\<close>

type_synonym 's payload_result = "(byte list ptr \<times> u16 \<times> 's) option"

text \<open>The common tail of all the callbacks: identity, one command, a copy of the batch's buffer.\<close>

definition payload_batch :: "atlas_cmd_type \<Rightarrow> string \<Rightarrow> 'a payloads_scheme \<Rightarrow> 'a payloads_scheme payload_result" where
  "payload_batch ty text s = do {
     let idy = atlas_identity_get s;
     b \<leftarrow> atlas_cmd_batch_add atlas_cmd_batch_new (cmd_code ATLAS_CMD_IDENTITY) (of_nat (length idy)) (str_bytes idy);
     b \<leftarrow> atlas_cmd_batch_add b (cmd_code ty) (of_nat (length text)) (str_bytes text);
     let (cmd_buf, cmd_len) = atlas_cmd_batch_get_buf b (None, 0);
     buf \<leftarrow> cmd_buf;
     payload \<leftarrow> mem_read buf 0 (unat cmd_len);
     Some (Some payload, cmd_len, s) }"

section \<open>Host name\<close>

text \<open>The last newline of the string is replaced by a NUL, which ends the string there.\<close>

definition cut_newline :: "string \<Rightarrow> string" where
  "cut_newline h =
     (if CHR 10 \<in> set h
      then rev (tl (dropWhile (\<lambda>c. c \<noteq> CHR 10) (rev h))) else h)"

definition atlas_telemetry_payload_hostname :: "u8 \<Rightarrow> 'a payloads_scheme \<Rightarrow> 'a payloads_scheme payload_result" where
  "atlas_telemetry_payload_hostname use_threshold s =
     (if use_threshold = ATLAS_TELEMETRY_USE_THRESHOLD then Some (None, 0, s)
      else if \<not> e_hostname_open s (clock s) then Some (None, 0, tick s)
      else
        let s1 = tick s in
        case e_hostname s1 (clock s1) of
          None \<Rightarrow> Some (None, 0, tick s1)
        | Some bs \<Rightarrow>
            if bs = [] then Some (None, 0, tick s1)
            else payload_batch ATLAS_CMD_TELEMETRY_HOSTNAME
                   (cut_newline (c_str (take ATLAS_HOSTNAME_MAX_LEN bs))) (tick s1))"

section \<open>Kernel information\<close>

text \<open>\<open>strncat(d, src, sizeof(d) - strlen(d) - 1)\<close> on a buffer of 129 bytes.\<close>

definition cat129 :: "string \<Rightarrow> string \<Rightarrow> string option" where
  "cat129 d src = strncat (ATLAS_KERNEL_INFO_MAX_LEN + 1) d src ((ATLAS_KERNEL_INFO_MAX_LEN + 1) - length d - 1)"

definition kern_info_text :: "utsname \<Rightarrow> string option" where
  "kern_info_text u = do {
     let k = strncpy (un_sysname u) ATLAS_KERNEL_INFO_MAX_LEN;
     k \<leftarrow> cat129 k '' '';
     k \<leftarrow> cat129 k (un_nodename u);
     k \<leftarrow> cat129 k '' '';
     k \<leftarrow> cat129 k (un_release u);
     k \<leftarrow> cat129 k '' '';
     k \<leftarrow> cat129 k (un_version u);
     k \<leftarrow> cat129 k '' '';
     cat129 k (un_machine u) }"

definition atlas_telemetry_payload_kern_info :: "u8 \<Rightarrow> 'a payloads_scheme \<Rightarrow> 'a payloads_scheme payload_result" where
  "atlas_telemetry_payload_kern_info use_threshold s =
     (if use_threshold = ATLAS_TELEMETRY_USE_THRESHOLD then Some (None, 0, s)
      else case e_uname s (clock s) of
        None \<Rightarrow> Some (None, 0, tick s)
      | Some u \<Rightarrow> do {
          text \<leftarrow> kern_info_text u;
          payload_batch ATLAS_CMD_TELEMETRY_KERN_INFO text (tick s) })"

section \<open>sysinfo\<close>

text \<open>The features without a threshold: \<open>field\<close> is the value printed with \<open>%lu\<close> into 33 bytes.\<close>

definition sysinfo_payload ::
    "atlas_cmd_type \<Rightarrow> (sysinfo \<Rightarrow> 64 word) \<Rightarrow> u8 \<Rightarrow> 'a payloads_scheme \<Rightarrow> 'a payloads_scheme payload_result" where
  "sysinfo_payload ty field use_threshold s =
     (if use_threshold = ATLAS_TELEMETRY_USE_THRESHOLD then Some (None, 0, s)
      else case e_sysinfo s (clock s) of
        None \<Rightarrow> Some (None, 0, tick s)
      | Some info \<Rightarrow> do {
          text \<leftarrow> fits (ATLAS_SYSINFO_FEATURE_MAX_LEN + 1) (show_dec (unat (field info)));
          payload_batch ty text (tick s) })"

definition atlas_telemetry_payload_uptime :: "u8 \<Rightarrow> 'a payloads_scheme \<Rightarrow> 'a payloads_scheme payload_result" where
  "atlas_telemetry_payload_uptime use_threshold s =
     sysinfo_payload ATLAS_CMD_TELEMETRY_SYSINFO_UPTIME si_uptime use_threshold s"

definition atlas_telemetry_payload_totalram :: "u8 \<Rightarrow> 'a payloads_scheme \<Rightarrow> 'a payloads_scheme payload_result" where
  "atlas_telemetry_payload_totalram use_threshold s =
     sysinfo_payload ATLAS_CMD_TELEMETRY_SYSINFO_TOTALRAM si_totalram use_threshold s"

definition atlas_telemetry_payload_freeram :: "u8 \<Rightarrow> 'a payloads_scheme \<Rightarrow> 'a payloads_scheme payload_result" where
  "atlas_telemetry_payload_freeram use_threshold s =
     sysinfo_payload ATLAS_CMD_TELEMETRY_SYSINFO_FREERAM si_freeram use_threshold s"

definition atlas_telemetry_payload_sharedram :: "u8 \<Rightarrow> 'a payloads_scheme \<Rightarrow> 'a payloads_scheme payload_result" where
  "atlas_telemetry_payload_sharedram use_threshold s =
     sysinfo_payload ATLAS_CMD_TELEMETRY_SYSINFO_SHAREDRAM si_sharedram use_threshold s"

definition atlas_telemetry_payload_bufferram :: "u8 \<Rightarrow> 'a payloads_scheme \<Rightarrow> 'a payloads_scheme payload_result" where
  "atlas_telemetry_payload_bufferram use_threshold s =
     sysinfo_payload ATLAS_CMD_TELEMETRY_SYSINFO_BUFFERRAM si_bufferram use_threshold s"

definition atlas_telemetry_payload_totalswap :: "u8 \<Rightarrow> 'a payloads_scheme \<Rightarrow> 'a payloads_scheme payload_result" where
  "atlas_telemetry_payload_totalswap use_threshold s =
     sysinfo_payload ATLAS_CMD_TELEMETRY_SYSINFO_TOTALSWAP si_totalswap use_threshold s"

definition atlas_telemetry_payload_freeswap :: "u8 \<Rightarrow> 'a payloads_scheme \<Rightarrow> 'a payloads_scheme payload_result" where
  "atlas_telemetry_payload_freeswap use_threshold s =
     sysinfo_payload ATLAS_CMD_TELEMETRY_SYSINFO_FREESWAP si_freeswap use_threshold s"

text \<open>The number of processes supports a threshold: below it, there is no payload.\<close>

definition atlas_telemetry_payload_procs :: "u8 \<Rightarrow> 'a payloads_scheme \<Rightarrow> 'a payloads_scheme payload_result" where
  "atlas_telemetry_payload_procs use_threshold s =
     (case e_sysinfo s (clock s) of
        None \<Rightarrow> Some (None, 0, tick s)
      | Some info \<Rightarrow>
          if use_threshold = ATLAS_TELEMETRY_USE_THRESHOLD \<and> si_procs info < procs_threshold s
          then Some (None, 0, tick s)
          else do {
            text \<leftarrow> fits (ATLAS_SYSINFO_FEATURE_MAX_LEN + 1) (show_dec (unat (si_procs info)));
            payload_batch ATLAS_CMD_TELEMETRY_SYSINFO_PROCS text (tick s) })"

definition atlas_telemetry_payload_load1 :: "u8 \<Rightarrow> 'a payloads_scheme \<Rightarrow> 'a payloads_scheme payload_result" where
  "atlas_telemetry_payload_load1 use_threshold s =
     sysinfo_payload ATLAS_CMD_TELEMETRY_SYSINFO_LOAD1 si_load1 use_threshold s"

definition atlas_telemetry_payload_load5 :: "u8 \<Rightarrow> 'a payloads_scheme \<Rightarrow> 'a payloads_scheme payload_result" where
  "atlas_telemetry_payload_load5 use_threshold s =
     sysinfo_payload ATLAS_CMD_TELEMETRY_SYSINFO_LOAD5 si_load5 use_threshold s"

definition atlas_telemetry_payload_load15 :: "u8 \<Rightarrow> 'a payloads_scheme \<Rightarrow> 'a payloads_scheme payload_result" where
  "atlas_telemetry_payload_load15 use_threshold s =
     sysinfo_payload ATLAS_CMD_TELEMETRY_SYSINFO_LOAD15 si_load15 use_threshold s"

section \<open>Packet statistics\<close>

definition atlas_telemetry_payload_packets_per_minute ::
    "u8 \<Rightarrow> 'a payloads_scheme \<Rightarrow> 'a payloads_scheme payload_result" where
  "atlas_telemetry_payload_packets_per_minute use_threshold s = do {
     text \<leftarrow> fits (ATLAS_PACKETS_INFO_FEATURE_MAX_LEN + 1) (show_dec (unat (get_packets_per_min s)));
     payload_batch ATLAS_CMD_TELEMETRY_PACKETS_PER_MINUTE text s }"

definition atlas_telemetry_payload_packets_avg ::
    "u8 \<Rightarrow> 'a payloads_scheme \<Rightarrow> 'a payloads_scheme payload_result" where
  "atlas_telemetry_payload_packets_avg use_threshold s = do {
     text \<leftarrow> fits (ATLAS_PACKETS_INFO_FEATURE_MAX_LEN + 1) (show_dec (unat (get_packets_avg s)));
     payload_batch ATLAS_CMD_TELEMETRY_PACKETS_AVG text s }"

text \<open>The call through the function pointer of a feature.\<close>

primrec run_payload :: "payload_cb \<Rightarrow> u8 \<Rightarrow> 'a payloads_scheme \<Rightarrow> 'a payloads_scheme payload_result" where
  "run_payload Payload_hostname = atlas_telemetry_payload_hostname"
| "run_payload Payload_kern_info = atlas_telemetry_payload_kern_info"
| "run_payload Payload_uptime = atlas_telemetry_payload_uptime"
| "run_payload Payload_totalram = atlas_telemetry_payload_totalram"
| "run_payload Payload_freeram = atlas_telemetry_payload_freeram"
| "run_payload Payload_sharedram = atlas_telemetry_payload_sharedram"
| "run_payload Payload_bufferram = atlas_telemetry_payload_bufferram"
| "run_payload Payload_totalswap = atlas_telemetry_payload_totalswap"
| "run_payload Payload_freeswap = atlas_telemetry_payload_freeswap"
| "run_payload Payload_procs = atlas_telemetry_payload_procs"
| "run_payload Payload_load1 = atlas_telemetry_payload_load1"
| "run_payload Payload_load5 = atlas_telemetry_payload_load5"
| "run_payload Payload_load15 = atlas_telemetry_payload_load15"
| "run_payload Payload_packets_per_minute = atlas_telemetry_payload_packets_per_minute"
| "run_payload Payload_packets_avg = atlas_telemetry_payload_packets_avg"

section \<open>Lemmas\<close>

lemma payload_batch_ok:
  assumes "ident_ok s" and "length text \<le> 128"
  shows "payload_batch ty text s =
    Some (Some (enc_tlvs (id_tlvs s (cmd_code ty) (str_bytes text))),
      of_nat (length (enc_tlvs (id_tlvs s (cmd_code ty) (str_bytes text)))), s)"
proof -
  let ?xs = "id_tlvs s (cmd_code ty) (str_bytes text)"
  have ub: "unat (of_nat (length text) :: u16) = length text" using assms(2) by simp
  have len: "length (enc_tlvs ?xs) < 65536" using id_len [OF assms(1)] assms(2) by (simp add: length_id_tlvs)
  have "?xs \<noteq> []" by (simp add: id_tlvs_def)
  with len show ?thesis
    using assms(2) ub unfolding payload_batch_def Let_def
    by (subst id_batch [OF assms(1)]) (simp_all add: atlas_cmd_batch_get_buf_mk mem_read_def)
qed

text \<open>The text of a feature that has one, and the environment calls it makes.\<close>

fun payload_text :: "payload_cb \<Rightarrow> u8 \<Rightarrow> 'a payloads_scheme \<Rightarrow> (atlas_cmd_type \<times> string) ptr" where
  "payload_text Payload_hostname thr s =
     (if thr = 1 \<or> \<not> e_hostname_open s (clock s) then None
      else case e_hostname s (Suc (clock s)) of
        None \<Rightarrow> None
      | Some bs \<Rightarrow> if bs = [] then None else Some (ATLAS_CMD_TELEMETRY_HOSTNAME, cut_newline (c_str (take 32 bs))))"
| "payload_text Payload_kern_info thr s =
     (if thr = 1 then None else map_option (\<lambda>u. (ATLAS_CMD_TELEMETRY_KERN_INFO,
        take 128 (un_sysname u @ '' '' @ un_nodename u @ '' '' @ un_release u @ '' '' @ un_version u @ '' '' @ un_machine u)))
        (e_uname s (clock s)))"
| "payload_text Payload_procs thr s =
     (case e_sysinfo s (clock s) of
        None \<Rightarrow> None
      | Some i \<Rightarrow> if thr = 1 \<and> si_procs i < procs_threshold s then None
                 else Some (ATLAS_CMD_TELEMETRY_SYSINFO_PROCS, show_dec (unat (si_procs i))))"
| "payload_text Payload_packets_per_minute thr s =
     Some (ATLAS_CMD_TELEMETRY_PACKETS_PER_MINUTE, show_dec (unat (packets_per_min s)))"
| "payload_text Payload_packets_avg thr s =
     Some (ATLAS_CMD_TELEMETRY_PACKETS_AVG, show_dec (unat (packets_avg s)))"
| "payload_text Payload_uptime thr s =
     (if thr = 1 then None else map_option (\<lambda>i. (ATLAS_CMD_TELEMETRY_SYSINFO_UPTIME, show_dec (unat (si_uptime i)))) (e_sysinfo s (clock s)))"
| "payload_text Payload_totalram thr s =
     (if thr = 1 then None else map_option (\<lambda>i. (ATLAS_CMD_TELEMETRY_SYSINFO_TOTALRAM, show_dec (unat (si_totalram i)))) (e_sysinfo s (clock s)))"
| "payload_text Payload_freeram thr s =
     (if thr = 1 then None else map_option (\<lambda>i. (ATLAS_CMD_TELEMETRY_SYSINFO_FREERAM, show_dec (unat (si_freeram i)))) (e_sysinfo s (clock s)))"
| "payload_text Payload_sharedram thr s =
     (if thr = 1 then None else map_option (\<lambda>i. (ATLAS_CMD_TELEMETRY_SYSINFO_SHAREDRAM, show_dec (unat (si_sharedram i)))) (e_sysinfo s (clock s)))"
| "payload_text Payload_bufferram thr s =
     (if thr = 1 then None else map_option (\<lambda>i. (ATLAS_CMD_TELEMETRY_SYSINFO_BUFFERRAM, show_dec (unat (si_bufferram i)))) (e_sysinfo s (clock s)))"
| "payload_text Payload_totalswap thr s =
     (if thr = 1 then None else map_option (\<lambda>i. (ATLAS_CMD_TELEMETRY_SYSINFO_TOTALSWAP, show_dec (unat (si_totalswap i)))) (e_sysinfo s (clock s)))"
| "payload_text Payload_freeswap thr s =
     (if thr = 1 then None else map_option (\<lambda>i. (ATLAS_CMD_TELEMETRY_SYSINFO_FREESWAP, show_dec (unat (si_freeswap i)))) (e_sysinfo s (clock s)))"
| "payload_text Payload_load1 thr s =
     (if thr = 1 then None else map_option (\<lambda>i. (ATLAS_CMD_TELEMETRY_SYSINFO_LOAD1, show_dec (unat (si_load1 i)))) (e_sysinfo s (clock s)))"
| "payload_text Payload_load5 thr s =
     (if thr = 1 then None else map_option (\<lambda>i. (ATLAS_CMD_TELEMETRY_SYSINFO_LOAD5, show_dec (unat (si_load5 i)))) (e_sysinfo s (clock s)))"
| "payload_text Payload_load15 thr s =
     (if thr = 1 then None else map_option (\<lambda>i. (ATLAS_CMD_TELEMETRY_SYSINFO_LOAD15, show_dec (unat (si_load15 i)))) (e_sysinfo s (clock s)))"

lemma cat129_ok: "length d \<le> 128 \<Longrightarrow> cat129 d src = Some (take 128 (d @ src))"
  by (simp add: cat129_def strncat_def fits_def ATLAS_KERNEL_INFO_MAX_LEN_def)

lemma take_take_append: "take n (take n xs @ ys) = take n (xs @ ys)"
  by (simp add: min_def)

lemma kern_info_text_ok:
  "kern_info_text u = Some (take 128 (un_sysname u @ '' '' @ un_nodename u @ '' '' @ un_release u @ '' '' @
     un_version u @ '' '' @ un_machine u))"
  by (simp add: kern_info_text_def cat129_ok take_take_append strncpy_def ATLAS_KERNEL_INFO_MAX_LEN_def del: take_append)

lemma length_cut_newline: "length (cut_newline h) \<le> length h"
proof -
  have "length (dropWhile (\<lambda>c. c \<noteq> CHR 10) (rev h)) \<le> length h"
    by (metis length_dropWhile_le length_rev)
  then show ?thesis by (auto simp: cut_newline_def intro: le_trans [OF diff_le_self])
qed

lemma length_payload_text: "payload_text p thr s = Some (ty, text) \<Longrightarrow> length text \<le> 128"
proof (cases p)
  case Payload_hostname
  assume "payload_text p thr s = Some (ty, text)"
  with Payload_hostname obtain bs where "text = cut_newline (c_str (take 32 bs))"
    by (auto split: if_splits option.splits)
  then have "length text \<le> 32"
    using order_trans [OF length_cut_newline [of "c_str (take 32 bs)"] c_str_take [of 32 bs]] by simp
  then show ?thesis by simp
qed (auto split: if_splits option.splits intro: order_trans [OF length_show_u64] order_trans [OF length_show_u16])

lemmas payload_defs = atlas_telemetry_payload_hostname_def atlas_telemetry_payload_kern_info_def sysinfo_payload_def
  atlas_telemetry_payload_uptime_def atlas_telemetry_payload_totalram_def atlas_telemetry_payload_freeram_def
  atlas_telemetry_payload_sharedram_def atlas_telemetry_payload_bufferram_def atlas_telemetry_payload_totalswap_def
  atlas_telemetry_payload_freeswap_def atlas_telemetry_payload_procs_def atlas_telemetry_payload_load1_def
  atlas_telemetry_payload_load5_def atlas_telemetry_payload_load15_def
  atlas_telemetry_payload_packets_per_minute_def atlas_telemetry_payload_packets_avg_def

text \<open>Every payload callback computes the batch of its text, or nothing.\<close>

lemma fits_u64: "fits (Suc ATLAS_SYSINFO_FEATURE_MAX_LEN) (show_dec (unat (w :: 64 word))) = Some (show_dec (unat w))"
  using length_show_u64 [of w] by (simp add: fits_def ATLAS_SYSINFO_FEATURE_MAX_LEN_def)

lemma fits_u16:
  "fits (Suc ATLAS_SYSINFO_FEATURE_MAX_LEN) (show_dec (unat (w :: u16))) = Some (show_dec (unat w))"
  "fits (Suc ATLAS_PACKETS_INFO_FEATURE_MAX_LEN) (show_dec (unat w)) = Some (show_dec (unat w))"
  using length_show_u16 [of w]
  by (simp_all add: fits_def ATLAS_SYSINFO_FEATURE_MAX_LEN_def ATLAS_PACKETS_INFO_FEATURE_MAX_LEN_def)

text \<open>The number of calls into the kernel a payload callback makes.\<close>

fun payload_ticks :: "payload_cb \<Rightarrow> u8 \<Rightarrow> 'a payloads_scheme \<Rightarrow> nat" where
  "payload_ticks Payload_hostname thr s = (if thr = 1 then 0 else if e_hostname_open s (clock s) then 2 else 1)"
| "payload_ticks Payload_procs thr s = 1"
| "payload_ticks Payload_packets_per_minute thr s = 0"
| "payload_ticks Payload_packets_avg thr s = 0"
| "payload_ticks p thr s = (if thr = 1 then 0 else 1)"

lemma run_payload_text:
  "run_payload p thr s =
     (case payload_text p thr s of
        None \<Rightarrow> Some (None, 0, s\<lparr>clock := clock s + payload_ticks p thr s\<rparr>)
      | Some (ty, t) \<Rightarrow> payload_batch ty t (s\<lparr>clock := clock s + payload_ticks p thr s\<rparr>))"
  by (cases p) (auto simp: payload_defs fits_u64 fits_u16 kern_info_text_ok ATLAS_TELEMETRY_USE_THRESHOLD_def
      Let_def tick_def get_packets_per_min_def get_packets_avg_def ATLAS_HOSTNAME_MAX_LEN_def split: option.splits)

lemma run_payload_ok:
  assumes "ident_ok s"
  shows "\<exists>k \<ge> clock s. run_payload p thr s =
     (case payload_text p thr s of
        None \<Rightarrow> Some (None, 0, s\<lparr>clock := k\<rparr>)
      | Some (ty, t) \<Rightarrow>
          let xs = id_tlvs s (cmd_code ty) (str_bytes t)
          in Some (Some (enc_tlvs xs), of_nat (length (enc_tlvs xs)), s\<lparr>clock := k\<rparr>))"
proof -
  let ?k = "clock s + payload_ticks p thr s"
  have id: "ident_ok (s\<lparr>clock := ?k\<rparr>)" "atlas_identity_get (s\<lparr>clock := ?k\<rparr>) = atlas_identity_get s"
    using assms by (simp_all add: ident_ok_def atlas_identity_get_def)
  show ?thesis
    using payload_batch_ok [OF id(1)] length_payload_text [of p thr s]
    by (intro exI [of _ ?k]) (auto simp: run_payload_text id id_tlvs_def split: option.splits)
qed

end
