(* ===== verification/Telemetry.thy ===== *)
theory Telemetry
  imports Payloads "HOL-Library.Sublist"
begin

text \<open>
  The telemetry core (src/telemetry/atlas\_telemetry.c): the list of features, pushing a feature
  to the gateway, the push and scan timers of a feature and the retry after a timeout.

  The lemmas show that nothing is pushed before the client is registered, that a push refines
  \<open>sends\<close> of the feature's payload, that pushing all features sends at most one request per feature
  in their order, how the timers of a feature are replaced, and which feature a timeout retries.
\<close>

section \<open>State\<close>

record telemetry_feature =
  te_uri_path :: string
  te_payload_cb :: payload_cb
  te_push_id :: int
  te_threshold_id :: int

record telemetry = payloads +
  features :: "telemetry_feature list"

definition ATLAS_CLIENT_TELEMETRY_FEATURE_TIMEOUT_MS :: u16 where
  "ATLAS_CLIENT_TELEMETRY_FEATURE_TIMEOUT_MS = 40000"

section \<open>Pushing\<close>

definition atlas_telemetry_push :: "telemetry_feature \<Rightarrow> u8 \<Rightarrow> 'a telemetry_scheme \<Rightarrow> 'a telemetry_scheme option" where
  "atlas_telemetry_push feature use_threshold s =
     (if atlas_is_registered s = 0 then Some s
      else do {
        (payload, payload_len, s1) \<leftarrow> run_payload (te_payload_cb feature) use_threshold s;
        if payload = None \<or> payload_len = 0 then Some s1
        else do {
          uri \<leftarrow> atlas_cfg_coap_get_uri (Some (te_uri_path feature)) ATLAS_URI_MAX_LEN (Some '''') s1;
          (status, s2) \<leftarrow> atlas_coap_client_request uri ATLAS_COAP_METHOD_PUT payload (unat payload_len)
             ATLAS_CLIENT_TELEMETRY_FEATURE_TIMEOUT_MS (Some Telemetry_callback) s1;
          Some s2 } })"

definition push_alert_alarm_cb :: "int \<Rightarrow> 'a telemetry_scheme \<Rightarrow> 'a telemetry_scheme option" where
  "push_alert_alarm_cb alarm_id s =
     (case find (\<lambda>p. te_push_id p = alarm_id) (features s) of
        None \<Rightarrow> Some s
      | Some p \<Rightarrow> atlas_telemetry_push p ATLAS_TELEMETRY_SKIP_THRESHOLD s)"

definition threshold_alert_alarm_cb :: "int \<Rightarrow> 'a telemetry_scheme \<Rightarrow> 'a telemetry_scheme option" where
  "threshold_alert_alarm_cb alarm_id s =
     (case find (\<lambda>p. te_threshold_id p = alarm_id) (features s) of
        None \<Rightarrow> Some s
      | Some p \<Rightarrow> atlas_telemetry_push p ATLAS_TELEMETRY_USE_THRESHOLD s)"

text \<open>Whether the second string occurs in the first.\<close>

fun strstr :: "string \<Rightarrow> string \<Rightarrow> bool" where
  "strstr [] needle \<longleftrightarrow> needle = []"
| "strstr (c # cs) needle \<longleftrightarrow> prefix needle (c # cs) \<or> strstr cs needle"

definition telemetry_callback ::
    "string \<Rightarrow> atlas_coap_response \<Rightarrow> byte list ptr \<Rightarrow> 'a telemetry_scheme \<Rightarrow> 'a telemetry_scheme option" where
  "telemetry_callback uri resp_status resp_payload s =
     (if resp_status = ATLAS_COAP_RESP_OK then Some s
      else if resp_status \<noteq> ATLAS_COAP_RESP_TIMEOUT then Some s
      else case find (\<lambda>p. strstr uri (te_uri_path p)) (features s) of
             None \<Rightarrow> Some s
           | Some p \<Rightarrow> atlas_telemetry_push p ATLAS_TELEMETRY_SKIP_THRESHOLD s)"

section \<open>The list of features\<close>

definition atlas_telemetry_add ::
    "string ptr \<Rightarrow> payload_cb ptr \<Rightarrow> 'a telemetry_scheme \<Rightarrow> 'a telemetry_scheme" where
  "atlas_telemetry_add uri_path payload_cb s =
     (case (uri_path, payload_cb) of
        (Some u, Some p) \<Rightarrow> s\<lparr>features := features s @
           [\<lparr>te_uri_path = u, te_payload_cb = p, te_push_id = -1, te_threshold_id = -1\<rparr>]\<rparr>
      | _ \<Rightarrow> s)"

definition atlas_telemetry_del :: "string ptr \<Rightarrow> 'a telemetry_scheme \<Rightarrow> 'a telemetry_scheme" where
  "atlas_telemetry_del uri_path s =
     (case uri_path of
        None \<Rightarrow> s
      | Some u \<Rightarrow> s\<lparr>features := del_first (\<lambda>p. te_uri_path p = u) (features s)\<rparr>)"

fun push_features_loop :: "telemetry_feature list \<Rightarrow> 'a telemetry_scheme \<Rightarrow> 'a telemetry_scheme option" where
  "push_features_loop [] s = Some s"
| "push_features_loop (p # ps) s = do {
     s1 \<leftarrow> atlas_telemetry_push p ATLAS_TELEMETRY_SKIP_THRESHOLD s;
     push_features_loop ps s1 }"

definition atlas_telemetry_push_all :: "'a telemetry_scheme \<Rightarrow> 'a telemetry_scheme option" where
  "atlas_telemetry_push_all s = push_features_loop (features s) s"

section \<open>Timers of a feature\<close>

definition atlas_telemetry_push_set ::
    "string ptr \<Rightarrow> u16 \<Rightarrow> 'a telemetry_scheme \<Rightarrow> 'a telemetry_scheme option" where
  "atlas_telemetry_push_set uri_path push_rate s =
     (case uri_path of
        None \<Rightarrow> Some s
      | Some u \<Rightarrow>
        (case find (\<lambda>p. te_uri_path p = u) (features s) of
           None \<Rightarrow> Some s
         | Some p \<Rightarrow>
             if push_rate = 0 then atlas_telemetry_push p ATLAS_TELEMETRY_SKIP_THRESHOLD s
             else
               let s1 = (if 0 \<le> te_push_id p then atlas_alarm_cancel (te_push_id p) s else s);
                   (i, s2) = atlas_alarm_set (ATLAS_ALARM_SEC_TO_MS push_rate) Push_alert_alarm_cb False s1
               in Some (s2\<lparr>features := upd_first (\<lambda>q. te_uri_path q = u) (\<lambda>q. q\<lparr>te_push_id := i\<rparr>)
                                          (features s2)\<rparr>)))"

definition atlas_telemetry_threshold_set ::
    "string ptr \<Rightarrow> u16 \<Rightarrow> 'a telemetry_scheme \<Rightarrow> 'a telemetry_scheme" where
  "atlas_telemetry_threshold_set uri_path scan_rate s =
     (case uri_path of
        None \<Rightarrow> s
      | Some u \<Rightarrow>
        if scan_rate = 0 then s
        else case find (\<lambda>p. te_uri_path p = u) (features s) of
           None \<Rightarrow> s
         | Some p \<Rightarrow>
             let s1 = (if 0 \<le> te_threshold_id p then atlas_alarm_cancel (te_threshold_id p) s else s);
                 (i, s2) = atlas_alarm_set (ATLAS_ALARM_SEC_TO_MS scan_rate) Threshold_alert_alarm_cb False s1
             in s2\<lparr>features := upd_first (\<lambda>q. te_uri_path q = u) (\<lambda>q. q\<lparr>te_threshold_id := i\<rparr>) (features s2)\<rparr>)"

section \<open>Lemmas: pushing\<close>

lemma push_unregistered: "registered s = 0 \<Longrightarrow> atlas_telemetry_push p thr s = Some s"
  by (simp add: atlas_telemetry_push_def atlas_is_registered_def)

lemma push_refines:
  assumes "registered s \<noteq> 0" and "cfg_ok s" and "ident_ok s" and "length (te_uri_path p) \<le> 112"
  shows "\<exists>k \<ge> clock s. atlas_telemetry_push p thr s =
    (case payload_text (te_payload_cb p) thr s of
       None \<Rightarrow> Some (s\<lparr>clock := k\<rparr>)
     | Some (ty, t) \<Rightarrow> sends (te_uri_path p) ATLAS_COAP_METHOD_PUT (id_tlvs s (cmd_code ty) (str_bytes t)) 40000
                        Telemetry_callback (s\<lparr>clock := k\<rparr>))"
proof -
  from run_payload_ok [OF assms(3), of "te_payload_cb p" thr] obtain k where ge: "clock s \<le> k" and
    k: "run_payload (te_payload_cb p) thr s =
     (case payload_text (te_payload_cb p) thr s of
        None \<Rightarrow> Some (None, 0, s\<lparr>clock := k\<rparr>)
      | Some (ty, t) \<Rightarrow>
          let xs = id_tlvs s (cmd_code ty) (str_bytes t)
          in Some (Some (enc_tlvs xs), of_nat (length (enc_tlvs xs)), s\<lparr>clock := k\<rparr>))" by blast
  have cfg: "cfg_ok (s\<lparr>clock := k\<rparr>)" using assms(2) by (simp add: cfg_ok_def)
  show ?thesis
  proof (cases "payload_text (te_payload_cb p) thr s")
    case None
    then show ?thesis using k ge assms(1)
      by (auto simp: atlas_telemetry_push_def atlas_is_registered_def)
  next
    case (Some tt)
    obtain ty t where tt: "tt = (ty, t)" by (cases tt)
    let ?xs = "id_tlvs s (cmd_code ty) (str_bytes t)"
    have "length t \<le> 128" using length_payload_text Some tt by blast
    then have len: "length (enc_tlvs ?xs) < 65536" "8 \<le> length (enc_tlvs ?xs)"
      using id_len [OF assms(3)] by (simp_all add: length_id_tlvs)
    then have u: "unat (of_nat (length (enc_tlvs ?xs)) :: u16) = length (enc_tlvs ?xs)" by simp
    then have nz: "(of_nat (length (enc_tlvs ?xs)) :: u16) \<noteq> 0" using len(2) by (metis not_numeral_le_zero unat_0)
    show ?thesis
      using k ge Some tt assms(1) get_uri_ok [OF cfg assms(4), of "''''"] u nz
      by (intro exI [of _ k])
        (auto simp: atlas_telemetry_push_def atlas_is_registered_def sends_def
          ATLAS_CLIENT_TELEMETRY_FEATURE_TIMEOUT_MS_def Let_def split: bind_splits option.splits)
  qed
qed

text \<open>The outputs of a push: nothing, or one request to the feature's URI.\<close>

definition push_env :: "'a telemetry_scheme \<Rightarrow> bool" where
  "push_env s \<longleftrightarrow> conn_env s \<and> (\<forall>p \<in> set (features s). length (te_uri_path p) \<le> 112)"

text \<open>What any number of pushes leaves alone.\<close>

definition push_frame :: "'a telemetry_scheme \<Rightarrow> 'a telemetry_scheme \<Rightarrow> bool" where
  "push_frame s t \<longleftrightarrow> gw_hostname t = gw_hostname s \<and> gw_port t = gw_port s \<and> local_iface t = local_iface s \<and>
     identity_str t = identity_str s \<and> psk_str t = psk_str s \<and> (-1 \<in> set (fds t) \<longleftrightarrow> -1 \<in> set (fds s)) \<and>
     coap_server.more t = coap_server.more s"

lemma push_frame_refl: "push_frame s s" by (simp add: push_frame_def)

lemma push_frame_trans: "push_frame s t \<Longrightarrow> push_frame t u \<Longrightarrow> push_frame s u"
  by (simp add: push_frame_def)

lemma more_fields:
  assumes "coap_server.more t = coap_server.more (s :: 'a telemetry_scheme)"
  shows "features t = features s" "registered t = registered s" "ka_token t = ka_token s"
    "ka_count t = ka_count s" "ka_alarm_id t = ka_alarm_id s" "procs_threshold t = procs_threshold s"
    "connected_socket t = connected_socket s" "active_policy t = active_policy s"
    "policy_qos t = policy_qos s" "policy_packets_per_min t = policy_packets_per_min s"
    "policy_packets_maxlen t = policy_packets_maxlen s" "packets_per_min t = packets_per_min s"
    "packets_avg t = packets_avg s" "telemetry.more t = telemetry.more s"
  using assms by (cases s; cases t; simp)+

lemma push_env_frame: "push_env s \<Longrightarrow> push_frame s t \<Longrightarrow> push_env t"
  using more_fields(1) [of t s]
  by (auto simp: push_env_def push_frame_def conn_env_def cfg_ok_def ident_ok_def)

lemma cfg_uri_frame: "push_frame s t \<Longrightarrow> cfg_uri t = cfg_uri s"
  by (simp add: push_frame_def cfg_uri_def fun_eq_iff)

lemma push_one:
  assumes "push_env s" and "length (te_uri_path p) \<le> 112"
  shows "\<exists>t. atlas_telemetry_push p thr s = Some t \<and> push_frame s t \<and>
    (outs t = outs s \<or> (registered s \<noteq> 0 \<and> (\<exists>ty x. payload_text (te_payload_cb p) thr s = Some (ty, x) \<and>
       outs t = outs s @ [Coap_request ATLAS_COAP_METHOD_PUT (cfg_uri s (te_uri_path p)) (token_ctr s)
                           (enc_tlvs (id_tlvs s (cmd_code ty) (str_bytes x)))])))"
proof (cases "registered s = 0")
  case True
  then show ?thesis by (simp add: push_unregistered push_frame_refl)
next
  case False
  have env: "cfg_ok s" "ident_ok s" "-1 \<notin> set (fds s)" using assms(1) by (simp_all add: push_env_def conn_env_def)
  from push_refines [OF False env(1,2) assms(2), of thr] obtain k where k: "atlas_telemetry_push p thr s =
    (case payload_text (te_payload_cb p) thr s of
       None \<Rightarrow> Some (s\<lparr>clock := k\<rparr>)
     | Some (ty, t) \<Rightarrow> sends (te_uri_path p) ATLAS_COAP_METHOD_PUT (id_tlvs s (cmd_code ty) (str_bytes t)) 40000
                        Telemetry_callback (s\<lparr>clock := k\<rparr>))" by blast
  show ?thesis
  proof (cases "payload_text (te_payload_cb p) thr s")
    case None
    then show ?thesis using k by (simp add: push_frame_def)
  next
    case (Some tt)
    obtain ty x where tt: "tt = (ty, x)" by (cases tt)
    let ?xs = "id_tlvs s (cmd_code ty) (str_bytes x)" and ?s = "s\<lparr>clock := k\<rparr>"
    obtain t where t: "sends (te_uri_path p) ATLAS_COAP_METHOD_PUT ?xs 40000 Telemetry_callback ?s = Some t"
      using sends_total by blast
    have "-1 \<notin> set (fds ?s)" using env(3) by simp
    note sn = sends_sent_or_not [OF t this]
    have frame: "push_frame s t" using sent_or_not_frame [OF sn] by (simp add: push_frame_def)
    have "outs t = outs s \<or> outs t = outs s @ [Coap_request ATLAS_COAP_METHOD_PUT (cfg_uri s (te_uri_path p)) (token_ctr s) (enc_tlvs ?xs)]"
      using sn by (auto simp: sent_or_not_def request_sent_def cfg_uri_def)
    then show ?thesis using k Some tt t frame False by auto
  qed
qed

text \<open>Pushing a list of features: at most one request each, in order.\<close>

definition request_uri :: "out \<Rightarrow> string ptr" where
  "request_uri x = (case x of Coap_request m u tk b \<Rightarrow> Some u | _ \<Rightarrow> None)"

lemma push_features_ok:
  assumes "push_env s" and "\<forall>p \<in> set ps. length (te_uri_path p) \<le> 112"
  shows "\<exists>t xs. push_features_loop ps s = Some t \<and> push_frame s t \<and> outs t = outs s @ xs \<and>
    (if registered s = 0 then xs = [] else
     subseq (map request_uri xs) (map (\<lambda>p. Some (cfg_uri s (te_uri_path p))) ps))"
  using assms
proof (induction ps arbitrary: s)
  case Nil
  then show ?case by (simp add: push_frame_refl)
next
  case (Cons p ps)
  from push_one [OF Cons.prems(1), of p ATLAS_TELEMETRY_SKIP_THRESHOLD] Cons.prems(2) obtain t where
    t: "atlas_telemetry_push p ATLAS_TELEMETRY_SKIP_THRESHOLD s = Some t" "push_frame s t"
    and o: "outs t = outs s \<or> (registered s \<noteq> 0 \<and> (\<exists>tk b. outs t = outs s @
        [Coap_request ATLAS_COAP_METHOD_PUT (cfg_uri s (te_uri_path p)) tk b]))" by auto
  have reg: "registered t = registered s" using t(2) more_fields(2) [of t s] by (simp add: push_frame_def)
  have uri: "cfg_uri t = cfg_uri s" using t(2) by (rule cfg_uri_frame)
  from Cons.IH [OF push_env_frame [OF Cons.prems(1) t(2)]] Cons.prems(2) obtain u xs where
    u: "push_features_loop ps t = Some u" "push_frame t u" "outs u = outs t @ xs"
    and xs: "if registered t = 0 then xs = [] else
      subseq (map request_uri xs) (map (\<lambda>p. Some (cfg_uri t (te_uri_path p))) ps)" by auto
  from o obtain ys where ys: "outs t = outs s @ ys" "ys = [] \<or> (registered s \<noteq> 0 \<and>
      (\<exists>tk b. ys = [Coap_request ATLAS_COAP_METHOD_PUT (cfg_uri s (te_uri_path p)) tk b]))" by auto
  have "if registered s = 0 then ys @ xs = [] else
      subseq (map request_uri (ys @ xs)) (map (\<lambda>p. Some (cfg_uri s (te_uri_path p))) (p # ps))"
    using ys(2) xs reg uri by (auto simp: request_uri_def)
  moreover have "push_frame s u" using t(2) u(2) by (rule push_frame_trans)
  ultimately show ?case using t(1) u(1,3) ys(1) by (intro exI [of _ u] exI [of _ "ys @ xs"]) simp
qed

lemma push_all_ok:
  assumes "push_env s"
  shows "\<exists>t xs. atlas_telemetry_push_all s = Some t \<and> push_frame s t \<and> outs t = outs s @ xs \<and>
    (if registered s = 0 then xs = [] else
     subseq (map request_uri xs) (map (\<lambda>p. Some (cfg_uri s (te_uri_path p))) (features s)))"
  using push_features_ok [OF assms, of "features s"] assms
  by (simp add: atlas_telemetry_push_all_def push_env_def)

section \<open>Lemmas: timers\<close>

text \<open>Replacing the push timer of a feature: the old one is gone, the new one is the only addition.\<close>

lemma push_set_timer:
  assumes "alarm_inv s" and "find (\<lambda>p. te_uri_path p = u) (features s) = Some p" and "rate \<noteq> 0"
    and "atlas_telemetry_push_set (Some u) rate s = Some t"
  shows "\<exists>i. features t = upd_first (\<lambda>q. te_uri_path q = u) (\<lambda>q. q\<lparr>te_push_id := i\<rparr>) (features s) \<and> alarm_inv t \<and>
    alarm_active t = filter (\<lambda>a. fst a \<noteq> te_push_id p \<or> te_push_id p < 0) (alarm_active s) @
      (if i < 0 then [] else [(i, Push_alert_alarm_cb)]) \<and>
    (if i < 0 then True else timers t i = Some (timer_spec (ATLAS_ALARM_SEC_TO_MS rate) False))"
proof -
  define s1 where "s1 = (if 0 \<le> te_push_id p then atlas_alarm_cancel (te_push_id p) s else s)"
  let ?r = "atlas_alarm_set (ATLAS_ALARM_SEC_TO_MS rate) Push_alert_alarm_cb False s1"
  let ?i = "fst ?r"
  have inv1: "alarm_inv s1" using assms(1) by (simp add: s1_def alarms.inv_cancel)
  have act1: "alarm_active s1 = filter (\<lambda>a. fst a \<noteq> te_push_id p \<or> te_push_id p < 0) (alarm_active s)"
    using assms(1) by (auto simp: s1_def alarms.active_cancel intro!: filter_cong)
  have f1: "features s1 = features s" by (simp add: s1_def alarm_defs Let_def)
  have f2: "features (snd ?r) = features s" using f1 by (simp add: alarm_defs Let_def)
  have t: "t = (snd ?r)\<lparr>features := upd_first (\<lambda>q. te_uri_path q = u) (\<lambda>q. q\<lparr>te_push_id := ?i\<rparr>) (features s)\<rparr>"
    using assms(2-4) f2 by (simp add: atlas_telemetry_push_set_def s1_def Let_def case_prod_beta)
  have act: "alarm_active t = alarm_active (snd ?r)" "alarm_inv t = alarm_inv (snd ?r)" "timers t = timers (snd ?r)"
    by (simp_all add: t alarm_active_def alarm_inv_def)
  have inv: "alarm_inv (snd ?r)" using inv1 by (rule alarms.inv_set)
  have "alarm_active (snd ?r) = alarm_active s1 @ (if ?i < 0 then [] else [(?i, Push_alert_alarm_cb)])"
    using inv1 by (simp add: alarms.active_set alarms.active_set_fail)
  moreover have "0 \<le> ?i \<Longrightarrow> timers (snd ?r) ?i = Some (timer_spec (ATLAS_ALARM_SEC_TO_MS rate) False)"
    using fd_pick_cases [of s1] by (auto simp: alarm_defs Let_def)
  ultimately show ?thesis using inv act act1 by (intro exI [of _ ?i]) (simp add: t)
qed

lemma strstr_append: "strstr ys n \<Longrightarrow> strstr (xs @ ys) n"
  by (induction xs) auto

section \<open>Properties\<close>

definition telemetry_demo :: telemetry where
  "telemetry_demo = \<lparr>clock = 0, fds = [0, 1, 2], outs = [], e_fd = (\<lambda>n. 3 + int n),
     gw_hostname = Some \<lparr>hs_cap = 2, hs_str = ''gw''\<rparr>, gw_port = Some \<lparr>hs_cap = 4, hs_str = ''5683''\<rparr>,
     local_iface = Some \<lparr>hs_cap = 4, hs_str = ''eth0''\<rparr>, local_port = 10100,
     e_ifaddr = (\<lambda>_ _. (192, 168, 1, 20)),
     sched_entries = [], e_select = (\<lambda>_. None),
     alarm_entries = [], timers = (\<lambda>_. None), e_settime = (\<lambda>_. 0),
     identity_str = ''0123-id'', psk_str = ''secret'', identity_file = None, psk_file = None,
     e_open_ok = (\<lambda>_. True), e_read_ok = (\<lambda>_. True), e_uuid = (\<lambda>_. replicate 36 CHR ''a''),
     e_rand = (\<lambda>_. Some [1, 2, 3]), e_base64 = (\<lambda>_. ''AQID''),
     req_entries = [], token_ctr = 41, coap_ctxs = [], dtls_identity = [], dtls_key = [],
     e_split_uri = (\<lambda>u. Some \<lparr>cu_host = ''gw'', cu_port = 5683, cu_secure = True, cu_path = [], cu_query = []\<rparr>),
     e_getaddrinfo = (\<lambda>_ _. (0, [\<lparr>ai_family = AF_INET, ai_addr = [2, 0, 0, 0, 10, 0, 0, 1]\<rparr>])),
     e_indet = (\<lambda>_. (0, [])), e_ctx = (\<lambda>n. Some n), e_session = (\<lambda>n _. Some n), e_pdu_ok = (\<lambda>_. True),
     e_token_ok = (\<lambda>_. True),
     e_io = (\<lambda>n. if n = 8 then [\<lparr>msg_session = 3, msg_sent = True, msg_pdu =
       \<lparr>pdu_type = COAP_MESSAGE_ACK, pdu_code = 69, pdu_token = [41, 0, 0, 0], pdu_data = []\<rparr>\<rparr>] else []),
     srv_ctx = None, srv_fd = 0, srv_key = [], srv_psk = None, srv_endpoints = [], srv_resources = [],
     server_listeners = (\<lambda>_. []), e_dtls_supported = True, e_endpoint = (\<lambda>_. True),
     e_resource = (\<lambda>n. Some n), e_srv_io = (\<lambda>_. []),
     connected_socket = -1, policy_qos = 0, policy_packets_per_min = 0, policy_packets_maxlen = 0,
     active_policy = 0, packets_per_min = 0, packets_avg = 0, e_read = (\<lambda>_. None),
     e_bind_ok = (\<lambda>_. True), e_listen_ok = (\<lambda>_. True),
     registered = 1, ka_token = 0, ka_count = 0, ka_alarm_id = 0, procs_threshold = 0,
     e_hostname_open = (\<lambda>_. True), e_hostname = (\<lambda>_. Some [97, 10]), e_uname = (\<lambda>_. None),
     e_sysinfo = (\<lambda>_. None),
     features = [\<lparr>te_uri_path = ''gateway/telemetry/packets_avg'', te_payload_cb = Payload_packets_avg,
       te_push_id = -1, te_threshold_id = -1\<rparr>]\<rparr>"

lemma telemetry_demo_env: "push_env telemetry_demo"
  by (simp add: push_env_def conn_env_def cfg_ok_def ident_ok_def telemetry_demo_def ATLAS_URI_HOSTNAME_MAX_LEN_def
      ATLAS_IDENTITY_LEN_def ATLAS_PSK_LEN_def)



text \<open>
  The payload of a feature: a registered client that pushes a feature sends the identity and
  the feature's value as text, in one batch, to the feature's URI; the value is the one the
  kernel or the data plane reported, and a feature without a value (no answer, a threshold it does
  not support or does not reach) sends nothing.
\<close>

theorem push_sends_payload:
  assumes "registered s \<noteq> 0" and "cfg_ok s" and "ident_ok s" and "length (te_uri_path p) \<le> 112"
  shows "\<exists>k. atlas_telemetry_push p thr s =
    (case payload_text (te_payload_cb p) thr s of
       None \<Rightarrow> Some (s\<lparr>clock := k\<rparr>)
     | Some (ty, t) \<Rightarrow> sends (te_uri_path p) ATLAS_COAP_METHOD_PUT
         [(2, str_bytes (atlas_identity_get s)), (cmd_code ty, str_bytes t)] 40000 Telemetry_callback (s\<lparr>clock := k\<rparr>))"
  using push_refines [OF assms, of thr] unfolding id_tlvs_def cmd_code.simps by (elim exE conjE) (rule exI)

theorem push_sends_payload_witness:
  "\<exists>k. atlas_telemetry_push (hd (features telemetry_demo)) 0 telemetry_demo =
    (case payload_text (te_payload_cb (hd (features telemetry_demo))) 0 telemetry_demo of
       None \<Rightarrow> Some (telemetry_demo\<lparr>clock := k\<rparr>)
     | Some (ty, t) \<Rightarrow> sends (te_uri_path (hd (features telemetry_demo))) ATLAS_COAP_METHOD_PUT
         [(2, str_bytes (atlas_identity_get telemetry_demo)), (cmd_code ty, str_bytes t)] 40000 Telemetry_callback
         (telemetry_demo\<lparr>clock := k\<rparr>))"
proof (rule push_sends_payload)
  show "cfg_ok telemetry_demo" "ident_ok telemetry_demo"
    using telemetry_demo_env by (simp_all add: push_env_def conn_env_def)
qed (simp_all add: telemetry_demo_def)

text \<open>
  A push rate set for a feature replaces its push timer: the feature's old timer is cancelled,
  one new repeating timer with the rate in seconds is armed and recorded in the feature, and no
  other timer is touched.
\<close>

theorem push_rate_replaces_timer:
  assumes "alarm_inv s" and "find (\<lambda>p. te_uri_path p = u) (features s) = Some p" and "rate \<noteq> 0"
    and "atlas_telemetry_push_set (Some u) rate s = Some t"
  shows "\<exists>i. features t = upd_first (\<lambda>q. te_uri_path q = u) (\<lambda>q. q\<lparr>te_push_id := i\<rparr>) (features s) \<and> alarm_inv t \<and>
    alarm_active t = filter (\<lambda>a. fst a \<noteq> te_push_id p \<or> te_push_id p < 0) (alarm_active s) @
      (if i < 0 then [] else [(i, Push_alert_alarm_cb)]) \<and>
    (if i < 0 then True else timers t i = Some (timer_spec (ATLAS_ALARM_SEC_TO_MS rate) False))"
  using assms by (rule push_set_timer)

theorem push_rate_replaces_timer_witness:
  "\<exists>t i. atlas_telemetry_push_set (Some ''gateway/telemetry/packets_avg'') 30 telemetry_demo = Some t \<and>
    features t = upd_first (\<lambda>q. te_uri_path q = ''gateway/telemetry/packets_avg'') (\<lambda>q. q\<lparr>te_push_id := i\<rparr>)
      (features telemetry_demo) \<and> alarm_inv t \<and>
    alarm_active t = filter (\<lambda>a. fst a \<noteq> -1 \<or> -1 < (0::int)) (alarm_active telemetry_demo) @
      (if i < 0 then [] else [(i, Push_alert_alarm_cb)])"
proof -
  let ?p = "\<lparr>te_uri_path = ''gateway/telemetry/packets_avg'', te_payload_cb = Payload_packets_avg,
       te_push_id = -1, te_threshold_id = -1\<rparr>"
  have inv: "alarm_inv telemetry_demo" by (simp add: alarm_inv_def telemetry_demo_def)
  have f: "find (\<lambda>p. te_uri_path p = ''gateway/telemetry/packets_avg'') (features telemetry_demo) = Some ?p"
    by (simp add: telemetry_demo_def)
  obtain t where t: "atlas_telemetry_push_set (Some ''gateway/telemetry/packets_avg'') 30 telemetry_demo = Some t"
    by (simp add: atlas_telemetry_push_set_def f case_prod_beta Let_def)
  from push_rate_replaces_timer [OF inv f _ t] t show ?thesis by auto
qed

text \<open>
  The retry after a timeout looks the feature up by substring: the URI of the fifteen-minute load
  contains the path of the one-minute load, so a timeout of the former pushes the latter.
\<close>

theorem load15_timeout_retries_load1:
  assumes "features s = ps @ \<lparr>te_uri_path = ''gateway/telemetry/sysinfo/load1'', te_payload_cb = Payload_load1,
      te_push_id = i, te_threshold_id = j\<rparr> # qs"
    and "\<forall>p \<in> set ps. \<not> strstr (cfg_uri s ''gateway/telemetry/sysinfo/load15'') (te_uri_path p)"
  shows "telemetry_callback (cfg_uri s ''gateway/telemetry/sysinfo/load15'') ATLAS_COAP_RESP_TIMEOUT pl s =
    atlas_telemetry_push \<lparr>te_uri_path = ''gateway/telemetry/sysinfo/load1'', te_payload_cb = Payload_load1,
      te_push_id = i, te_threshold_id = j\<rparr> ATLAS_TELEMETRY_SKIP_THRESHOLD s"
proof -
  let ?u = "cfg_uri s ''gateway/telemetry/sysinfo/load15''"
  let ?l = "\<lparr>te_uri_path = ''gateway/telemetry/sysinfo/load1'', te_payload_cb = Payload_load1,
      te_push_id = i, te_threshold_id = j\<rparr>"
  have "strstr ?u ''gateway/telemetry/sysinfo/load1''"
    unfolding cfg_uri_def by (intro strstr_append) simp
  then have "find (\<lambda>p. strstr ?u (te_uri_path p)) (ps @ ?l # qs) = Some ?l"
    using assms(2) by (induction ps) auto
  then show ?thesis using assms(1) by (simp add: telemetry_callback_def)
qed

theorem load15_timeout_retries_load1_witness:
  "\<exists>s :: telemetry. telemetry_callback (cfg_uri s ''gateway/telemetry/sysinfo/load15'') ATLAS_COAP_RESP_TIMEOUT None s =
    atlas_telemetry_push \<lparr>te_uri_path = ''gateway/telemetry/sysinfo/load1'', te_payload_cb = Payload_load1,
      te_push_id = -1, te_threshold_id = -1\<rparr> ATLAS_TELEMETRY_SKIP_THRESHOLD s"
  using load15_timeout_retries_load1 [of "telemetry_demo\<lparr>features := [\<lparr>te_uri_path = ''gateway/telemetry/sysinfo/load1'',
      te_payload_cb = Payload_load1, te_push_id = -1, te_threshold_id = -1\<rparr>]\<rparr>" "[]" "-1" "-1" "[]" None]
  by auto

end
