(* ===== verification/Register.thy ===== *)
theory Register
  imports Alerts
begin

text \<open>
  Registration and keep-alive (src/register/atlas\_register.c): the register and keep-alive
  requests, the callbacks of their answers and the timers that repeat them. Its file-static
  variables are the fields \<open>registered\<close>, \<open>ka_token\<close>, \<open>ka_count\<close> and \<open>ka_alarm_id\<close> of \<open>Payloads\<close>.

  The lemmas give the messages sent, the state machine of the keep-alive counter (including the
  wrap-around of the counter, which registration does not initialise), the effect of a completed
  registration, and the case in which the client stays unregistered for ever.
\<close>

definition ATLAS_CLIENT_REGISTER_TIMEOUT_MS :: u16 where "ATLAS_CLIENT_REGISTER_TIMEOUT_MS = 5000"
definition ATLAS_CLIENT_KEEPALIVE_TIMEOUT_MS :: u32 where "ATLAS_CLIENT_KEEPALIVE_TIMEOUT_MS = 20000"
definition ATLAS_CLIENT_REGISTERED :: u8 where "ATLAS_CLIENT_REGISTERED = 1"
definition ATLAS_CLIENT_NOT_REGISTERED :: u8 where "ATLAS_CLIENT_NOT_REGISTERED = 0"
definition ATLAS_CLIENT_KEEPALIVE_COUNT :: u8 where "ATLAS_CLIENT_KEEPALIVE_COUNT = 3"
definition ATLAS_CLIENT_REGISTER_COAP_PATH :: string where "ATLAS_CLIENT_REGISTER_COAP_PATH = ''gateway/register''"
definition ATLAS_CLIENT_KEEPALIVE_COAP_PATH :: string where "ATLAS_CLIENT_KEEPALIVE_COAP_PATH = ''gateway/keepalive''"

section \<open>Requests\<close>

definition send_register_command :: "'a telemetry_scheme \<Rightarrow> 'a telemetry_scheme option" where
  "send_register_command s = do {
     let idy = atlas_identity_get s;
     (status, ipPort, s1) \<leftarrow> atlas_cfg_get_local_ipPort (ATLAS_IP_MAX_LEN + 6) s;
     b \<leftarrow> atlas_cmd_batch_add atlas_cmd_batch_new (cmd_code ATLAS_CMD_REGISTER) (of_nat (length idy)) (str_bytes idy);
     b \<leftarrow> atlas_cmd_batch_add b (cmd_code ATLAS_CMD_IP_PORT) (of_nat (length ipPort)) (str_bytes ipPort);
     let (cmd_buf, cmd_len) = atlas_cmd_batch_get_buf b (None, 0);
     uri \<leftarrow> atlas_cfg_coap_get_uri (Some ATLAS_CLIENT_REGISTER_COAP_PATH) ATLAS_URI_MAX_LEN (Some '''') s1;
     (st, s2) \<leftarrow> atlas_coap_client_request uri ATLAS_COAP_METHOD_POST cmd_buf (unat cmd_len)
            ATLAS_CLIENT_REGISTER_TIMEOUT_MS (Some Reg_callback) s1;
     Some s2 }"

definition send_keepalive_command :: "'a telemetry_scheme \<Rightarrow> 'a telemetry_scheme option" where
  "send_keepalive_command s = do {
     let idy = atlas_identity_get s;
     (status, ipPort, s1) \<leftarrow> atlas_cfg_get_local_ipPort (ATLAS_IP_MAX_LEN + 6) s;
     b \<leftarrow> atlas_cmd_batch_add atlas_cmd_batch_new (cmd_code ATLAS_CMD_IDENTITY) (of_nat (length idy)) (str_bytes idy);
     let s2 = s1\<lparr>ka_token := ka_token s1 + 1\<rparr>;
     b \<leftarrow> atlas_cmd_batch_add b (cmd_code ATLAS_CMD_KEEPALIVE) 2 (bytes_of_u16 (ka_token s2));
     b \<leftarrow> atlas_cmd_batch_add b (cmd_code ATLAS_CMD_IP_PORT) (of_nat (length ipPort)) (str_bytes ipPort);
     let (cmd_buf, cmd_len) = atlas_cmd_batch_get_buf b (None, 0);
     uri \<leftarrow> atlas_cfg_coap_get_uri (Some ATLAS_CLIENT_KEEPALIVE_COAP_PATH) ATLAS_URI_MAX_LEN (Some '''') s2;
     (st, s3) \<leftarrow> atlas_coap_client_request uri ATLAS_COAP_METHOD_PUT cmd_buf (unat cmd_len)
            ATLAS_CLIENT_REGISTER_TIMEOUT_MS (Some Keepalive_callback) s2;
     Some s3 }"

definition keepalive_alarm_callback :: "int \<Rightarrow> 'a telemetry_scheme \<Rightarrow> 'a telemetry_scheme option" where
  "keepalive_alarm_callback alarm_id s = send_keepalive_command s"

definition reg_alarm_callback :: "int \<Rightarrow> 'a telemetry_scheme \<Rightarrow> 'a telemetry_scheme option" where
  "reg_alarm_callback alarm_id s = send_register_command s"

definition atlas_register_start :: "'a telemetry_scheme \<Rightarrow> 'a telemetry_scheme option" where
  "atlas_register_start s = send_register_command s"

section \<open>Answers\<close>

text \<open>The code at the label \<open>ERR\<close>: the counter is a \<open>uint8_t\<close>.\<close>

definition keepalive_err :: "'a telemetry_scheme \<Rightarrow> 'a telemetry_scheme option" where
  "keepalive_err s =
     (let s1 = s\<lparr>ka_count := ka_count s - 1\<rparr> in
      if ka_count s1 = 0 then
        let s2 = s1\<lparr>registered := ATLAS_CLIENT_NOT_REGISTERED\<rparr>;
            s3 = atlas_alarm_cancel (ka_alarm_id s2) s2
        in send_register_command (s3\<lparr>ka_alarm_id := -1\<rparr>)
      else Some s1)"

definition keepalive_callback ::
    "string \<Rightarrow> atlas_coap_response \<Rightarrow> byte list ptr \<Rightarrow> 'a telemetry_scheme \<Rightarrow> 'a telemetry_scheme option" where
  "keepalive_callback uri resp_status resp_payload s =
     (if resp_status \<noteq> ATLAS_COAP_RESP_OK then
        keepalive_err
          (if resp_status = ATLAS_COAP_RESP_NOT_FOUND \<or> resp_status = ATLAS_COAP_RESP_NOT_ACCEPTABLE_HERE
           then s\<lparr>ka_count := 1\<rparr> else s)
      else case resp_payload of
        None \<Rightarrow> keepalive_err s
      | Some p \<Rightarrow>
          if length p < 2 then keepalive_err s
          else if ka_token s \<noteq> u16_of_bytes (take 2 p) then keepalive_err s
          else Some (s\<lparr>ka_count := ATLAS_CLIENT_KEEPALIVE_COUNT\<rparr>))"

definition reg_callback ::
    "string \<Rightarrow> atlas_coap_response \<Rightarrow> byte list ptr \<Rightarrow> 'a telemetry_scheme \<Rightarrow> 'a telemetry_scheme option" where
  "reg_callback uri resp_status resp_payload s =
     (if resp_status \<noteq> ATLAS_COAP_RESP_OK
      then Some (snd (atlas_alarm_set (ucast ATLAS_CLIENT_REGISTER_TIMEOUT_MS) Reg_alarm_callback True s))
      else do {
        s1 \<leftarrow> (if registered s = ATLAS_CLIENT_NOT_REGISTERED then send_policy_command s else Some s);
        let s2 = s1\<lparr>registered := ATLAS_CLIENT_REGISTERED\<rparr>;
        s3 \<leftarrow> atlas_telemetry_push_all s2;
        let (i, s4) = atlas_alarm_set ATLAS_CLIENT_KEEPALIVE_TIMEOUT_MS Keepalive_alarm_callback False s3;
        Some (s4\<lparr>ka_alarm_id := i\<rparr>) })"

section \<open>Lemmas: messages\<close>

lemma local_ipPort_cases:
  assumes "cfg_ok s"
  shows "\<exists>st ip k. atlas_cfg_get_local_ipPort (ATLAS_IP_MAX_LEN + 6) s = Some (st, ip, s\<lparr>clock := k\<rparr>) \<and>
    length ip \<le> 21 \<and> clock s \<le> k \<and> (fd_pick s = -1 \<longrightarrow> ip = '''') \<and>
    (fd_pick s \<noteq> -1 \<longrightarrow> (\<exists>a. ip = inet_ntoa a @ '':'' @ show_dec (unat (local_port s))))"
proof -
  obtain i where i: "local_iface s = Some i" using assms by (auto simp: cfg_ok_def)
  show ?thesis
  proof (cases "fd_pick s = -1")
    case True
    then have "atlas_cfg_get_local_ipPort (ATLAS_IP_MAX_LEN + 6) s = Some (ATLAS_GENERAL_ERR, '''', s\<lparr>clock := Suc (clock s)\<rparr>)"
      by (simp add: atlas_cfg_get_local_ipPort_def atlas_cfg_get_local_ip_def fd_new_def)
    then show ?thesis using True
      by (intro exI [of _ ATLAS_GENERAL_ERR] exI [of _ "''''"] exI [of _ "Suc (clock s)"]) simp
  next
    case False
    then have p: "0 \<le> fd_pick s" using fd_pick_cases [of s] by auto
    have "removeAll (fd_pick s) (fds s) = fds s" using fd_new_fresh [OF p] by simp
    then have eq: "s\<lparr>clock := Suc (Suc (clock s)), fds := removeAll (fd_pick s) (fds s)\<rparr> = s\<lparr>clock := Suc (Suc (clock s))\<rparr>"
      by simp
    let ?a = "e_ifaddr s (Suc (clock s)) (take 15 (hs_str i))"
    let ?ip = "inet_ntoa ?a @ '':'' @ show_dec (unat (local_port s))"
    have "length ?ip \<le> 21"
      using add_mono [OF length_inet_ntoa [of ?a] length_show_u16 [of "local_port s"]] by simp
    moreover have "atlas_cfg_get_local_ipPort (ATLAS_IP_MAX_LEN + 6) s =
        Some (ATLAS_OK, ?ip, s\<lparr>clock := Suc (Suc (clock s))\<rparr>)"
      using get_local_ipPort_ok [OF i p] unfolding eq .
    moreover have "clock s \<le> Suc (Suc (clock s))" by simp
    ultimately show ?thesis using False
      by (intro exI [of _ ATLAS_OK] exI [of _ ?ip] exI [of _ "Suc (Suc (clock s))"]) blast
  qed
qed

lemma send_register_refines:
  assumes "cfg_ok s" and "ident_ok s"
  shows "\<exists>ip k. send_register_command s =
      sends ATLAS_CLIENT_REGISTER_COAP_PATH ATLAS_COAP_METHOD_POST
        [(0, str_bytes (atlas_identity_get s)), (3, str_bytes ip)] 5000 Reg_callback (s\<lparr>clock := k\<rparr>) \<and> clock s \<le> k \<and>
    (fd_pick s = -1 \<longrightarrow> ip = '''') \<and>
    (fd_pick s \<noteq> -1 \<longrightarrow> (\<exists>a. ip = inet_ntoa a @ '':'' @ show_dec (unat (local_port s))))"
proof -
  from local_ipPort_cases [OF assms(1)] obtain st ip k where
    ip: "atlas_cfg_get_local_ipPort (ATLAS_IP_MAX_LEN + 6) s = Some (st, ip, s\<lparr>clock := k\<rparr>)" "length ip \<le> 21" and ge: "clock s \<le> k"
    and shape: "fd_pick s = -1 \<longrightarrow> ip = ''''"
      "fd_pick s \<noteq> -1 \<longrightarrow> (\<exists>a. ip = inet_ntoa a @ '':'' @ show_dec (unat (local_port s)))" by blast
  let ?xs = "[(0, str_bytes (atlas_identity_get s)), (3, str_bytes ip)] :: tlv list"
  have id: "length (atlas_identity_get s) \<le> 64" using assms(2) by (rule id_len)
  have cfg: "cfg_ok (s\<lparr>clock := k\<rparr>)" using assms(1) by (simp add: cfg_ok_def)
  have path: "length ATLAS_CLIENT_REGISTER_COAP_PATH \<le> 112" by (simp add: ATLAS_CLIENT_REGISTER_COAP_PATH_def)
  have len: "length (enc_tlvs ?xs) < 65536" using id ip(2) by simp
  have b: "atlas_cmd_batch_add (Some (mk_batch [(0, str_bytes (atlas_identity_get s))])) 3 (of_nat (length ip)) (str_bytes ip) =
      Some (Some (mk_batch ?xs))"
    using atlas_cmd_batch_add_bytes [of "[(0, str_bytes (atlas_identity_get s))]" 3 "str_bytes ip"] id ip(2) by simp
  have "send_register_command s =
      do { uri \<leftarrow> atlas_cfg_coap_get_uri (Some ATLAS_CLIENT_REGISTER_COAP_PATH) ATLAS_URI_MAX_LEN (Some '''') (s\<lparr>clock := k\<rparr>);
           (st, s1) \<leftarrow> atlas_coap_client_request uri ATLAS_COAP_METHOD_POST (fst (atlas_cmd_batch_get_buf (Some (mk_batch ?xs)) (None, 0)))
               (unat (snd (atlas_cmd_batch_get_buf (Some (mk_batch ?xs)) (None, 0)))) 5000 (Some Reg_callback) (s\<lparr>clock := k\<rparr>);
           Some s1 }"
    unfolding send_register_command_def Let_def ip(1)
    using id by (simp add: batch_add_new b ATLAS_CLIENT_REGISTER_TIMEOUT_MS_def case_prod_beta [of _ "atlas_cmd_batch_get_buf _ _"])
  also have "\<dots> = sends ATLAS_CLIENT_REGISTER_COAP_PATH ATLAS_COAP_METHOD_POST ?xs 5000 Reg_callback (s\<lparr>clock := k\<rparr>)"
    by (rule send_steps [OF cfg path _ len]) simp
  finally show ?thesis using shape ge by blast
qed

lemma send_keepalive_refines:
  assumes "cfg_ok s" and "ident_ok s"
  shows "\<exists>ip k. send_keepalive_command s =
      sends ATLAS_CLIENT_KEEPALIVE_COAP_PATH ATLAS_COAP_METHOD_PUT
        [(2, str_bytes (atlas_identity_get s)), (1, bytes_of_u16 (ka_token s + 1)), (3, str_bytes ip)] 5000 Keepalive_callback
        (s\<lparr>clock := k, ka_token := ka_token s + 1\<rparr>) \<and> clock s \<le> k"
proof -
  from local_ipPort_cases [OF assms(1)] obtain st ip k where
    ip: "atlas_cfg_get_local_ipPort (ATLAS_IP_MAX_LEN + 6) s = Some (st, ip, s\<lparr>clock := k\<rparr>)" "length ip \<le> 21" and ge: "clock s \<le> k" by blast
  let ?id = "str_bytes (atlas_identity_get s)" and ?t = "bytes_of_u16 (ka_token s + 1)"
  let ?xs = "[(2, ?id), (1, ?t), (3, str_bytes ip)] :: tlv list" and ?s = "s\<lparr>clock := k, ka_token := ka_token s + 1\<rparr>"
  have id: "length (atlas_identity_get s) \<le> 64" using assms(2) by (rule id_len)
  have cfg: "cfg_ok ?s" using assms(1) by (simp add: cfg_ok_def)
  have path: "length ATLAS_CLIENT_KEEPALIVE_COAP_PATH \<le> 112" by (simp add: ATLAS_CLIENT_KEEPALIVE_COAP_PATH_def)
  have len: "length (enc_tlvs ?xs) < 65536" using id ip(2) by simp
  have b1: "atlas_cmd_batch_add (Some (mk_batch [(2, ?id)])) 1 2 ?t = Some (Some (mk_batch [(2, ?id), (1, ?t)]))"
    using atlas_cmd_batch_add_bytes [of "[(2, ?id)]" 1 ?t] id by simp
  have b2: "atlas_cmd_batch_add (Some (mk_batch [(2, ?id), (1, ?t)])) 3 (of_nat (length ip)) (str_bytes ip) =
      Some (Some (mk_batch ?xs))"
    using atlas_cmd_batch_add_bytes [of "[(2, ?id), (1, ?t)]" 3 "str_bytes ip"] id ip(2) by simp
  have "send_keepalive_command s =
      do { uri \<leftarrow> atlas_cfg_coap_get_uri (Some ATLAS_CLIENT_KEEPALIVE_COAP_PATH) ATLAS_URI_MAX_LEN (Some '''') ?s;
           (st, s1) \<leftarrow> atlas_coap_client_request uri ATLAS_COAP_METHOD_PUT (fst (atlas_cmd_batch_get_buf (Some (mk_batch ?xs)) (None, 0)))
               (unat (snd (atlas_cmd_batch_get_buf (Some (mk_batch ?xs)) (None, 0)))) 5000 (Some Keepalive_callback) ?s;
           Some s1 }"
    unfolding send_keepalive_command_def Let_def ip(1)
    using id by (simp add: batch_add_new b1 b2 ATLAS_CLIENT_REGISTER_TIMEOUT_MS_def case_prod_beta [of _ "atlas_cmd_batch_get_buf _ _"])
  also have "\<dots> = sends ATLAS_CLIENT_KEEPALIVE_COAP_PATH ATLAS_COAP_METHOD_PUT ?xs 5000 Keepalive_callback ?s"
    by (rule send_steps [OF cfg path _ len]) simp
  finally show ?thesis using ge by blast
qed

text \<open>What a single request does to the rest of the state and to what is sent.\<close>

lemma sends_push_frame:
  assumes "sends path m xs tmo cb s = Some t" and "-1 \<notin> set (fds s)"
  shows "push_frame s t \<and> (outs t = outs s \<or>
    outs t = outs s @ [Coap_request (request_code m) (cfg_uri s path) (token_ctr s) (enc_tlvs xs)])"
proof -
  note sn = sends_sent_or_not [OF assms]
  have "push_frame s t" using sent_or_not_frame [OF sn] by (simp add: push_frame_def)
  then show ?thesis using sn by (auto simp: sent_or_not_def request_sent_def)
qed

lemma send_register_sent_or_not:
  assumes "conn_env s"
  shows "\<exists>ip k t. send_register_command s = Some t \<and>
    sent_or_not (cfg_uri s ATLAS_CLIENT_REGISTER_COAP_PATH) ATLAS_COAP_METHOD_POST
      (enc_tlvs [(0, str_bytes (atlas_identity_get s)), (3, str_bytes ip)]) 5000 Reg_callback (s\<lparr>clock := k\<rparr>) t \<and>
    (if fd_pick s = -1 then ip = '''' else (\<exists>a. ip = inet_ntoa a @ '':'' @ show_dec (unat (local_port s))))"
proof -
  have env: "cfg_ok s" "ident_ok s" using assms by (simp_all add: conn_env_def)
  from send_register_refines [OF env] obtain ip k where
    r: "send_register_command s = sends ATLAS_CLIENT_REGISTER_COAP_PATH ATLAS_COAP_METHOD_POST
        [(0, str_bytes (atlas_identity_get s)), (3, str_bytes ip)] 5000 Reg_callback (s\<lparr>clock := k\<rparr>)"
    and ip: "fd_pick s = -1 \<longrightarrow> ip = ''''"
      "fd_pick s \<noteq> -1 \<longrightarrow> (\<exists>a. ip = inet_ntoa a @ '':'' @ show_dec (unat (local_port s)))"
    by (elim exE conjE) (rule that)
  from sends_total obtain t where t: "sends ATLAS_CLIENT_REGISTER_COAP_PATH ATLAS_COAP_METHOD_POST
        [(0, str_bytes (atlas_identity_get s)), (3, str_bytes ip)] 5000 Reg_callback (s\<lparr>clock := k\<rparr>) = Some t"
    by blast
  have "-1 \<notin> set (fds (s\<lparr>clock := k\<rparr>))" using assms by (simp add: conn_env_def)
  from sends_sent_or_not [OF t this] r t ip show ?thesis
    by (intro exI [of _ ip] exI [of _ k] exI [of _ t]) (simp add: cfg_uri_def)
qed

section \<open>Lemmas: the keep-alive counter\<close>

text \<open>
  An answer that counts as a failure without forcing the registration: an error status other than
  not-found and not-acceptable, or a success that does not carry the token.
\<close>

definition ka_failure :: "u16 \<Rightarrow> atlas_coap_response \<times> byte list ptr \<Rightarrow> bool" where
  "ka_failure token a \<longleftrightarrow> (case a of (st, p) \<Rightarrow>
     st \<noteq> ATLAS_COAP_RESP_NOT_FOUND \<and> st \<noteq> ATLAS_COAP_RESP_NOT_ACCEPTABLE_HERE \<and>
     (st = ATLAS_COAP_RESP_OK \<longrightarrow> (case p of None \<Rightarrow> True | Some b \<Rightarrow> length b < 2 \<or> u16_of_bytes (take 2 b) \<noteq> token)))"

text \<open>A sequence of answers to the keep-alive requests.\<close>

fun keepalive_answers ::
    "string \<Rightarrow> (atlas_coap_response \<times> byte list ptr) list \<Rightarrow> 'a telemetry_scheme \<Rightarrow> 'a telemetry_scheme option" where
  "keepalive_answers uri [] s = Some s"
| "keepalive_answers uri ((st, p) # as) s = do { s1 \<leftarrow> keepalive_callback uri st p s; keepalive_answers uri as s1 }"

text \<open>The failures the client tolerates: the counter counts down before it is compared with zero.\<close>

definition ka_budget :: "u8 \<Rightarrow> nat" where
  "ka_budget c = (if c = 0 then 256 else unat c)"

text \<open>The client gives up its registration.\<close>

definition unregistered :: "'a telemetry_scheme \<Rightarrow> 'a telemetry_scheme" where
  "unregistered s = (atlas_alarm_cancel (ka_alarm_id s) (s\<lparr>ka_count := 0, registered := 0\<rparr>))\<lparr>ka_alarm_id := -1\<rparr>"

lemma keepalive_callback_failure:
  assumes "ka_failure (ka_token s) (st, p)"
  shows "keepalive_callback uri st p s = keepalive_err s"
  using assms by (auto simp: keepalive_callback_def ka_failure_def split: option.splits)

lemma keepalive_err_eq:
  "keepalive_err s = (if ka_count s = 1 then send_register_command (unregistered s)
     else Some (s\<lparr>ka_count := ka_count s - 1\<rparr>))"
proof (cases "ka_count s = 1")
  case True
  then show ?thesis
    by (simp add: keepalive_err_def unregistered_def Let_def ATLAS_CLIENT_NOT_REGISTERED_def)
next
  case False
  then have "ka_count s - 1 \<noteq> 0" by auto
  then show ?thesis using False by (simp add: keepalive_err_def Let_def)
qed

lemma ka_budget_pos: "0 < ka_budget c"
  by (simp add: ka_budget_def unat_gt_0)

lemma unat_u8_minus_1: "unat (-1 :: u8) = 255"
  by (transfer, simp add: take_bit_minus_one_eq_mask mask_eq_exp_minus_1)

lemma ka_budget_step:
  assumes "c \<noteq> 1"
  shows "ka_budget c = Suc (ka_budget (c - 1))"
proof (cases "c = 0")
  case True
  then have "unat (c - 1) = 255" by (simp add: unat_u8_minus_1)
  then show ?thesis using True by (auto simp: ka_budget_def)
next
  case False
  then have "unat (c - 1) = unat c - 1" by (rule unat_minus_one)
  moreover have "c - 1 \<noteq> 0" using assms by auto
  ultimately show ?thesis using False by (simp add: ka_budget_def unat_gt_0)
qed

lemma ka_budget_1: "ka_budget 1 = 1" by (simp add: ka_budget_def)

lemma ka_failures:
  assumes "\<forall>a \<in> set as. ka_failure (ka_token s) a" and "length as < ka_budget (ka_count s)"
  shows "keepalive_answers uri as s = Some (s\<lparr>ka_count := ka_count s - of_nat (length as)\<rparr>) \<and>
    ka_budget (ka_count s - of_nat (length as)) = ka_budget (ka_count s) - length as"
  using assms
proof (induction as arbitrary: s)
  case Nil
  then show ?case by simp
next
  case (Cons a as)
  obtain st p where a: "a = (st, p)" by (cases a)
  have c: "ka_count s \<noteq> 1" using Cons.prems(2) by (auto simp: ka_budget_1)
  have f: "keepalive_callback uri st p s = Some (s\<lparr>ka_count := ka_count s - 1\<rparr>)"
    using Cons.prems(1) c by (simp add: a keepalive_callback_failure keepalive_err_eq)
  have "length as < ka_budget (ka_count s - 1)" using Cons.prems(2) ka_budget_step [OF c] by simp
  with Cons.IH [of "s\<lparr>ka_count := ka_count s - 1\<rparr>"] Cons.prems(1) ka_budget_step [OF c] f show ?case
    by (simp add: a algebra_simps)
qed

lemma keepalive_answers_append:
  "keepalive_answers uri (as @ bs) s = do { s1 \<leftarrow> keepalive_answers uri as s; keepalive_answers uri bs s1 }"
  by (induction as arbitrary: s) (auto split: bind_splits)

lemma unregistered_fields:
  "registered (unregistered s) = 0" "ka_alarm_id (unregistered s) = -1" "ka_count (unregistered s) = 0"
  "ka_token (unregistered s) = ka_token s" "outs (unregistered s) = outs s"
  "gw_hostname (unregistered s) = gw_hostname s" "gw_port (unregistered s) = gw_port s"
  "local_iface (unregistered s) = local_iface s" "identity_str (unregistered s) = identity_str s"
  "psk_str (unregistered s) = psk_str s" "set (fds (unregistered s)) \<subseteq> set (fds s)"
  by (auto simp: unregistered_def alarm_defs Let_def)

lemma unregistered_alarms:
  assumes "alarm_inv s"
  shows "alarm_active (unregistered s) = filter (\<lambda>a. fst a \<noteq> ka_alarm_id s) (alarm_active s)"
proof -
  have "alarm_inv (s\<lparr>ka_count := 0, registered := 0\<rparr>)" using assms by (simp add: alarm_inv_def)
  from alarms.active_cancel [OF this, of "ka_alarm_id s"] show ?thesis
    by (simp add: unregistered_def alarm_active_def)
qed

lemma conn_env_unregistered: "conn_env s \<Longrightarrow> conn_env (unregistered s)"
  using unregistered_fields [of s] by (auto simp: conn_env_def cfg_ok_def ident_ok_def)

text \<open>The state the client is in once it has given up its registration and asked for a new one.\<close>

lemma send_register_unregistered:
  assumes "conn_env s"
  shows "\<exists>t. send_register_command (unregistered s) = Some t \<and> registered t = 0 \<and> ka_alarm_id t = -1 \<and>
    (outs t = outs s \<or> (\<exists>tk b. outs t = outs s @
       [Coap_request ATLAS_COAP_METHOD_POST (cfg_uri s ATLAS_CLIENT_REGISTER_COAP_PATH) tk b]))"
proof -
  note env = conn_env_unregistered [OF assms]
  from send_register_refines [of "unregistered s"] env obtain ip k where
    r: "send_register_command (unregistered s) = sends ATLAS_CLIENT_REGISTER_COAP_PATH ATLAS_COAP_METHOD_POST
        [(0, str_bytes (atlas_identity_get (unregistered s))), (3, str_bytes ip)] 5000 Reg_callback
        ((unregistered s)\<lparr>clock := k\<rparr>)"
    by (auto simp: conn_env_def)
  from sends_total obtain t where t: "sends ATLAS_CLIENT_REGISTER_COAP_PATH ATLAS_COAP_METHOD_POST
        [(0, str_bytes (atlas_identity_get (unregistered s))), (3, str_bytes ip)] 5000 Reg_callback
        ((unregistered s)\<lparr>clock := k\<rparr>) = Some t" by blast
  have "-1 \<notin> set (fds ((unregistered s)\<lparr>clock := k\<rparr>))" using env by (simp add: conn_env_def)
  note f = sends_push_frame [OF t this]
  have uri: "cfg_uri ((unregistered s)\<lparr>clock := k\<rparr>) = cfg_uri s"
    by (simp add: cfg_uri_def fun_eq_iff unregistered_fields)
  have m: "coap_server.more t = coap_server.more ((unregistered s)\<lparr>clock := k\<rparr>)" using f by (simp add: push_frame_def)
  have "registered t = 0" "ka_alarm_id t = -1" using more_fields(2,5) [OF m] by (simp_all add: unregistered_fields)
  then show ?thesis using r t f by (auto simp: uri unregistered_fields)
qed

section \<open>Lemmas: completion of the registration\<close>

lemma push_env_policy:
  assumes "push_env s"
  shows "\<exists>t xs. send_policy_command s = Some t \<and> push_frame s t \<and> outs t = outs s @ xs \<and>
    (xs = [] \<or> active_policy s = 1 \<and> map request_uri xs = [Some (cfg_uri s ATLAS_CLIENT_POLICY_COAP_PATH)])"
proof (cases "active_policy s = 1")
  case True
  have env: "cfg_ok s" "-1 \<notin> set (fds s)" using assms by (simp_all add: push_env_def conn_env_def)
  from True send_policy_refines [OF env(1)] have p: "send_policy_command s =
      sends ATLAS_CLIENT_POLICY_COAP_PATH ATLAS_COAP_METHOD_PUT
        (policy_tlvs (policy_qos s) (policy_packets_per_min s) (policy_packets_maxlen s)) 5000 Policy_callback s" by simp
  from sends_total obtain t where t: "sends ATLAS_CLIENT_POLICY_COAP_PATH ATLAS_COAP_METHOD_PUT
        (policy_tlvs (policy_qos s) (policy_packets_per_min s) (policy_packets_maxlen s)) 5000 Policy_callback s = Some t"
    by blast
  from sends_push_frame [OF t env(2)] show ?thesis using p t True by (auto simp: request_uri_def)
next
  case False
  then show ?thesis by (simp add: send_policy_command_def ATLAS_CLIENT_POLICY_ACTIVE_def push_frame_refl)
qed

text \<open>The keep-alive timer a completed registration starts.\<close>

definition ka_timer_started :: "'a telemetry_scheme \<Rightarrow> bool" where
  "ka_timer_started t \<longleftrightarrow> ka_alarm_id t = -1 \<or>
     ((\<exists>as. alarm_active t = as @ [(ka_alarm_id t, Keepalive_alarm_callback)]) \<and>
      timers t (ka_alarm_id t) = Some (timer_spec 20000 False))"

lemma alarm_set_timer:
  assumes "0 \<le> fst (atlas_alarm_set ms c r s)"
  shows "timers (snd (atlas_alarm_set ms c r s)) (fst (atlas_alarm_set ms c r s)) = Some (timer_spec ms r)"
  using assms fd_pick_cases [of s] by (auto simp: alarm_defs Let_def split: if_splits)

lemma alarm_set_upper:
  "coap_server.more (snd (atlas_alarm_set ms c r s)) = coap_server.more s"
  "outs (snd (atlas_alarm_set ms c r s)) = outs s"
  by (simp_all add: alarm_defs Let_def)

lemma reg_callback_timer:
  assumes "atlas_alarm_set ATLAS_CLIENT_KEEPALIVE_TIMEOUT_MS Keepalive_alarm_callback False s = (i, t)"
  shows "ka_timer_started (t\<lparr>ka_alarm_id := i\<rparr>)"
proof (cases "i < 0")
  case True
  then show ?thesis using assms atlas_alarm_set_neg_iff [of ATLAS_CLIENT_KEEPALIVE_TIMEOUT_MS Keepalive_alarm_callback False s]
    by (simp add: ka_timer_started_def)
next
  case False
  let ?r = "atlas_alarm_set ATLAS_CLIENT_KEEPALIVE_TIMEOUT_MS Keepalive_alarm_callback False s"
  have i: "0 \<le> fst ?r" using assms False by simp
  then have "alarm_active (snd ?r) = alarm_active s @ [(fst ?r, Keepalive_alarm_callback)]"
    by (auto simp: alarm_active_def atlas_alarm_set_entries atlas_alarm_set_result split: if_splits)
  with alarm_set_timer [OF i] show ?thesis
    using assms by (simp add: ka_timer_started_def alarm_active_def ATLAS_CLIENT_KEEPALIVE_TIMEOUT_MS_def)
qed

lemma reg_callback_ok:
  assumes "push_env s"
  shows "\<exists>t pol xs. reg_callback uri ATLAS_COAP_RESP_OK p s = Some t \<and>
    outs t = outs s @ pol @ xs \<and>
    (pol = [] \<or> registered s = 0 \<and> active_policy s = 1 \<and>
       map request_uri pol = [Some (cfg_uri s ATLAS_CLIENT_POLICY_COAP_PATH)]) \<and>
    subseq (map request_uri xs) (map (\<lambda>f. Some (cfg_uri s (te_uri_path f))) (features s)) \<and>
    registered t = 1 \<and> ka_count t = ka_count s \<and> ka_token t = ka_token s \<and> features t = features s \<and>
    ka_timer_started t"
proof -
  have "\<exists>s1 pol. (if registered s = ATLAS_CLIENT_NOT_REGISTERED then send_policy_command s else Some s) = Some s1 \<and>
      push_frame s s1 \<and> outs s1 = outs s @ pol \<and> (pol = [] \<or> registered s = 0 \<and> active_policy s = 1 \<and>
       map request_uri pol = [Some (cfg_uri s ATLAS_CLIENT_POLICY_COAP_PATH)])"
    using push_env_policy [OF assms] by (auto simp: ATLAS_CLIENT_NOT_REGISTERED_def push_frame_refl)
  then obtain s1 pol where s1: "(if registered s = ATLAS_CLIENT_NOT_REGISTERED then send_policy_command s else Some s) = Some s1"
      "push_frame s s1" "outs s1 = outs s @ pol"
    and pol: "pol = [] \<or> registered s = 0 \<and> active_policy s = 1 \<and>
       map request_uri pol = [Some (cfg_uri s ATLAS_CLIENT_POLICY_COAP_PATH)]"
    by (elim exE conjE) (rule that)
  let ?s2 = "s1\<lparr>registered := 1\<rparr>"
  have m1: "coap_server.more s1 = coap_server.more s" using s1(2) by (simp add: push_frame_def)
  have env2: "push_env ?s2" using push_env_frame [OF assms s1(2)]
    by (auto simp: push_env_def conn_env_def cfg_ok_def ident_ok_def)
  from push_all_ok [OF env2] obtain s3 xs where s3: "atlas_telemetry_push_all ?s2 = Some s3" "push_frame ?s2 s3"
      "outs s3 = outs ?s2 @ xs"
    and xs: "subseq (map request_uri xs) (map (\<lambda>p. Some (cfg_uri ?s2 (te_uri_path p))) (features ?s2))" by auto
  have m3: "coap_server.more s3 = coap_server.more ?s2" using s3(2) by (simp add: push_frame_def)
  obtain i s4 where s4: "atlas_alarm_set ATLAS_CLIENT_KEEPALIVE_TIMEOUT_MS Keepalive_alarm_callback False s3 = (i, s4)"
    by (cases "atlas_alarm_set ATLAS_CLIENT_KEEPALIVE_TIMEOUT_MS Keepalive_alarm_callback False s3")
  have m4: "coap_server.more s4 = coap_server.more s3" and o4: "outs s4 = outs s3"
    using alarm_set_upper [of ATLAS_CLIENT_KEEPALIVE_TIMEOUT_MS Keepalive_alarm_callback False s3] s4 by simp_all
  have uri: "cfg_uri ?s2 = cfg_uri s" using cfg_uri_frame [OF s1(2)] by (simp add: cfg_uri_def fun_eq_iff)
  have "reg_callback uri ATLAS_COAP_RESP_OK p s = Some (s4\<lparr>ka_alarm_id := i\<rparr>)"
    using s1(1) s3(1) s4 by (simp add: reg_callback_def ATLAS_CLIENT_REGISTERED_def)
  then show ?thesis
    using pol xs s1(3) s3(3) o4 uri reg_callback_timer [OF s4] more_fields [OF m1] more_fields [OF m3] more_fields [OF m4]
    by (intro exI [of _ "s4\<lparr>ka_alarm_id := i\<rparr>"] exI [of _ pol] exI [of _ xs]) simp
qed

section \<open>Properties\<close>

definition register_demo :: telemetry where
  "register_demo = telemetry_demo\<lparr>registered := 0, active_policy := 1\<rparr>"

lemma register_demo_env: "push_env register_demo" "conn_env register_demo"
  using telemetry_demo_env by (simp_all add: register_demo_def push_env_def conn_env_def cfg_ok_def ident_ok_def)

text \<open>
  The register request: the client always gets past building it; it is a POST to
  \<open>gateway/register\<close> carrying the client's identity and, when a socket could be opened to
  read it, the local address and port in the form \<open>a.b.c.d:port\<close>. Either the request is
  registered whole (context, timer of 5 s, entry and token), or the state is unchanged but for the
  token: in that case no timer and no request is left that would try again.
\<close>

theorem register_request_sent:
  assumes "conn_env s"
  shows "\<exists>ip k t. atlas_register_start s = Some t \<and>
    sent_or_not (cfg_uri s ''gateway/register'') ATLAS_COAP_METHOD_POST
      (enc_tlvs [(0, str_bytes (atlas_identity_get s)), (3, str_bytes ip)]) 5000 Reg_callback (s\<lparr>clock := k\<rparr>) t \<and>
    (if fd_pick s = -1 then ip = '''' else (\<exists>a. ip = inet_ntoa a @ '':'' @ show_dec (unat (local_port s))))"
  using send_register_sent_or_not [OF assms]
  by (simp add: atlas_register_start_def ATLAS_CLIENT_REGISTER_COAP_PATH_def)

theorem register_request_sent_witness:
  "\<exists>ip k t. atlas_register_start register_demo = Some t \<and>
    sent_or_not (cfg_uri register_demo ''gateway/register'') ATLAS_COAP_METHOD_POST
      (enc_tlvs [(0, str_bytes (atlas_identity_get register_demo)), (3, str_bytes ip)]) 5000 Reg_callback
      (register_demo\<lparr>clock := k\<rparr>) t \<and>
    (if fd_pick register_demo = -1 then ip = ''''
     else (\<exists>a. ip = inet_ntoa a @ '':'' @ show_dec (unat (local_port register_demo))))"
  by (rule register_request_sent [OF register_demo_env(2)])





text \<open>
  The keep-alive token: after a keep-alive request was built for the next token, exactly the
  successful answers whose first two bytes are the bytes of that token restart the counter, and
  change nothing else; a not-found or not-acceptable answer makes the client register again at
  once, whatever the counter was.
\<close>

theorem keepalive_echo:
  assumes "conn_env s" and "send_keepalive_command s = Some t"
  shows "ka_token t = ka_token s + 1 \<and> registered t = registered s \<and> ka_count t = ka_count s \<and>
    (outs t = outs s \<or> (\<exists>ip. outs t = outs s @ [Coap_request ATLAS_COAP_METHOD_PUT (cfg_uri s ''gateway/keepalive'') (token_ctr s)
       (enc_tlvs [(2, str_bytes (atlas_identity_get s)), (1, bytes_of_u16 (ka_token s + 1)), (3, str_bytes ip)])])) \<and>
    keepalive_callback uri ATLAS_COAP_RESP_OK (Some (bytes_of_u16 (ka_token s + 1) @ rest)) t = Some (t\<lparr>ka_count := 3\<rparr>) \<and>
    (u16_of_bytes (take 2 b) \<noteq> ka_token s + 1 \<or> length b < 2 \<longrightarrow>
       keepalive_callback uri ATLAS_COAP_RESP_OK (Some b) t = keepalive_err t) \<and>
    keepalive_callback uri ATLAS_COAP_RESP_NOT_FOUND q t = send_register_command (unregistered t) \<and>
    keepalive_callback uri ATLAS_COAP_RESP_NOT_ACCEPTABLE_HERE q t = send_register_command (unregistered t)"
proof -
  from send_keepalive_refines [of s] assms obtain ip k where
    t: "sends ATLAS_CLIENT_KEEPALIVE_COAP_PATH ATLAS_COAP_METHOD_PUT
        [(2, str_bytes (atlas_identity_get s)), (1, bytes_of_u16 (ka_token s + 1)), (3, str_bytes ip)] 5000 Keepalive_callback
        (s\<lparr>clock := k, ka_token := ka_token s + 1\<rparr>) = Some t" by (auto simp: conn_env_def)
  let ?s = "s\<lparr>clock := k, ka_token := ka_token s + 1\<rparr>"
  have "-1 \<notin> set (fds ?s)" using assms(1) by (simp add: conn_env_def)
  note f = sends_push_frame [OF t this]
  have m: "coap_server.more t = coap_server.more ?s" using f by (simp add: push_frame_def)
  have fields: "ka_token t = ka_token s + 1" "registered t = registered s" "ka_count t = ka_count s"
    using more_fields [OF m] by simp_all
  have o: "outs t = outs s \<or> outs t = outs s @ [Coap_request ATLAS_COAP_METHOD_PUT (cfg_uri s ''gateway/keepalive'') (token_ctr s)
       (enc_tlvs [(2, str_bytes (atlas_identity_get s)), (1, bytes_of_u16 (ka_token s + 1)), (3, str_bytes ip)])]"
    using f by (simp add: cfg_uri_def ATLAS_CLIENT_KEEPALIVE_COAP_PATH_def)
  have u: "unregistered (t\<lparr>ka_count := 1\<rparr>) = unregistered t" by (simp add: unregistered_def)
  have "keepalive_callback uri st q t = send_register_command (unregistered t)"
    if "st = ATLAS_COAP_RESP_NOT_FOUND \<or> st = ATLAS_COAP_RESP_NOT_ACCEPTABLE_HERE" for st
    using that u by (auto simp: keepalive_callback_def keepalive_err_eq)
  moreover have "keepalive_callback uri ATLAS_COAP_RESP_OK (Some (bytes_of_u16 (ka_token s + 1) @ rest)) t = Some (t\<lparr>ka_count := 3\<rparr>)"
    using fields(1) by (simp add: keepalive_callback_def ATLAS_CLIENT_KEEPALIVE_COUNT_def)
  moreover have "u16_of_bytes (take 2 b) \<noteq> ka_token s + 1 \<or> length b < 2 \<longrightarrow>
       keepalive_callback uri ATLAS_COAP_RESP_OK (Some b) t = keepalive_err t"
    using fields(1) by (auto simp: keepalive_callback_def)
  ultimately show ?thesis using fields o by blast
qed

theorem keepalive_echo_witness:
  "\<exists>t. send_keepalive_command register_demo = Some t \<and> ka_token t = 1 \<and>
    keepalive_callback ''u'' ATLAS_COAP_RESP_OK (Some (bytes_of_u16 1)) t = Some (t\<lparr>ka_count := 3\<rparr>) \<and>
    keepalive_callback ''u'' ATLAS_COAP_RESP_OK (Some []) t = keepalive_err t"
proof -
  from send_keepalive_refines [of register_demo] register_demo_env(2) sends_total obtain t where
    t: "send_keepalive_command register_demo = Some t" by (metis conn_env_def)
  have "ka_token register_demo = 0" by (simp add: register_demo_def telemetry_demo_def)
  with keepalive_echo [OF register_demo_env(2) t, of "''u''" "[]" "[]" None] t show ?thesis by auto
qed

end
