(* ===== verification/Command_Execute.thy ===== *)
theory Command_Execute
  imports Alerts
begin

text \<open>
  Remote restart and shutdown (src/commands\_execute/): the end-point
  \<open>client/approved/command/push\<close>, the parser that schedules a one-shot alarm per command, and the
  alarm callbacks that call \<open>system\<close>. A flag refuses further requests once a command was scheduled.

  The lemmas show that nothing is executed when a request is parsed (only timers are set), which
  timers an accepted request sets, that the flag makes every later request deferred, for ever,
  and that one request may schedule both a restart and a shutdown.
\<close>

section \<open>State and commands\<close>

datatype atlas_cmd_exec_type = ATLAS_CMD_DEVICE_RESTART | ATLAS_CMD_DEVICE_SHUTDOWN | ATLAS_CMD_DEVICE_UNKNOWN

primrec exec_code :: "atlas_cmd_exec_type \<Rightarrow> u16" where
  "exec_code ATLAS_CMD_DEVICE_RESTART = 0"
| "exec_code ATLAS_CMD_DEVICE_SHUTDOWN = 1"
| "exec_code ATLAS_CMD_DEVICE_UNKNOWN = 2"

record execute = telemetry +
  cmdInProgress :: bool

definition ATLAS_CLIENT_COMMAND_EXECUTE_TIMEOUT_MS :: u32 where "ATLAS_CLIENT_COMMAND_EXECUTE_TIMEOUT_MS = 10"
definition ATLAS_COMMAND_EXECUTE_PATH :: string where "ATLAS_COMMAND_EXECUTE_PATH = ''client/approved/command/push''"

section \<open>Execution\<close>

definition atlas_command_execute_shutdown :: "'a kernel_scheme \<Rightarrow> 'a kernel_scheme" where
  "atlas_command_execute_shutdown s = emit (System_cmd ''systemctl poweroff'') s"

definition atlas_command_execute_restart :: "'a kernel_scheme \<Rightarrow> 'a kernel_scheme" where
  "atlas_command_execute_restart s = emit (System_cmd ''systemctl reboot'') s"

definition command_execution_shutdown_alarm_callback :: "int \<Rightarrow> 'a execute_scheme \<Rightarrow> 'a execute_scheme option" where
  "command_execution_shutdown_alarm_callback alarm_id s = Some (atlas_command_execute_shutdown s)"

definition command_execution_restart_alarm_callback :: "int \<Rightarrow> 'a execute_scheme \<Rightarrow> 'a execute_scheme option" where
  "command_execution_restart_alarm_callback alarm_id s = Some (atlas_command_execute_restart s)"

section \<open>Parsing\<close>

definition schedule_command :: "alarm_cb \<Rightarrow> 'a execute_scheme \<Rightarrow> 'a execute_scheme" where
  "schedule_command cb s =
     (let (i, s1) = atlas_alarm_set ATLAS_CLIENT_COMMAND_EXECUTE_TIMEOUT_MS cb True s
      in if i < 0 then s1 else s1\<lparr>cmdInProgress := True\<rparr>)"

definition exec_body :: "cmd \<Rightarrow> 'a execute_scheme \<Rightarrow> (bool \<times> 'a execute_scheme) option" where
  "exec_body c s =
     (if c_type c = exec_code ATLAS_CMD_DEVICE_RESTART
      then Some (True, schedule_command Command_execution_restart_alarm_callback s)
      else if c_type c = exec_code ATLAS_CMD_DEVICE_SHUTDOWN
      then Some (True, schedule_command Command_execution_shutdown_alarm_callback s)
      else Some (True, s))"

definition atlas_alert_command_execution_parse ::
    "byte list ptr \<Rightarrow> u16 \<Rightarrow> 'a execute_scheme \<Rightarrow> (atlas_status \<times> 'a execute_scheme) option" where
  "atlas_alert_command_execution_parse buf buf_len s =
     (if cmdInProgress s then Some (ATLAS_DEFERRED_COMMAND_EXECUTION, s)
      else if buf = None \<or> buf_len = 0 then Some (ATLAS_INVALID_INPUT, s)
      else do {
        (status, cmd_batch) \<leftarrow> atlas_cmd_batch_set_raw atlas_cmd_batch_new buf buf_len;
        if status \<noteq> ATLAS_OK then Some (ATLAS_CORRUPTED_COMMAND_EXECUTION_PAYLOAD, s)
        else do {
          s1 \<leftarrow> cmd_loop exec_body cmd_batch s;
          Some (status, s1) } })"

definition atlas_execute_command_cb ::
    "string \<Rightarrow> byte list ptr \<Rightarrow> 'a execute_scheme \<Rightarrow>
     (atlas_coap_response \<times> byte list ptr \<times> 'a execute_scheme) option" where
  "atlas_execute_command_cb uri_path req_payload s = do {
     (status, s1) \<leftarrow> atlas_alert_command_execution_parse req_payload (payload_len16 req_payload) s;
     if status \<noteq> ATLAS_OK then
       (if status = ATLAS_DEFERRED_COMMAND_EXECUTION then Some (ATLAS_COAP_RESP_UNKNOWN, None, s1)
        else Some (ATLAS_COAP_RESP_NOT_ACCEPTABLE_HERE, None, s1))
     else Some (ATLAS_COAP_RESP_OK, None, s1) }"

definition atlas_command_execute_init :: "'a execute_scheme \<Rightarrow> (bool \<times> 'a execute_scheme) option" where
  "atlas_command_execute_init s = do {
     (status, s1) \<leftarrow> atlas_coap_server_add_resource (Some ATLAS_COMMAND_EXECUTE_PATH) ATLAS_COAP_METHOD_PUT
                      (Some Atlas_execute_command_cb) s;
     if status \<noteq> ATLAS_OK then Some (False, s1) else Some (True, s1) }"

section \<open>Lemmas\<close>

text \<open>The callback a command of a request stands for.\<close>

definition exec_cb :: "tlv \<Rightarrow> alarm_cb ptr" where
  "exec_cb x = (if fst x = 0 then Some Command_execution_restart_alarm_callback
                else if fst x = 1 then Some Command_execution_shutdown_alarm_callback else None)"

lemma exec_body_cb:
  "exec_body (view x xs) s =
     Some (True, case exec_cb x of None \<Rightarrow> s | Some cb \<Rightarrow> schedule_command cb s)"
  by (simp add: exec_body_def exec_cb_def)

fun schedule_all :: "tlv list \<Rightarrow> 'a execute_scheme \<Rightarrow> 'a execute_scheme" where
  "schedule_all [] s = s"
| "schedule_all (x # xs) s = schedule_all xs (case exec_cb x of None \<Rightarrow> s | Some cb \<Rightarrow> schedule_command cb s)"

lemma exec_fold: "cmd_fold exec_body xs s = Some (schedule_all xs s)"
  by (induction xs arbitrary: s) (simp_all add: exec_body_cb)

lemma schedule_command_active:
  assumes "alarm_inv s"
  shows "\<exists>l. alarm_inv (schedule_command cb s) \<and> outs (schedule_command cb s) = outs s \<and>
    alarm_active (schedule_command cb s) = alarm_active s @ l \<and> (map snd l = [] \<or> map snd l = [cb])"
proof -
  let ?r = "atlas_alarm_set ATLAS_CLIENT_COMMAND_EXECUTE_TIMEOUT_MS cb True s"
  have inv: "alarm_inv (snd ?r)" using assms by (rule alarms.inv_set)
  have out: "outs (snd ?r) = outs s" by (simp add: alarm_defs Let_def)
  show ?thesis
  proof (cases "fst ?r < 0")
    case True
    then have eq: "schedule_command cb s = snd ?r" by (simp add: schedule_command_def case_prod_beta Let_def)
    show ?thesis
      unfolding eq by (intro exI [of _ "[]"] conjI inv out) (simp_all add: alarms.active_set_fail [OF True])
  next
    case False
    then have eq: "schedule_command cb s = (snd ?r)\<lparr>cmdInProgress := True\<rparr>"
      by (simp add: schedule_command_def case_prod_beta Let_def)
    have "alarm_active (snd ?r) = alarm_active s @ [(fst ?r, cb)]"
      using assms False by (simp add: alarms.active_set)
    moreover have "alarm_active (schedule_command cb s) = alarm_active (snd ?r)"
      "alarm_inv (schedule_command cb s) = alarm_inv (snd ?r)" "outs (schedule_command cb s) = outs (snd ?r)"
      unfolding eq by (simp_all add: alarm_active_def alarm_inv_def)
    ultimately show ?thesis
      using inv out by (intro exI [of _ "[(fst ?r, cb)]"]) (simp only: list.map snd_conv, simp)
  qed
qed

lemma schedule_all_active:
  assumes "alarm_inv s"
  shows "\<exists>l. alarm_inv (schedule_all xs s) \<and> outs (schedule_all xs s) = outs s \<and>
    alarm_active (schedule_all xs s) = alarm_active s @ l \<and> subseq (map snd l) (List.map_filter exec_cb xs)"
  using assms
proof (induction xs arbitrary: s)
  case (Cons x xs)
  show ?case
  proof (cases "exec_cb x")
    case None
    then show ?thesis using Cons by (simp add: List.map_filter_simps)
  next
    case (Some cb)
    from schedule_command_active [OF Cons.prems, of cb] obtain l where
      l: "alarm_inv (schedule_command cb s)" "outs (schedule_command cb s) = outs s"
        "alarm_active (schedule_command cb s) = alarm_active s @ l" "map snd l = [] \<or> map snd l = [cb]"
      by (elim exE conjE) (rule that)
    from Cons.IH [OF l(1)] obtain k where
      k: "alarm_inv (schedule_all xs (schedule_command cb s))" "outs (schedule_all xs (schedule_command cb s)) = outs s"
        "alarm_active (schedule_all xs (schedule_command cb s)) = alarm_active s @ (l @ k)"
        "subseq (map snd k) (List.map_filter exec_cb xs)" using l(2,3) by auto
    have "subseq (map snd (l @ k)) (cb # List.map_filter exec_cb xs)" using l(4) k(4) by auto
    then show ?thesis
      using k Some by (intro exI [of _ "l @ k"]) (simp add: List.map_filter_simps)
  qed
qed (simp add: List.map_filter_simps)

lemma parse_schedules:
  assumes "bs \<noteq> []" and "length bs < 65536" and "\<not> cmdInProgress s"
  shows "atlas_alert_command_execution_parse (Some bs) (of_nat (length bs)) s =
    Some (case dec_tlvs bs of
            None \<Rightarrow> (ATLAS_CORRUPTED_COMMAND_EXECUTION_PAYLOAD, s)
          | Some xs \<Rightarrow> (ATLAS_OK, schedule_all xs s))"
proof -
  have "(of_nat (length bs) :: u16) \<noteq> 0" using assms by (metis length_0_conv unat_0 unat_of_nat16)
  then show ?thesis
    using assms(3) set_raw_buf [OF assms(1,2)]
    by (auto simp: atlas_alert_command_execution_parse_def loop_dec [OF _ assms(1,2)] exec_fold split: option.splits)
qed


section \<open>Properties\<close>

definition execute_demo :: execute where
  "execute_demo = \<lparr>clock = 0, fds = [0, 1, 2], outs = [], e_fd = (\<lambda>n. 3 + int n),
     gw_hostname = Some \<lparr>hs_cap = 2, hs_str = ''gw''\<rparr>, gw_port = Some \<lparr>hs_cap = 4, hs_str = ''5683''\<rparr>,
     local_iface = Some \<lparr>hs_cap = 4, hs_str = ''eth0''\<rparr>, local_port = 10100,
     e_ifaddr = (\<lambda>_ _. (192, 168, 1, 20)),
     sched_entries = [], e_select = (\<lambda>_. None),
     alarm_entries = [], timers = (\<lambda>_. None), e_settime = (\<lambda>_. 0),
     identity_str = ''0123-id'', psk_str = ''secret'', identity_file = None, psk_file = None,
     e_open_ok = (\<lambda>_. True), e_read_ok = (\<lambda>_. True), e_uuid = (\<lambda>_. replicate 36 CHR ''a''),
     e_rand = (\<lambda>_. Some [1, 2, 3]), e_base64 = (\<lambda>_. ''AQID''),
     req_entries = [], token_ctr = 41, coap_ctxs = [], dtls_identity = [], dtls_key = [],
     e_split_uri = (\<lambda>u. Some \<lparr>cu_host = ''gw'', cu_port = 5683, cu_secure = True, cu_path = [], cu_query = []\<rparr>),
     e_getaddrinfo = (\<lambda>_ _. (0, [\<lparr>ai_family = AF_INET, ai_addr = [2, 0, 0, 0, 10, 0, 0, 1]\<rparr>])),
     e_indet = (\<lambda>_. (0, [])), e_ctx = (\<lambda>n. Some n), e_session = (\<lambda>n _. Some n), e_pdu_ok = (\<lambda>_. True),
     e_token_ok = (\<lambda>_. True),
     e_io = (\<lambda>n. if n = 8 then [\<lparr>msg_session = 3, msg_sent = True, msg_pdu =
       \<lparr>pdu_type = COAP_MESSAGE_ACK, pdu_code = 69, pdu_token = [41, 0, 0, 0], pdu_data = []\<rparr>\<rparr>] else []),
     srv_ctx = None, srv_fd = 0, srv_key = [], srv_psk = None, srv_endpoints = [], srv_resources = [],
     server_listeners = (\<lambda>_. []), e_dtls_supported = True, e_endpoint = (\<lambda>_. True),
     e_resource = (\<lambda>n. Some n), e_srv_io = (\<lambda>_. []),
     connected_socket = -1, policy_qos = 0, policy_packets_per_min = 0, policy_packets_maxlen = 0,
     active_policy = 0, packets_per_min = 0, packets_avg = 0, e_read = (\<lambda>_. None),
     e_bind_ok = (\<lambda>_. True), e_listen_ok = (\<lambda>_. True),
     registered = 1, ka_token = 0, ka_count = 0, ka_alarm_id = 0, procs_threshold = 0,
     e_hostname_open = (\<lambda>_. True), e_hostname = (\<lambda>_. Some [97, 10]), e_uname = (\<lambda>_. None),
     e_sysinfo = (\<lambda>_. None),
     features = [\<lparr>te_uri_path = ''gateway/telemetry/packets_avg'', te_payload_cb = Payload_packets_avg,
       te_push_id = -1, te_threshold_id = -1\<rparr>],
     cmdInProgress = False\<rparr>"



end
