(* ===== verification/Ownership.thy ===== *)
theory Ownership
  imports Register Command_Execute
begin

text \<open>
  Who owns which descriptor, timer and CoAP context of the running client. The components keep
  identifiers of timers and contexts in their own variables and cancel or free them later; the
  kernel hands out the numbers again once they are closed. \<open>own_inv\<close> says that every identifier
  a component keeps denotes a live resource of the kind the component asked for and that no two
  components keep the same one, so that no component ever cancels a timer or frees a context of
  another one. The operations that add, release or replace a resource keep it.

  \<open>safe_from\<close> is the contract of a callback of the event loop: no memory fault, the invariant
  kept, and a relation between the state before and after. The locale \<open>guarantee\<close> holds the rules
  to compose such operations; it is interpreted on the three relations used for the callbacks.
\<close>

section \<open>The contract of callbacks\<close>

definition safe_from :: "('s \<Rightarrow> bool) \<Rightarrow> ('s \<Rightarrow> 's \<Rightarrow> bool) \<Rightarrow> 's \<Rightarrow> 's option \<Rightarrow> bool" where
  "safe_from ok rel s r \<longleftrightarrow> (\<exists>t. r = Some t \<and> ok t \<and> rel s t)"

lemma safe_fromE:
  assumes "safe_from ok rel s r"
  obtains t where "r = Some t" "ok t" "rel s t"
  using assms by (auto simp: safe_from_def)

lemma safe_from_mono: "safe_from ok rel s r \<Longrightarrow> (\<And>t. rel s t \<Longrightarrow> rel' s t) \<Longrightarrow> safe_from ok rel' s r"
  by (auto simp: safe_from_def)

locale guarantee =
  fixes ok :: "'s \<Rightarrow> bool"
    and rel :: "'s \<Rightarrow> 's \<Rightarrow> bool"
  assumes rel_refl: "rel s s"
    and rel_trans: "rel s t \<Longrightarrow> rel t u \<Longrightarrow> rel s u"
begin

lemma same: "ok s \<Longrightarrow> safe_from ok rel s (Some s)"
  by (simp add: safe_from_def rel_refl)

lemma after: "rel s t \<Longrightarrow> safe_from ok rel t r \<Longrightarrow> safe_from ok rel s r"
  using rel_trans by (auto simp: safe_from_def)

lemma bind:
  assumes "safe_from ok rel s r" and "\<And>t. r = Some t \<Longrightarrow> ok t \<Longrightarrow> rel s t \<Longrightarrow> safe_from ok rel t (g t)"
  shows "safe_from ok rel s (r \<bind> g)"
  using assms rel_trans by (fastforce simp: safe_from_def)

text \<open>A list of operations, run one after the other.\<close>

lemma run_list:
  assumes "ok s" and "\<And>x t. x \<in> set xs \<Longrightarrow> ok t \<Longrightarrow> rel s t \<Longrightarrow> safe_from ok rel t (f x t)"
    and "\<And>t. loop [] t = Some t" and "\<And>x ys t. loop (x # ys) t = f x t \<bind> loop ys"
  shows "safe_from ok rel s (loop xs s)"
  using assms(1,2)
proof (induction xs arbitrary: s)
  case Nil
  then show ?case using assms(3) by (simp add: same)
next
  case (Cons x xs)
  have "safe_from ok rel s (f x s)" using Cons.prems rel_refl by simp
  then show ?case unfolding assms(4)
  proof (rule bind)
    fix t assume t: "ok t" "rel s t"
    show "safe_from ok rel t (loop xs t)"
    proof (rule Cons.IH [OF t(1)])
      fix y u assume "y \<in> set xs" "ok u" "rel t u"
      then show "safe_from ok rel u (f y u)" using Cons.prems(2) rel_trans [OF t(2)] by simp
    qed
  qed
qed

end

section \<open>Descriptors, timers and contexts\<close>

text \<open>The descriptors of timers, contexts and the agent's connection; 0 is the standard input.\<close>

definition owned :: "'a telemetry_scheme \<Rightarrow> int list" where
  "owned s = map al_id (alarm_entries s) @ map snd (coap_ctxs s) @
     (if connected_socket s = -1 then [] else [connected_socket s])"

definition own_desc :: "'a telemetry_scheme \<Rightarrow> bool" where
  "own_desc s \<longleftrightarrow> distinct (0 # owned s) \<and> set (0 # owned s) \<subseteq> set (fds s) \<and> -1 \<notin> set (fds s)"

definition own_ka :: "'a telemetry_scheme \<Rightarrow> bool" where
  "own_ka s \<longleftrightarrow> ka_alarm_id s = -1 \<or> ka_alarm_id s = 0 \<or> (ka_alarm_id s, Keepalive_alarm_callback) \<in> set (alarm_active s)"

definition own_feats :: "(telemetry_feature \<Rightarrow> int) \<Rightarrow> alarm_cb \<Rightarrow> 'a telemetry_scheme \<Rightarrow> bool" where
  "own_feats get cb s \<longleftrightarrow> distinct (filter (\<lambda>i. 0 \<le> i) (map get (features s))) \<and>
     (\<forall>p \<in> set (features s). 0 \<le> get p \<longrightarrow> (get p, cb) \<in> set (alarm_active s))"

definition own_reqs :: "'a telemetry_scheme \<Rightarrow> bool" where
  "own_reqs s \<longleftrightarrow> distinct (map rq_alarm_id (req_entries s)) \<and>
     (\<forall>r \<in> set (req_entries s). (rq_alarm_id r, Request_alarm_cb) \<in> set (alarm_active s)) \<and>
     distinct (map rq_addr (req_entries s)) \<and> (\<forall>r \<in> set (req_entries s). rq_addr r \<le> clock s)"

definition own_ctxs :: "'a telemetry_scheme \<Rightarrow> bool" where
  "own_ctxs s \<longleftrightarrow> distinct (map fst (coap_ctxs s)) \<and>
     distinct (map rq_ctx (req_entries s)) \<and>
     (\<forall>r \<in> set (req_entries s). (rq_ctx r, rq_fd r) \<in> set (coap_ctxs s) \<and> srv_ctx s \<noteq> Some (rq_ctx r)) \<and>
     (\<forall>h. srv_ctx s = Some h \<longrightarrow> h \<in> fst ` set (coap_ctxs s))"

text \<open>The timers whose identifiers are kept repeat, all others (but those of requests) are one-shot.\<close>

definition repeats :: "alarm_cb \<Rightarrow> bool" where
  "repeats c \<longleftrightarrow> c \<in> {Keepalive_alarm_callback, Push_alert_alarm_cb, Threshold_alert_alarm_cb}"

definition own_once :: "'a telemetry_scheme \<Rightarrow> bool" where
  "own_once s \<longleftrightarrow> (\<forall>a \<in> set (alarm_entries s). al_run_once a \<longleftrightarrow> \<not> repeats (al_callback a))"

definition own_inv :: "'a telemetry_scheme \<Rightarrow> bool" where
  "own_inv s \<longleftrightarrow> own_desc s \<and> own_ka s \<and> own_feats te_push_id Push_alert_alarm_cb s \<and>
     own_feats te_threshold_id Threshold_alert_alarm_cb s \<and> own_reqs s \<and> own_ctxs s \<and> own_once s"

lemma own_desc_iff:
  "own_desc s \<longleftrightarrow> distinct (map al_id (alarm_entries s)) \<and> distinct (map snd (coap_ctxs s)) \<and>
     al_id ` set (alarm_entries s) \<inter> snd ` set (coap_ctxs s) = {} \<and>
     0 \<in> set (fds s) \<and> -1 \<notin> set (fds s) \<and> al_id ` set (alarm_entries s) \<subseteq> set (fds s) - {0} \<and> snd ` set (coap_ctxs s) \<subseteq> set (fds s) - {0} \<and>
     (connected_socket s \<noteq> -1 \<longrightarrow> connected_socket s \<in> set (fds s) - {0} \<and>
        connected_socket s \<notin> al_id ` set (alarm_entries s) \<and> connected_socket s \<notin> snd ` set (coap_ctxs s))"
  unfolding own_desc_def owned_def by (cases "connected_socket s = -1") auto

text \<open>The same on the sets of descriptors: timers, contexts, the connection, all open ones.\<close>

definition desc_ok :: "int set \<Rightarrow> int set \<Rightarrow> int \<Rightarrow> int set \<Rightarrow> bool" where
  "desc_ok A C c F \<longleftrightarrow> A \<inter> C = {} \<and> 0 \<in> F \<and> -1 \<notin> F \<and> A \<subseteq> F - {0} \<and> C \<subseteq> F - {0} \<and>
     (c \<noteq> -1 \<longrightarrow> c \<in> F - {0} \<and> c \<notin> A \<and> c \<notin> C)"

lemma own_desc_ok:
  "own_desc s \<longleftrightarrow> distinct (map al_id (alarm_entries s)) \<and> distinct (map snd (coap_ctxs s)) \<and>
     desc_ok (al_id ` set (alarm_entries s)) (snd ` set (coap_ctxs s)) (connected_socket s) (set (fds s))"
  unfolding own_desc_iff desc_ok_def by blast

lemma desc_ok_release: "desc_ok A C c F \<Longrightarrow> f \<in> C \<Longrightarrow> desc_ok A (C - {f}) c (F - {f})"
  unfolding desc_ok_def by blast

lemma desc_ok_reconnect:
  "desc_ok A C c F \<Longrightarrow> f = -1 \<or> (0 \<le> f \<and> f \<notin> F - {c}) \<Longrightarrow> desc_ok A C f (if f = -1 then F - {c} else insert f (F - {c}))"
  unfolding desc_ok_def by (cases "c = -1") auto

lemmas own_defs = own_desc_iff own_ka_def own_feats_def own_reqs_def own_ctxs_def own_once_def

lemma own_alarm_inv: "own_inv s \<Longrightarrow> alarm_inv s"
  by (auto simp: own_inv_def own_desc_def owned_def alarm_inv_def)

lemma own_timer_id:
  assumes "own_inv s" and "i \<in> al_id ` set (alarm_entries s)"
  shows "i \<noteq> -1" "i \<noteq> 0" "i \<in> set (fds s)"
proof -
  have "own_desc s" using assms(1) by (simp add: own_inv_def)
  then have "al_id ` set (alarm_entries s) \<subseteq> set (fds s) - {0}" "-1 \<notin> set (fds s)" by (simp_all add: own_desc_iff)
  then show "i \<noteq> -1" "i \<noteq> 0" "i \<in> set (fds s)" using assms(2) by auto
qed

lemma alarm_kind:
  assumes "alarm_inv s" and "(i, c) \<in> set (alarm_active s)" and "(i, d) \<in> set (alarm_active s)"
  shows "c = d"
  using assms by (auto simp: alarm_inv_def alarm_active_def distinct_map inj_on_def)

section \<open>Adding resources\<close>

text \<open>Updates that touch none of the variables of the invariant.\<close>

lemma own_frame:
  assumes "own_inv s" and same: "alarm_entries t = alarm_entries s" "coap_ctxs t = coap_ctxs s"
    "connected_socket t = connected_socket s" "fds t = fds s" "ka_alarm_id t = ka_alarm_id s"
    "features t = features s" "req_entries t = req_entries s" "srv_ctx t = srv_ctx s" and le: "clock s \<le> clock t"
  shows "own_inv t"
proof -
  have act: "alarm_active t = alarm_active s" by (simp add: alarm_active_def same)
  have "own_desc t = own_desc s" "own_ka t = own_ka s" "own_ctxs t = own_ctxs s" "own_once t = own_once s"
      "own_feats te_push_id Push_alert_alarm_cb t = own_feats te_push_id Push_alert_alarm_cb s"
      "own_feats te_threshold_id Threshold_alert_alarm_cb t = own_feats te_threshold_id Threshold_alert_alarm_cb s"
    by (simp_all add: own_defs same act)
  moreover have "own_reqs s \<Longrightarrow> own_reqs t"
    using le unfolding own_reqs_def same act by (meson order_trans)
  ultimately show ?thesis using assms(1) by (simp add: own_inv_def)
qed

lemma own_clock: "own_inv s \<Longrightarrow> clock s \<le> k \<Longrightarrow> own_inv (s\<lparr>clock := k\<rparr>)"
  by (rule own_frame) simp_all

lemma own_request_sent:
  assumes "own_inv s" and "0 \<le> f" "0 \<le> a" "a \<noteq> f" "f \<notin> set (fds s)" "a \<notin> set (fds s)" "h \<notin> fst ` set (coap_ctxs s)"
  shows "own_inv (request_sent u m p tmo c h ses f a s)"
proof -
  let ?t = "request_sent u m p tmo c h ses f a s"
  have i: "own_desc s" "own_ka s" "own_feats te_push_id Push_alert_alarm_cb s"
      "own_feats te_threshold_id Threshold_alert_alarm_cb s" "own_reqs s" "own_ctxs s" "own_once s"
    using assms(1) by (simp_all add: own_inv_def)
  have act: "alarm_active ?t = alarm_active s @ [(a, Request_alarm_cb)]"
    by (simp add: request_sent_def alarm_active_def)
  have fresh: "a \<notin> fst ` set (alarm_active s)"
    using i(1) assms(6) by (auto simp: own_desc_def owned_def alarm_active_def)
  have "own_desc ?t" using i(1) assms(2-6) by (auto simp: own_desc_def owned_def request_sent_def)
  moreover have "own_ka ?t" using i(2) by (auto simp: own_ka_def act) (auto simp: request_sent_def)
  moreover have "own_feats te_push_id Push_alert_alarm_cb ?t" "own_feats te_threshold_id Threshold_alert_alarm_cb ?t"
    using i(3,4) by (auto simp: own_feats_def act) (auto simp: request_sent_def)
  moreover have "own_reqs ?t"
  proof -
    have "a \<notin> rq_alarm_id ` set (req_entries s)"
      using i(5) fresh by (auto simp: own_reqs_def) (metis fst_conv image_eqI)
    moreover have "clock s + 8 \<notin> rq_addr ` set (req_entries s)" using i(5) by (fastforce simp: own_reqs_def)
    moreover have "\<forall>r \<in> set (req_entries s). rq_addr r \<le> clock s + 8"
      using i(5) unfolding own_reqs_def by (meson le_add1 order_trans)
    ultimately show ?thesis using i(5) unfolding own_reqs_def act by (simp add: request_sent_def)
  qed
  moreover have "own_ctxs ?t"
  proof -
    have "h \<notin> rq_ctx ` set (req_entries s)" "srv_ctx s \<noteq> Some h"
      using i(6) assms(7) by (auto simp: own_ctxs_def) (metis fst_conv image_eqI)+
    then show ?thesis using i(6) assms(7) by (simp add: own_ctxs_def request_sent_def)
  qed
  moreover have "own_once ?t" using i(7) by (auto simp: own_once_def request_sent_def repeats_def)
  ultimately show ?thesis by (simp add: own_inv_def)
qed

text \<open>A timer set by one of the components.\<close>

lemma alarm_set_clock: "clock s \<le> clock (snd (atlas_alarm_set ms c r s))"
  by (simp add: alarm_defs Let_def)

lemma own_alarm_set_ok:
  assumes "own_inv s" and "r \<longleftrightarrow> \<not> repeats c" and "fd_pick s \<noteq> -1" and "0 \<le> e_settime s (Suc (clock s))"
  shows "own_inv (snd (atlas_alarm_set ms c r s))"
proof -
  let ?t = "snd (atlas_alarm_set ms c r s)"
  note t = atlas_alarm_set_ok [OF refl assms(3,4), of ms c r]
  have f: "0 \<le> fd_pick s" "fd_pick s \<notin> set (fds s)" using assms(3) fd_pick_cases [of s] by auto
  have i: "own_desc s" "own_ka s" "own_feats te_push_id Push_alert_alarm_cb s"
      "own_feats te_threshold_id Threshold_alert_alarm_cb s" "own_reqs s" "own_ctxs s" "own_once s"
    using assms(1) by (simp_all add: own_inv_def)
  have act: "alarm_active ?t = alarm_active s @ [(fd_pick s, c)]" by (simp add: t alarm_active_def)
  have "own_desc ?t" using i(1) f by (auto simp: own_desc_def owned_def t)
  moreover have "own_ka ?t" using i(2) by (auto simp: own_ka_def act) (auto simp: t)
  moreover have "own_feats te_push_id Push_alert_alarm_cb ?t" "own_feats te_threshold_id Threshold_alert_alarm_cb ?t"
    using i(3,4) by (auto simp: own_feats_def act) (auto simp: t)
  moreover have "own_reqs ?t"
  proof -
    have "\<forall>r \<in> set (req_entries s). rq_addr r \<le> Suc (Suc (clock s))" using i(5) by (auto simp: own_reqs_def le_SucI)
    then show ?thesis using i(5) unfolding own_reqs_def act by (simp add: t)
  qed
  moreover have "own_ctxs ?t" using i(6) by (simp add: own_ctxs_def t)
  moreover have "own_once ?t" using i(7) unfolding own_once_def t by (simp add: assms(2))
  ultimately show ?thesis by (simp add: own_inv_def)
qed

lemma own_alarm_set:
  assumes "own_inv s" and "r \<longleftrightarrow> \<not> repeats c"
  shows "own_inv (snd (atlas_alarm_set ms c r s))"
proof (cases "fst (atlas_alarm_set ms c r s) = -1")
  case True
  from atlas_alarm_set_fail [OF this] obtain k where k: "snd (atlas_alarm_set ms c r s) = s\<lparr>clock := k\<rparr>" by blast
  then have "clock s \<le> k" using alarm_set_clock [of s ms c r] by simp
  then show ?thesis unfolding k using assms(1) by (intro own_clock)
next
  case False
  then have "fd_pick s \<noteq> -1" "0 \<le> e_settime s (Suc (clock s))"
    by (auto simp: atlas_alarm_set_result split: if_splits)
  then show ?thesis by (rule own_alarm_set_ok [OF assms])
qed

text \<open>The timer of a keep-alive, which the registration keeps.\<close>

lemma own_ka_set:
  assumes "own_inv s"
  shows "own_inv ((snd (atlas_alarm_set ms Keepalive_alarm_callback False s))
    \<lparr>ka_alarm_id := fst (atlas_alarm_set ms Keepalive_alarm_callback False s)\<rparr>)"
proof -
  let ?r = "atlas_alarm_set ms Keepalive_alarm_callback False s"
  let ?t = "(snd ?r)\<lparr>ka_alarm_id := fst ?r\<rparr>"
  have i: "own_inv (snd ?r)" using assms by (rule own_alarm_set) (simp add: repeats_def)
  have act: "alarm_active ?t = alarm_active (snd ?r)" by (simp add: alarm_active_def)
  have "own_ka ?t"
  proof (cases "fst ?r = -1")
    case False
    then have "(fst ?r, Keepalive_alarm_callback) \<in> set (alarm_active (snd ?r))"
      by (auto simp: alarm_active_def atlas_alarm_set_entries atlas_alarm_set_result split: if_splits)
    then show ?thesis by (simp add: own_ka_def act)
  qed (simp add: own_ka_def)
  moreover have "own_desc ?t = own_desc (snd ?r)" "own_reqs ?t = own_reqs (snd ?r)" "own_ctxs ?t = own_ctxs (snd ?r)"
      "own_once ?t = own_once (snd ?r)" "own_feats g cb ?t = own_feats g cb (snd ?r)" for g cb
    by (simp_all add: own_desc_def owned_def own_reqs_def own_ctxs_def own_once_def own_feats_def act)
  ultimately show ?thesis using i by (simp add: own_inv_def)
qed

section \<open>Releasing resources\<close>

text \<open>A timer nobody keeps.\<close>

definition unclaimed :: "int \<Rightarrow> 'a telemetry_scheme \<Rightarrow> bool" where
  "unclaimed i s \<longleftrightarrow> i \<notin> rq_alarm_id ` set (req_entries s) \<and> i \<noteq> ka_alarm_id s \<and>
     (\<forall>p \<in> set (features s). (0 \<le> te_push_id p \<longrightarrow> te_push_id p \<noteq> i) \<and> (0 \<le> te_threshold_id p \<longrightarrow> te_threshold_id p \<noteq> i))"

lemma alarm_cancel_frame:
  "coap_ctxs (atlas_alarm_cancel i s) = coap_ctxs s" "connected_socket (atlas_alarm_cancel i s) = connected_socket s"
  "ka_alarm_id (atlas_alarm_cancel i s) = ka_alarm_id s" "features (atlas_alarm_cancel i s) = features s"
  "req_entries (atlas_alarm_cancel i s) = req_entries s" "srv_ctx (atlas_alarm_cancel i s) = srv_ctx s"
  "clock (atlas_alarm_cancel i s) = clock s" "registered (atlas_alarm_cancel i s) = registered s"
  by (simp_all add: alarm_defs Let_def)

lemma own_desc_cancel:
  assumes "own_desc s"
  shows "own_desc (atlas_alarm_cancel i s)"
proof (cases "i \<in> al_id ` set (alarm_entries s)")
  case True
  have d: "distinct (map al_id (alarm_entries s))" using assms by (simp add: own_desc_def owned_def)
  have e: "alarm_entries (atlas_alarm_cancel i s) = filter (\<lambda>a. al_id a \<noteq> i) (alarm_entries s)"
    using d by (simp add: atlas_alarm_cancel_entries del_first_filter)
  have f: "fds (atlas_alarm_cancel i s) = removeAll i (fds s)" using True by (auto simp: alarm_defs Let_def)
  have "i \<noteq> 0" "i \<notin> snd ` set (coap_ctxs s)" "connected_socket s \<noteq> -1 \<Longrightarrow> i \<noteq> connected_socket s"
    using True assms unfolding own_desc_iff by blast+
  then show ?thesis using assms unfolding own_desc_iff e f alarm_cancel_frame
    by (auto simp: distinct_map_filter)
next
  case False
  then have "atlas_alarm_cancel i s = s" by (auto simp: atlas_alarm_cancel_def)
  then show ?thesis using assms by simp
qed

lemma own_cancel:
  assumes "own_inv s" and "unclaimed i s"
  shows "own_inv (atlas_alarm_cancel i s)"
proof -
  let ?t = "atlas_alarm_cancel i s"
  have act: "alarm_active ?t = filter (\<lambda>a. fst a \<noteq> i) (alarm_active s)"
    using own_alarm_inv [OF assms(1)] by (rule alarms.active_cancel)
  have i: "own_desc s" "own_ka s" "own_feats te_push_id Push_alert_alarm_cb s"
      "own_feats te_threshold_id Threshold_alert_alarm_cb s" "own_reqs s" "own_ctxs s" "own_once s"
    using assms(1) by (simp_all add: own_inv_def)
  have "own_ka ?t" using i(2) assms(2) by (auto simp: own_ka_def act alarm_cancel_frame unclaimed_def)
  moreover have "own_feats te_push_id Push_alert_alarm_cb ?t" "own_feats te_threshold_id Threshold_alert_alarm_cb ?t"
    using i(3,4) assms(2) by (simp_all add: own_feats_def act alarm_cancel_frame unclaimed_def)
  moreover have "own_reqs ?t"
  proof -
    have "\<forall>r \<in> set (req_entries s). rq_alarm_id r \<noteq> i" using assms(2) by (auto simp: unclaimed_def)
    then show ?thesis using i(5) by (simp add: own_reqs_def act alarm_cancel_frame)
  qed
  moreover have "own_ctxs ?t" using i(6) by (simp add: own_ctxs_def alarm_cancel_frame)
  moreover have "own_once ?t"
    using i(7) set_del_first [of "\<lambda>p. al_id p = i" "alarm_entries s"] by (auto simp: own_once_def atlas_alarm_cancel_entries)
  ultimately show ?thesis using own_desc_cancel [OF i(1)] by (simp add: own_inv_def)
qed

text \<open>A timer of some kind is unclaimed when the component that sets timers of that kind does not keep it.\<close>

lemma unclaimed_kind:
  assumes "own_inv s" and "(i, c) \<in> set (alarm_active s)"
    and "c = Request_alarm_cb \<Longrightarrow> i \<notin> rq_alarm_id ` set (req_entries s)"
    and "c = Keepalive_alarm_callback \<Longrightarrow> i \<noteq> ka_alarm_id s"
    and "c = Push_alert_alarm_cb \<Longrightarrow> i \<notin> te_push_id ` set (features s)"
    and "c = Threshold_alert_alarm_cb \<Longrightarrow> i \<notin> te_threshold_id ` set (features s)"
  shows "unclaimed i s"
proof -
  note kind = alarm_kind [OF own_alarm_inv [OF assms(1)] _ assms(2)]
  have "i \<in> al_id ` set (alarm_entries s)" using assms(2) by (auto simp: alarm_active_def)
  then have "i \<noteq> -1" "i \<noteq> 0" using own_timer_id [OF assms(1)] by simp_all
  then have "i \<noteq> ka_alarm_id s" using assms(1,4) kind by (auto simp: own_inv_def own_ka_def)
  moreover have "i \<notin> rq_alarm_id ` set (req_entries s)"
    using assms(1,3) kind by (auto simp: own_inv_def own_reqs_def)
  moreover have "0 \<le> te_push_id p \<longrightarrow> te_push_id p \<noteq> i" if "p \<in> set (features s)" for p
    using assms(1,5) kind that by (auto simp: own_inv_def own_feats_def)
  moreover have "0 \<le> te_threshold_id p \<longrightarrow> te_threshold_id p \<noteq> i" if "p \<in> set (features s)" for p
    using assms(1,6) kind that by (auto simp: own_inv_def own_feats_def)
  ultimately show ?thesis by (simp add: unclaimed_def)
qed

text \<open>The end of the registration cancels the keep-alive timer only.\<close>

lemma own_upper:
  "own_inv (s\<lparr>ka_count := x, registered := y\<rparr>) = own_inv s"
  "own_inv s \<Longrightarrow> own_inv (s\<lparr>ka_alarm_id := -1\<rparr>)"
  by (simp_all add: own_inv_def own_defs alarm_active_def)

lemma cancel_ka_commute: "(atlas_alarm_cancel i s)\<lparr>ka_alarm_id := k\<rparr> = atlas_alarm_cancel i (s\<lparr>ka_alarm_id := k\<rparr>)"
  by (simp add: alarm_defs Let_def)

lemma cancel_no_timer: "i \<notin> al_id ` set (alarm_entries s) \<Longrightarrow> atlas_alarm_cancel i s = s"
  by (auto simp: atlas_alarm_cancel_def)

lemma own_unregistered:
  assumes "own_inv s"
  shows "own_inv (unregistered s)"
proof -
  let ?u = "s\<lparr>ka_count := 0, registered := 0, ka_alarm_id := -1\<rparr>"
  have u: "own_inv ?u" using assms own_upper(2) [of "s\<lparr>ka_count := 0, registered := 0\<rparr>"] by (simp add: own_upper(1))
  have eq: "unregistered s = atlas_alarm_cancel (ka_alarm_id s) ?u" by (simp add: unregistered_def cancel_ka_commute)
  show ?thesis
  proof (cases "ka_alarm_id s \<in> al_id ` set (alarm_entries s)")
    case True
    then have "ka_alarm_id s \<noteq> -1" "ka_alarm_id s \<noteq> 0" using own_timer_id [OF assms] by simp_all
    then have "(ka_alarm_id s, Keepalive_alarm_callback) \<in> set (alarm_active ?u)"
      using assms by (simp add: own_inv_def own_ka_def alarm_active_def)
    from unclaimed_kind [OF u this] \<open>ka_alarm_id s \<noteq> -1\<close> own_cancel [OF u] show ?thesis by (simp add: eq)
  next
    case False
    then show ?thesis using u cancel_no_timer [of "ka_alarm_id s" ?u] by (simp add: eq)
  qed
qed

text \<open>Freeing a context nobody keeps.\<close>

lemma snd_without:
  assumes "distinct (map fst xs)" and "distinct (map snd xs)" and "(h, f) \<in> set xs"
  shows "snd ` {c \<in> set xs. fst c \<noteq> h} = snd ` set xs - {f}"
proof -
  have "fst c = h \<longleftrightarrow> snd c = f" if "c \<in> set xs" for c
    using assms that inj_onD [of fst "set xs" c "(h, f)"] inj_onD [of snd "set xs" c "(h, f)"]
    by (cases c) (auto simp: distinct_map)
  then show ?thesis by auto
qed

lemma own_free_context:
  assumes "own_inv s" and "h \<notin> rq_ctx ` set (req_entries s)" and "srv_ctx s \<noteq> Some h"
  shows "own_inv (coap_free_context h s)"
proof -
  let ?t = "coap_free_context h s"
  have i: "own_desc s" "own_ctxs s" using assms(1) by (simp_all add: own_inv_def)
  have c: "coap_ctxs ?t = filter (\<lambda>c. fst c \<noteq> h) (coap_ctxs s)"
    "fds ?t = removeAll (coap_context_get_coap_fd h s) (fds s)"
    by (simp_all add: coap_free_context_def fd_close_def)
  have fr: "alarm_entries ?t = alarm_entries s" "connected_socket ?t = connected_socket s" "ka_alarm_id ?t = ka_alarm_id s"
    "features ?t = features s" "req_entries ?t = req_entries s" "srv_ctx ?t = srv_ctx s" "clock ?t = clock s"
    "alarm_active ?t = alarm_active s"
    by (simp_all add: coap_free_context_def fd_close_def alarm_active_def)
  have "own_desc ?t"
  proof (cases "map_of (coap_ctxs s) h")
    case None
    then have "filter (\<lambda>c. fst c \<noteq> h) (coap_ctxs s) = coap_ctxs s" by (auto simp: map_of_eq_None_iff ctx_filter_fresh)
    moreover have "coap_context_get_coap_fd h s = -1" using None by (simp add: coap_context_get_coap_fd_def)
    moreover have "removeAll (-1) (fds s) = fds s" using i(1) unfolding own_desc_iff by simp
    ultimately show ?thesis using i(1) by (simp add: own_desc_iff fr c)
  next
    case (Some f)
    then have f: "(h, f) \<in> set (coap_ctxs s)" "coap_context_get_coap_fd h s = f"
      by (auto simp: map_of_SomeD coap_context_get_coap_fd_def)
    have d: "distinct (map snd (coap_ctxs s))" using i(1) by (simp add: own_desc_iff)
    have "distinct (map fst (coap_ctxs s))" using i(2) by (simp add: own_ctxs_def)
    then have "snd ` {c \<in> set (coap_ctxs s). fst c \<noteq> h} = snd ` set (coap_ctxs s) - {f}"
      by (rule snd_without [OF _ d f(1)])
    moreover have "f \<in> snd ` set (coap_ctxs s)" using f(1) by force
    ultimately show ?thesis using i(1) desc_ok_release [of _ "snd ` set (coap_ctxs s)" _ _ f]
      unfolding own_desc_ok c f(2) fr by (simp add: distinct_map_filter)
  qed
  moreover have "own_ctxs ?t"
  proof -
    have "(rq_ctx r, rq_fd r) \<in> set (filter (\<lambda>c. fst c \<noteq> h) (coap_ctxs s))" if "r \<in> set (req_entries s)" for r
      using i(2) assms(2) that by (auto simp: own_ctxs_def)
    then show ?thesis using i(2) assms(3) unfolding own_ctxs_def c(1) fr
      by (auto simp: distinct_map_filter)
  qed
  ultimately show ?thesis using assms(1) by (simp add: own_inv_def own_ka_def own_feats_def own_reqs_def own_once_def fr)
qed

text \<open>The entry of a request that is over.\<close>

lemma own_drop_entry:
  assumes "own_inv s" and "r \<in> set (req_entries s)"
  shows "own_inv (s\<lparr>req_entries := del_first (\<lambda>q. rq_addr q = rq_addr r) (req_entries s)\<rparr>)"
    and "rq_alarm_id r \<notin> rq_alarm_id ` set (del_first (\<lambda>q. rq_addr q = rq_addr r) (req_entries s))"
    and "rq_ctx r \<notin> rq_ctx ` set (del_first (\<lambda>q. rq_addr q = rq_addr r) (req_entries s))"
proof -
  let ?t = "s\<lparr>req_entries := del_first (\<lambda>q. rq_addr q = rq_addr r) (req_entries s)\<rparr>"
  have i: "own_reqs s" "own_ctxs s" using assms(1) by (simp_all add: own_inv_def)
  then have d: "distinct (map rq_addr (req_entries s))" "distinct (map rq_alarm_id (req_entries s))"
      "distinct (map rq_ctx (req_entries s))"
    by (simp_all add: own_reqs_def own_ctxs_def)
  have e: "del_first (\<lambda>q. rq_addr q = rq_addr r) (req_entries s) = filter (\<lambda>q. rq_addr q \<noteq> rq_addr r) (req_entries s)"
    using d(1) by (rule del_first_filter)
  have "own_reqs ?t" "own_ctxs ?t"
    using i d by (simp_all add: own_reqs_def own_ctxs_def e alarm_active_def distinct_map_filter)
  then show "own_inv ?t" using assms(1) by (simp add: own_inv_def own_desc_iff own_ka_def own_feats_def own_once_def alarm_active_def)
  show "rq_alarm_id r \<notin> rq_alarm_id ` set (del_first (\<lambda>q. rq_addr q = rq_addr r) (req_entries s))"
    unfolding e using d(2) assms(2) by (auto simp: distinct_map dest: inj_onD)
  show "rq_ctx r \<notin> rq_ctx ` set (del_first (\<lambda>q. rq_addr q = rq_addr r) (req_entries s))"
    unfolding e using d(3) assms(2) by (auto simp: distinct_map dest: inj_onD)
qed

lemma own_sched_del: "own_inv (atlas_sched_del_entry f s) = own_inv s"
  by (simp add: own_inv_def own_defs alarm_active_def atlas_sched_del_entry_def)

text \<open>A request that is over gives back its entry and context; after a response also its timer.\<close>

lemma own_release_timeout:
  assumes "own_inv s" and "r \<in> set (req_entries s)"
  shows "own_inv (coap_free_context (rq_ctx r) (atlas_sched_del_entry (rq_fd r)
      (s\<lparr>req_entries := del_first (\<lambda>q. rq_addr q = rq_addr r) (req_entries s)\<rparr>)))"
proof (rule own_free_context)
  note drop = own_drop_entry [OF assms]
  show "own_inv (atlas_sched_del_entry (rq_fd r) (s\<lparr>req_entries := del_first (\<lambda>q. rq_addr q = rq_addr r) (req_entries s)\<rparr>))"
    using drop(1) by (simp add: own_sched_del)
  show "rq_ctx r \<notin> rq_ctx ` set (req_entries (atlas_sched_del_entry (rq_fd r)
      (s\<lparr>req_entries := del_first (\<lambda>q. rq_addr q = rq_addr r) (req_entries s)\<rparr>)))"
    using drop(3) by (simp add: atlas_sched_del_entry_def)
  show "srv_ctx (atlas_sched_del_entry (rq_fd r)
      (s\<lparr>req_entries := del_first (\<lambda>q. rq_addr q = rq_addr r) (req_entries s)\<rparr>)) \<noteq> Some (rq_ctx r)"
    using assms by (auto simp: own_inv_def own_ctxs_def atlas_sched_del_entry_def)
qed

lemma own_release_response:
  assumes "own_inv s" and "r \<in> set (req_entries s)"
  shows "own_inv (coap_free_context (rq_ctx r) (atlas_alarm_cancel (rq_alarm_id r) (atlas_sched_del_entry (rq_fd r)
      (s\<lparr>req_entries := del_first (\<lambda>q. rq_addr q = rq_addr r) (req_entries s)\<rparr>))))"
proof (rule own_free_context)
  note drop = own_drop_entry [OF assms]
  let ?d = "atlas_sched_del_entry (rq_fd r) (s\<lparr>req_entries := del_first (\<lambda>q. rq_addr q = rq_addr r) (req_entries s)\<rparr>)"
  have d: "own_inv ?d" using drop(1) by (simp add: own_sched_del)
  have re: "req_entries ?d = del_first (\<lambda>q. rq_addr q = rq_addr r) (req_entries s)" "srv_ctx ?d = srv_ctx s"
      "alarm_active ?d = alarm_active s"
    by (simp_all add: atlas_sched_del_entry_def alarm_active_def)
  have "(rq_alarm_id r, Request_alarm_cb) \<in> set (alarm_active ?d)"
    using assms by (simp add: re own_inv_def own_reqs_def)
  from unclaimed_kind [OF d this] drop(2) have "unclaimed (rq_alarm_id r) ?d" by (simp add: re)
  then show "own_inv (atlas_alarm_cancel (rq_alarm_id r) ?d)" by (rule own_cancel [OF d])
  show "rq_ctx r \<notin> rq_ctx ` set (req_entries (atlas_alarm_cancel (rq_alarm_id r) ?d))"
    using drop(3) by (simp add: alarm_cancel_frame re)
  show "srv_ctx (atlas_alarm_cancel (rq_alarm_id r) ?d) \<noteq> Some (rq_ctx r)"
    using assms by (auto simp: own_inv_def own_ctxs_def alarm_cancel_frame re)
qed

text \<open>A new connection of the agent replaces the old one.\<close>

lemma own_accept:
  assumes "own_inv s" and "atlas_data_plane_accept_cb fd s = Some t"
  shows "own_inv t"
proof -
  let ?c = "connected_socket s"
  define s1 where "s1 = (if ?c \<noteq> -1 then fd_close ?c (atlas_sched_del_entry ?c s) else s)"
  let ?f = "fd_pick s1"
  have s1: "alarm_entries s1 = alarm_entries s" "coap_ctxs s1 = coap_ctxs s" "clock s1 = clock s" "ka_alarm_id s1 = ka_alarm_id s"
      "features s1 = features s" "req_entries s1 = req_entries s" "srv_ctx s1 = srv_ctx s" "fds s1 = removeAll ?c (fds s)"
    using assms(1) by (auto simp: s1_def fd_close_def atlas_sched_del_entry_def own_inv_def own_desc_iff)
  have t: "t = (if ?f = -1 then (snd (fd_new s1))\<lparr>connected_socket := ?f\<rparr>
      else atlas_sched_add_entry ?f (Some Atlas_data_plane_read_cb) ((snd (fd_new s1))\<lparr>connected_socket := ?f\<rparr>))"
    using assms(2) by (auto simp: atlas_data_plane_accept_cb_def s1_def fd_new_def Let_def split: if_splits)
  have tf: "alarm_entries t = alarm_entries s" "coap_ctxs t = coap_ctxs s" "clock t = Suc (clock s)" "ka_alarm_id t = ka_alarm_id s"
      "features t = features s" "req_entries t = req_entries s" "srv_ctx t = srv_ctx s" "connected_socket t = ?f"
      "fds t = (if ?f = -1 then removeAll ?c (fds s) else ?f # removeAll ?c (fds s))" "alarm_active t = alarm_active s"
    by (simp_all add: t fd_new_def atlas_sched_add_entry_def s1 alarm_active_def)
  have f: "?f = -1 \<or> (0 \<le> ?f \<and> ?f \<notin> set (removeAll ?c (fds s)))" using fd_pick_cases [of s1] by (simp add: s1)
  have d: "own_desc s" using assms(1) by (simp add: own_inv_def)
  have "set (fds t) = (if ?f = -1 then set (fds s) - {?c} else insert ?f (set (fds s) - {?c}))" by (simp add: tf)
  then have "own_desc t"
    using d desc_ok_reconnect [of _ _ ?c "set (fds s)" ?f] f unfolding own_desc_ok by (simp add: tf(1,2,8))
  moreover have "own_reqs t" using assms(1) by (auto simp: own_inv_def own_reqs_def tf le_SucI)
  ultimately show ?thesis using assms(1)
    by (simp add: own_inv_def own_ka_def own_feats_def own_ctxs_def own_once_def tf)
qed

section \<open>Replacing the timer of a feature\<close>

text \<open>
  The push and the threshold timer of a feature are handled alike: \<open>get\<close> and \<open>put\<close> read and write
  the identifier, \<open>cb\<close> is the kind of the timer; \<open>oget\<close> and \<open>ocb\<close> are those of the other timer.
\<close>

definition replace_timer ::
    "(telemetry_feature \<Rightarrow> int) \<Rightarrow> (int \<Rightarrow> telemetry_feature \<Rightarrow> telemetry_feature) \<Rightarrow> alarm_cb \<Rightarrow> u32 \<Rightarrow>
     string \<Rightarrow> telemetry_feature \<Rightarrow> 'a telemetry_scheme \<Rightarrow> 'a telemetry_scheme" where
  "replace_timer get put cb ms u p s =
     (let s1 = (if 0 \<le> get p then atlas_alarm_cancel (get p) s else s);
          (i, s2) = atlas_alarm_set ms cb False s1
      in s2\<lparr>features := upd_first (\<lambda>q. te_uri_path q = u) (put i) (features s2)\<rparr>)"

lemma features_commute:
  "atlas_alarm_cancel i (s\<lparr>features := fs\<rparr>) = (atlas_alarm_cancel i s)\<lparr>features := fs\<rparr>"
  "atlas_alarm_set ms cb r (s\<lparr>features := fs\<rparr>) =
     (fst (atlas_alarm_set ms cb r s), (snd (atlas_alarm_set ms cb r s))\<lparr>features := fs\<rparr>)"
  by (simp_all add: alarm_defs Let_def fd_pick_def)

lemma find_split: "find P xs = Some x \<Longrightarrow> \<exists>ys zs. xs = ys @ x # zs \<and> P x \<and> (\<forall>y \<in> set ys. \<not> P y)"
proof (induction xs)
  case (Cons y ys)
  show ?case
  proof (cases "P y")
    case True
    then show ?thesis using Cons.prems by (intro exI [of _ "[]"] exI [of _ ys]) auto
  next
    case False
    then obtain as zs where "ys = as @ x # zs" "P x" "\<forall>y \<in> set as. \<not> P y" using Cons by auto
    then show ?thesis using False by (intro exI [of _ "y # as"] exI [of _ zs]) auto
  qed
qed simp

lemma upd_first_split: "P x \<Longrightarrow> \<forall>y \<in> set ys. \<not> P y \<Longrightarrow> upd_first P f (ys @ x # zs) = ys @ f x # zs"
  by (induction ys) auto

locale feature_timer =
  fixes get :: "telemetry_feature \<Rightarrow> int"
    and put :: "int \<Rightarrow> telemetry_feature \<Rightarrow> telemetry_feature"
    and cb :: alarm_cb
    and oget :: "telemetry_feature \<Rightarrow> int"
    and ocb :: alarm_cb
  assumes get_put: "get (put i p) = i"
    and oget_put: "oget (put i p) = oget p"
    and put_put: "put j (put i p) = put j p"
    and uri_put: "te_uri_path (put i p) = te_uri_path p"
    and kinds: "repeats cb" "cb \<noteq> Keepalive_alarm_callback"
    and own_inv_parts: "own_inv (s :: 'a telemetry_scheme) \<longleftrightarrow> own_desc s \<and> own_ka s \<and> own_feats get cb s \<and>
      own_feats oget ocb s \<and> own_reqs s \<and> own_ctxs s \<and> own_once s"
    and unclaimed_cb: "own_inv (s :: 'a telemetry_scheme) \<Longrightarrow> (i, cb) \<in> set (alarm_active s) \<Longrightarrow>
      i \<notin> get ` set (features s) \<Longrightarrow> unclaimed i s"
begin

lemma own_put:
  fixes s :: "'a telemetry_scheme"
  assumes "own_inv s" and "features s = ys @ p # zs"
    and "i < 0 \<or> (0 \<le> i \<and> (i, cb) \<in> set (alarm_active s) \<and> i \<notin> get ` set ys \<and> i \<notin> get ` set zs)"
  shows "own_inv (s\<lparr>features := ys @ put i p # zs\<rparr>)"
proof -
  let ?t = "s\<lparr>features := ys @ put i p # zs\<rparr>"
  have parts: "own_desc s" "own_ka s" "own_feats get cb s" "own_feats oget ocb s" "own_reqs s" "own_ctxs s" "own_once s"
    using assms(1) by (simp_all add: own_inv_parts)
  have act: "alarm_active ?t = alarm_active s" by (simp add: alarm_active_def)
  have "own_feats oget ocb ?t" using parts(4) assms(2) by (simp add: own_feats_def act oget_put)
  moreover have "own_feats get cb ?t" using parts(3) assms(2,3)
    by (auto simp: own_feats_def act get_put split: if_splits)
  moreover have "own_desc ?t" "own_ka ?t" "own_reqs ?t" "own_ctxs ?t" "own_once ?t"
    using parts by (simp_all add: own_desc_iff own_ka_def own_reqs_def own_ctxs_def own_once_def act)
  ultimately show ?thesis by (simp add: own_inv_parts)
qed

lemma own_replace:
  fixes s :: "'a telemetry_scheme"
  assumes "own_inv s" and "find (\<lambda>q. te_uri_path q = u) (features s) = Some p"
  shows "own_inv (replace_timer get put cb ms u p s)"
proof -
  from find_split [OF assms(2)] obtain ys zs where f: "features s = ys @ p # zs" "te_uri_path p = u" "\<forall>y \<in> set ys. te_uri_path y \<noteq> u"
    by blast
  let ?s0 = "s\<lparr>features := ys @ put (-1) p # zs\<rparr>"
  define s1 where "s1 = (if 0 \<le> get p then atlas_alarm_cancel (get p) s else s)"
  define s1' where "s1' = (if 0 \<le> get p then atlas_alarm_cancel (get p) ?s0 else ?s0)"
  let ?r = "atlas_alarm_set ms cb False s1"
  have own0: "own_inv ?s0" by (rule own_put [OF assms(1) f(1)]) simp
  have feats: "own_feats get cb s" using assms(1) by (simp add: own_inv_parts)
  have own1: "own_inv s1'"
  proof (cases "0 \<le> get p")
    case True
    then have "(get p, cb) \<in> set (alarm_active ?s0)" "get p \<notin> get ` set (features ?s0)"
      using feats f(1) by (auto simp: own_feats_def alarm_active_def get_put)
    from own_cancel [OF own0 unclaimed_cb [OF own0 this]] True show ?thesis by (simp add: s1'_def)
  qed (simp add: s1'_def own0)
  have s1': "s1' = s1\<lparr>features := ys @ put (-1) p # zs\<rparr>" by (simp add: s1_def s1'_def features_commute)
  have own2: "own_inv ((snd ?r)\<lparr>features := ys @ put (-1) p # zs\<rparr>)"
    using own_alarm_set [OF own1, of False cb ms] kinds(1) by (simp add: s1' features_commute)
  have f2: "features (snd ?r) = features s" by (simp add: s1_def alarm_defs Let_def)
  have fresh: "fst ?r < 0 \<or> (0 \<le> fst ?r \<and> (fst ?r, cb) \<in> set (alarm_active (snd ?r)) \<and> fst ?r \<notin> set (fds s1))"
    using fd_pick_cases [of s1] by (auto simp: alarm_active_def atlas_alarm_set_entries atlas_alarm_set_result)
  have ids: "get q \<in> set (fds s1)" if "q \<in> set ys \<union> set zs" "0 \<le> get q" for q
  proof -
    have "own_feats get cb s1'" using own1 by (simp add: own_inv_parts)
    then have "(get q, cb) \<in> set (alarm_active s1')" using that by (auto simp: own_feats_def s1')
    then have "get q \<in> set (fds s1')" using own_timer_id(3) [OF own1, of "get q"] by (auto simp: alarm_active_def)
    then show ?thesis by (simp add: s1')
  qed
  have "own_inv ((snd ?r)\<lparr>features := ys @ put (-1) p # zs\<rparr>\<lparr>features := ys @ put (fst ?r) (put (-1) p) # zs\<rparr>)"
  proof (rule own_put [OF own2])
    show "fst ?r < 0 \<or> 0 \<le> fst ?r \<and>
        (fst ?r, cb) \<in> set (alarm_active ((snd ?r)\<lparr>features := ys @ put (-1) p # zs\<rparr>)) \<and>
        fst ?r \<notin> get ` set ys \<and> fst ?r \<notin> get ` set zs"
      using fresh ids by (fastforce simp: alarm_active_def)
  qed simp
  moreover have "replace_timer get put cb ms u p s = (snd ?r)\<lparr>features := ys @ put (fst ?r) p # zs\<rparr>"
    unfolding replace_timer_def s1_def [symmetric] Let_def case_prod_beta f2 f(1)
    using upd_first_split [of "\<lambda>q. te_uri_path q = u" p ys "put (fst ?r)" zs] f(2,3) by simp
  ultimately show ?thesis by (simp add: put_put)
qed

end

interpretation push_timer: feature_timer te_push_id "\<lambda>i p. p\<lparr>te_push_id := i\<rparr>" Push_alert_alarm_cb
  te_threshold_id Threshold_alert_alarm_cb
proof unfold_locales
  show "own_inv s \<Longrightarrow> (i, Push_alert_alarm_cb) \<in> set (alarm_active s) \<Longrightarrow> i \<notin> te_push_id ` set (features s) \<Longrightarrow>
      unclaimed i s" for s :: "'a telemetry_scheme" and i
    by (rule unclaimed_kind [where c = Push_alert_alarm_cb]) simp_all
qed (auto simp: own_inv_def repeats_def)

interpretation threshold_timer: feature_timer te_threshold_id "\<lambda>i p. p\<lparr>te_threshold_id := i\<rparr>" Threshold_alert_alarm_cb
  te_push_id Push_alert_alarm_cb
proof unfold_locales
  show "own_inv s \<Longrightarrow> (i, Threshold_alert_alarm_cb) \<in> set (alarm_active s) \<Longrightarrow> i \<notin> te_threshold_id ` set (features s) \<Longrightarrow>
      unclaimed i s" for s :: "'a telemetry_scheme" and i
    by (rule unclaimed_kind [where c = Threshold_alert_alarm_cb]) simp_all
qed (auto simp: own_inv_def repeats_def)

end
