(* ===== verification/Program.thy ===== *)
theory Program
  imports Register Command_Execute
begin

text \<open>
  The program (src/atlas\_main.c): the function pointers of the components resolved to their
  functions, the command line, and \<open>main\<close>, the start-up sequence followed by the event loop.
  The lemmas and the property show which command lines are accepted and what they configure;
  the behaviour of \<open>main\<close> as a whole is in the theory System.
\<close>

section \<open>Function pointers\<close>

fun run_client :: "client_cb \<Rightarrow> string \<Rightarrow> atlas_coap_response \<Rightarrow> byte list ptr \<Rightarrow>
    'a telemetry_scheme \<Rightarrow> 'a telemetry_scheme option" where
  "run_client Reg_callback u r p s = reg_callback u r p s"
| "run_client Keepalive_callback u r p s = keepalive_callback u r p s"
| "run_client Policy_callback u r p s = policy_callback u r p s"
| "run_client Feature_reputation_callback u r p s = feature_reputation_callback u r p s"
| "run_client Feedback_callback u r p s = feedback_callback u r p s"
| "run_client Telemetry_callback u r p s = telemetry_callback u r p s"

fun run_alarm :: "alarm_cb \<Rightarrow> int \<Rightarrow> 'a execute_scheme \<Rightarrow> 'a execute_scheme option" where
  "run_alarm Request_alarm_cb i s = request_alarm_cb run_client i s"
| "run_alarm Keepalive_alarm_callback i s = keepalive_alarm_callback i s"
| "run_alarm Reg_alarm_callback i s = reg_alarm_callback i s"
| "run_alarm Policy_alarm_callback i s = policy_alarm_callback i s"
| "run_alarm Push_alert_alarm_cb i s = push_alert_alarm_cb i s"
| "run_alarm Threshold_alert_alarm_cb i s = threshold_alert_alarm_cb i s"
| "run_alarm Command_execution_restart_alarm_callback i s = command_execution_restart_alarm_callback i s"
| "run_alarm Command_execution_shutdown_alarm_callback i s = command_execution_shutdown_alarm_callback i s"

fun run_server :: "server_cb \<Rightarrow> string \<Rightarrow> byte list ptr \<Rightarrow> 'a execute_scheme \<Rightarrow>
    (atlas_coap_response \<times> byte list ptr \<times> 'a execute_scheme) option" where
  "run_server Sysinfo_push_alert_cb u p s = atlas_sysinfo_push_alert_cb u p s"
| "run_server Packets_push_alert_cb u p s = atlas_packets_push_alert_cb u p s"
| "run_server Atlas_threshold_alert_procs_cb u p s = atlas_threshold_alert_procs_cb u p s"
| "run_server Atlas_execute_command_cb u p s = atlas_execute_command_cb u p s"

fun run_sched :: "sched_cb \<Rightarrow> int \<Rightarrow> 'a execute_scheme \<Rightarrow> 'a execute_scheme option" where
  "run_sched Atlas_alarm_trigger fd s = atlas_alarm_trigger run_alarm fd s"
| "run_sched Coap_client_sched_callback fd s = coap_client_sched_callback run_client fd s"
| "run_sched Atlas_coap_server_sched_callback fd s = atlas_coap_server_sched_callback run_server fd s"
| "run_sched Atlas_data_plane_accept_cb fd s = atlas_data_plane_accept_cb fd s"
| "run_sched Atlas_data_plane_read_cb fd s = atlas_data_plane_read_cb fd s"

section \<open>Command line\<close>

text \<open>
  What successive calls of \<open>getopt(argc, argv, ":h:p:i:l:")\<close> return, with \<open>optarg\<close>: the arguments
  that are not options are skipped, \<open>--\<close> ends the options, a missing argument is \<open>':'\<close> and an
  unknown option \<open>'?'\<close> (after either of which the caller exits).
\<close>

fun getopt_hpil :: "string list \<Rightarrow> (char \<times> string ptr) list" where
  "getopt_hpil [] = []"
| "getopt_hpil (a # as) =
     (if a = ''--'' then []
      else if length a \<ge> 2 \<and> hd a = CHR ''-'' then
        (if a ! 1 \<in> {CHR ''h'', CHR ''p'', CHR ''i'', CHR ''l''} then
           (if length a > 2 then (a ! 1, Some (drop 2 a)) # getopt_hpil as
            else case as of
              [] \<Rightarrow> [(CHR '':'', None)]
            | b # bs \<Rightarrow> (a ! 1, Some b) # getopt_hpil bs)
         else [(CHR ''?'', None)])
      else getopt_hpil as)"

text \<open>The options seen so far (hostname, gateway port, interface, local port).\<close>

type_synonym opt_flags = "bool \<times> bool \<times> bool \<times> bool"

fun options_loop :: "(char \<times> string ptr) list \<Rightarrow> opt_flags \<Rightarrow> 'a config_scheme \<Rightarrow> int + opt_flags \<times> 'a config_scheme" where
  "options_loop [] fl s = Inr (fl, s)"
| "options_loop ((opt, optarg) # os) (h, p, i, l) s =
     (if opt = CHR ''h'' then
        (if (case optarg of None \<Rightarrow> False | Some a \<Rightarrow> length a > ATLAS_URI_HOSTNAME_MAX_LEN) then Inl 1
         else case atlas_cfg_set_hostname optarg s of
           (st, s1) \<Rightarrow> if st \<noteq> ATLAS_OK then Inl 1 else options_loop os (True, p, i, l) s1)
      else if opt = CHR ''p'' then
        (case atlas_cfg_set_port optarg s of
           (st, s1) \<Rightarrow> if st \<noteq> ATLAS_OK then Inl 1 else options_loop os (h, True, i, l) s1)
      else if opt = CHR ''i'' then
        (case atlas_cfg_set_local_iface optarg s of
           (st, s1) \<Rightarrow> if st \<noteq> ATLAS_OK then Inl 1 else options_loop os (h, p, True, l) s1)
      else if opt = CHR ''l'' then
        (case atlas_cfg_set_local_port optarg s of
           (st, s1) \<Rightarrow> if st \<noteq> ATLAS_OK then Inl 1 else options_loop os (h, p, i, True) s1)
      else Inl 1)"

definition parse_options :: "string list \<Rightarrow> 'a config_scheme \<Rightarrow> int + 'a config_scheme" where
  "parse_options argv s =
     (case options_loop (getopt_hpil (tl argv)) (False, False, False, False) s of
        Inl c \<Rightarrow> Inl c
      | Inr ((h, p, i, l), s1) \<Rightarrow> if h \<and> p \<and> i \<and> l then Inr s1 else Inl 1)"

section \<open>main\<close>

text \<open>
  \<open>Inl c\<close>: the process ended with exit code \<open>c\<close>; \<open>Inr s\<close>: it is in the event loop, in state \<open>s\<close>
  after \<open>n\<close> passes; \<open>None\<close>: a memory fault. \<open>euid\<close> is what \<open>geteuid\<close> returns.
\<close>

definition main :: "nat \<Rightarrow> string list \<Rightarrow> nat \<Rightarrow> 'a execute_scheme \<Rightarrow> (int + 'a execute_scheme) option" where
  "main n argv euid s =
     (case parse_options argv s of
        Inl c \<Rightarrow> Some (Inl c)
      | Inr s1 \<Rightarrow>
        if euid \<noteq> 0 then Some (Inl (-1))
        else
          let (st, s2) = atlas_identity_init s1 in
          if st \<noteq> ATLAS_OK then Some (Inl (-1))
          else
            let (st, s3) = atlas_coap_client_set_dtls_info (Some (atlas_identity_get s2)) (Some (atlas_psk_get s2)) s2 in
            if st \<noteq> ATLAS_OK then Some (Inl (-1))
            else do {
              s4 \<leftarrow> atlas_register_start s3;
              (st, s5) \<leftarrow> atlas_coap_server_start (atlas_cfg_get_local_port s4) ATLAS_COAP_SERVER_MODE_DTLS_PSK
                         (Some (atlas_psk_get s4)) s4;
              if st \<noteq> ATLAS_OK then Some (Inl (-1))
              else
                let (st, s6) = atlas_data_plane_connector_start s5 in
                if st \<noteq> ATLAS_OK then Some (Inl (-1))
                else do {
                  s7 \<leftarrow> atlas_telemetry_features_init s6;
                  (_, s8) \<leftarrow> atlas_command_execute_init s7;
                  s9 \<leftarrow> atlas_sched_loop run_sched n s8;
                  Some (Inr s9) } })"

section \<open>Lemmas: the command line\<close>

definition heap_copy :: "string \<Rightarrow> heap_str" where
  "heap_copy a = \<lparr>hs_cap = length a, hs_str = a\<rparr>"

definition port_ok :: "string \<Rightarrow> bool" where
  "port_ok a \<longleftrightarrow> 1 \<le> atoi a \<and> atoi a \<le> 65535"

text \<open>An option the client accepts, and its effect.\<close>

fun opt_ok :: "char \<times> string ptr \<Rightarrow> bool" where
  "opt_ok (c, None) \<longleftrightarrow> False"
| "opt_ok (c, Some a) \<longleftrightarrow>
     (c = CHR ''h'' \<and> length a \<le> 128) \<or> (c = CHR ''p'' \<and> port_ok a) \<or> c = CHR ''i'' \<or> (c = CHR ''l'' \<and> port_ok a)"

fun apply_opt :: "char \<times> string ptr \<Rightarrow> 'a config_scheme \<Rightarrow> 'a config_scheme" where
  "apply_opt (c, None) s = s"
| "apply_opt (c, Some a) s =
     (if c = CHR ''h'' then s\<lparr>gw_hostname := Some (heap_copy a)\<rparr>
      else if c = CHR ''p'' then s\<lparr>gw_port := Some (heap_copy a)\<rparr>
      else if c = CHR ''i'' then s\<lparr>local_iface := Some (heap_copy a)\<rparr>
      else s\<lparr>local_port := of_int (atoi a)\<rparr>)"

lemma options_loop_eq:
  "options_loop os (h, p, i, l) s =
     (if list_all opt_ok os
      then Inr ((h \<or> CHR ''h'' \<in> fst ` set os, p \<or> CHR ''p'' \<in> fst ` set os, i \<or> CHR ''i'' \<in> fst ` set os,
                 l \<or> CHR ''l'' \<in> fst ` set os), fold apply_opt os s)
      else Inl 1)"
proof (induction os arbitrary: h p i l s)
  case (Cons x os)
  obtain c a where x: "x = (c, a)" by (cases x)
  show ?case
  proof (cases a)
    case None
    then show ?thesis by (simp add: x atlas_cfg_set_hostname_def atlas_cfg_set_port_def atlas_cfg_set_local_iface_def
          atlas_cfg_set_local_port_def)
  next
    case (Some v)
    show ?thesis unfolding x Some
      by (simp add: atlas_cfg_set_hostname_def atlas_cfg_set_port_def atlas_cfg_set_local_iface_def Cons.IH Let_def
          atlas_cfg_set_local_port_def ATLAS_URI_HOSTNAME_MAX_LEN_def ATLAS_MAX_PORT_VAL_def heap_copy_def port_ok_def)
  qed
qed simp

text \<open>The last value given for an option.\<close>

definition last_opt :: "char \<Rightarrow> (char \<times> string ptr) list \<Rightarrow> string ptr" where
  "last_opt c os = (case map_of (rev os) c of None \<Rightarrow> None | Some a \<Rightarrow> a)"

definition configured :: "(char \<times> string ptr) list \<Rightarrow> 'a config_scheme \<Rightarrow> 'a config_scheme" where
  "configured os s =
     s\<lparr>gw_hostname := (case last_opt CHR ''h'' os of None \<Rightarrow> gw_hostname s | Some a \<Rightarrow> Some (heap_copy a)),
       gw_port := (case last_opt CHR ''p'' os of None \<Rightarrow> gw_port s | Some a \<Rightarrow> Some (heap_copy a)),
       local_iface := (case last_opt CHR ''i'' os of None \<Rightarrow> local_iface s | Some a \<Rightarrow> Some (heap_copy a)),
       local_port := (case last_opt CHR ''l'' os of None \<Rightarrow> local_port s | Some a \<Rightarrow> of_int (atoi a))\<rparr>"

lemma last_opt_snoc: "last_opt c (os @ [(d, a)]) = (if c = d then a else last_opt c os)"
  by (simp add: last_opt_def)

lemma apply_opts: "list_all opt_ok os \<Longrightarrow> fold apply_opt os s = configured os s"
proof (induction os rule: rev_induct)
  case (snoc x os)
  obtain c a where x: "x = (c, Some a)" using snoc.prems by (cases x) (auto, metis not_None_eq opt_ok.simps(1))
  have "c \<in> {CHR ''h'', CHR ''p'', CHR ''i'', CHR ''l''}" using snoc.prems by (auto simp: x)
  then show ?case using snoc by (auto simp: x configured_def last_opt_snoc)
qed (simp add: configured_def last_opt_def)

definition options_ok :: "(char \<times> string ptr) list \<Rightarrow> bool" where
  "options_ok os \<longleftrightarrow> list_all opt_ok os \<and> {CHR ''h'', CHR ''p'', CHR ''i'', CHR ''l''} \<subseteq> fst ` set os"

lemma parse_options_eq:
  "parse_options argv s =
     (if options_ok (getopt_hpil (tl argv)) then Inr (configured (getopt_hpil (tl argv)) s) else Inl 1)"
  by (auto simp: parse_options_def options_loop_eq apply_opts options_ok_def)

lemma last_opt_mem:
  assumes "list_all opt_ok os" and "c \<in> fst ` set os"
  obtains a where "last_opt c os = Some a" "(c, Some a) \<in> set os"
proof -
  from assms(2) obtain v where v: "map_of (rev os) c = Some v"
    by (metis map_of_eq_None_iff not_None_eq set_rev)
  then have "(c, v) \<in> set os" by (metis map_of_SomeD set_rev)
  moreover from this obtain a where "v = Some a" using assms(1) by (cases v) (auto simp: list_all_iff)
  ultimately show thesis using that v by (simp add: last_opt_def)
qed

lemma configured_ok:
  assumes "options_ok os" and "\<forall>a. (CHR ''p'', Some a) \<in> set os \<longrightarrow> length a \<le> 5"
  shows "cfg_ok (configured os s)"
proof -
  have ok: "list_all opt_ok os" and c: "CHR ''h'' \<in> fst ` set os" "CHR ''p'' \<in> fst ` set os" "CHR ''i'' \<in> fst ` set os"
    using assms(1) by (simp_all add: options_ok_def)
  obtain h where h: "last_opt CHR ''h'' os = Some h" "(CHR ''h'', Some h) \<in> set os" by (rule last_opt_mem [OF ok c(1)])
  obtain p where p: "last_opt CHR ''p'' os = Some p" "(CHR ''p'', Some p) \<in> set os" by (rule last_opt_mem [OF ok c(2)])
  obtain i where i: "last_opt CHR ''i'' os = Some i" "(CHR ''i'', Some i) \<in> set os" by (rule last_opt_mem [OF ok c(3)])
  have "length h \<le> 128" using ok h(2) by (auto simp: list_all_iff dest: bspec)
  moreover have "length p \<le> 5" using assms(2) p(2) by simp
  ultimately show ?thesis
    by (simp add: cfg_ok_def configured_def h(1) p(1) i(1) heap_copy_def ATLAS_URI_HOSTNAME_MAX_LEN_def)
qed

section \<open>Properties\<close>

definition boot_demo :: execute where
  "boot_demo = execute_demo\<lparr>registered := 0, features := []\<rparr>"

definition argv_demo :: "string list" where
  "argv_demo = [''atlas_client'', ''-h'', ''gw'', ''-p5683'', ''-i'', ''eth0'', ''-l'', ''10100'']"

lemma argv_demo_options:
  "getopt_hpil (tl argv_demo) =
     [(CHR ''h'', Some ''gw''), (CHR ''p'', Some ''5683''), (CHR ''i'', Some ''eth0''), (CHR ''l'', Some ''10100'')]"
  by (simp add: argv_demo_def)

text \<open>
  C40. The command line: \<open>parse_options\<close> accepts exactly the command lines on which \<open>getopt\<close> reports
  only the four known options with their arguments, each of them at least once, with a host name of at
  most 128 characters and ports between 1 and 65535; the configuration then holds the last value of
  each option and nothing else has changed. All other command lines end the process with code 1.
\<close>

theorem command_line_accepted:
  "parse_options argv s =
     (let os = getopt_hpil (tl argv)
      in if (\<forall>x. x \<in> set os \<longrightarrow> (\<exists>a. x = (CHR ''h'', Some a) \<and> length a \<le> 128 \<or>
              (x = (CHR ''p'', Some a) \<or> x = (CHR ''l'', Some a)) \<and> 1 \<le> atoi a \<and> atoi a \<le> 65535 \<or> x = (CHR ''i'', Some a))) \<and>
            {CHR ''h'', CHR ''p'', CHR ''i'', CHR ''l''} \<subseteq> fst ` set os
         then Inr (s\<lparr>gw_hostname := map_option heap_copy (last_opt CHR ''h'' os),
                     gw_port := map_option heap_copy (last_opt CHR ''p'' os),
                     local_iface := map_option heap_copy (last_opt CHR ''i'' os),
                     local_port := of_int (atoi (the (last_opt CHR ''l'' os)))\<rparr>)
         else Inl 1)"
proof -
  let ?os = "getopt_hpil (tl argv)"
  have one: "opt_ok x \<longleftrightarrow> (\<exists>a. x = (CHR ''h'', Some a) \<and> length a \<le> 128 \<or>
      (x = (CHR ''p'', Some a) \<or> x = (CHR ''l'', Some a)) \<and> 1 \<le> atoi a \<and> atoi a \<le> 65535 \<or> x = (CHR ''i'', Some a))" for x
    by (cases x rule: opt_ok.cases) (auto simp: port_ok_def)
  have "configured ?os s = s\<lparr>gw_hostname := map_option heap_copy (last_opt CHR ''h'' ?os),
      gw_port := map_option heap_copy (last_opt CHR ''p'' ?os), local_iface := map_option heap_copy (last_opt CHR ''i'' ?os),
      local_port := of_int (atoi (the (last_opt CHR ''l'' ?os)))\<rparr>" if "options_ok ?os"
  proof -
    have ok: "list_all opt_ok ?os" using that by (simp add: options_ok_def)
    have "\<exists>a. last_opt c ?os = Some a" if "c \<in> fst ` set ?os" for c using last_opt_mem [OF ok that] by blast
    then have "\<exists>a. last_opt CHR ''h'' ?os = Some a" "\<exists>a. last_opt CHR ''p'' ?os = Some a"
        "\<exists>a. last_opt CHR ''i'' ?os = Some a" "\<exists>a. last_opt CHR ''l'' ?os = Some a"
      using that by (simp_all add: options_ok_def)
    then show ?thesis by (auto simp: configured_def)
  qed
  moreover have cond: "(\<forall>x. x \<in> set ?os \<longrightarrow> (\<exists>a. x = (CHR ''h'', Some a) \<and> length a \<le> 128 \<or>
      (x = (CHR ''p'', Some a) \<or> x = (CHR ''l'', Some a)) \<and> 1 \<le> atoi a \<and> atoi a \<le> 65535 \<or> x = (CHR ''i'', Some a))) \<and>
      {CHR ''h'', CHR ''p'', CHR ''i'', CHR ''l''} \<subseteq> fst ` set ?os \<longleftrightarrow> options_ok ?os"
    unfolding options_ok_def list_all_iff Ball_def one ..
  ultimately show ?thesis unfolding Let_def cond parse_options_eq by presburger
qed

theorem command_line_accepted_witness:
  "parse_options argv_demo boot_demo =
     Inr (boot_demo\<lparr>gw_hostname := Some (heap_copy ''gw''), gw_port := Some (heap_copy ''5683''),
       local_iface := Some (heap_copy ''eth0''), local_port := 10100\<rparr>)"
proof -
  have "atoi ''5683'' = 5683" "atoi ''10100'' = 10100" by code_simp+
  then show ?thesis using command_line_accepted [of argv_demo boot_demo]
    by (auto simp: argv_demo_options last_opt_def Let_def)
qed

end
