(* ===== verification/Callbacks.thy ===== *)
theory Callbacks
  imports Ownership Program
begin

text \<open>
  The callbacks of the event loop. For each of them, and for what they call, the lemmas show that
  it does not fault and keeps the ownership invariant, whatever the kernel and libcoap answer, as
  long as the peers keep to the message formats (\<open>env_ok\<close>): the agent sends complete fixed-size
  values, a threshold request has a threshold, and no CoAP message is longer than a datagram.
  \<open>stays\<close>, \<open>keeps\<close> and \<open>adds\<close> are what the callbacks of the loop, the answers to requests and the
  senders guarantee about the lists of the components; each is an instance of the locale
  \<open>guarantee\<close>. \<open>loop_safe\<close> carries the contract through every pass of the event loop.
\<close>

section \<open>The invariant of the running client\<close>

definition threshold_complete :: "byte list \<Rightarrow> bool" where
  "threshold_complete bs \<longleftrightarrow> (\<forall>xs. dec_tlvs bs = Some xs \<longrightarrow> list_ex is_scan_rate xs \<longrightarrow> list_ex is_threshold xs)"

definition env_ok :: "'a payloads_scheme \<Rightarrow> bool" where
  "env_ok s \<longleftrightarrow>
     (\<forall>n bs xs. e_read s n = Some bs \<longrightarrow> dec_tlvs (take 2048 bs) = Some xs \<longrightarrow> agent_msg_ok xs) \<and>
     (\<forall>n. \<forall>m \<in> set (e_io s n). length (pdu_data (msg_pdu m)) < 65536) \<and>
     (\<forall>n. \<forall>r \<in> set (e_srv_io s n). length (sr_data r) < 65536 \<and> threshold_complete (sr_data r))"

definition sys_inv :: "'a telemetry_scheme \<Rightarrow> bool" where
  "sys_inv s \<longleftrightarrow> push_env s \<and> own_inv s \<and> env_ok s"

text \<open>What no callback of the loop changes.\<close>

definition same_cfg :: "'a telemetry_scheme \<Rightarrow> 'a telemetry_scheme \<Rightarrow> bool" where
  "same_cfg s t \<longleftrightarrow> gw_hostname t = gw_hostname s \<and> gw_port t = gw_port s \<and> local_iface t = local_iface s \<and>
     identity_str t = identity_str s \<and> psk_str t = psk_str s \<and>
     map te_uri_path (features t) = map te_uri_path (features s) \<and>
     e_read t = e_read s \<and> e_io t = e_io s \<and> e_srv_io t = e_srv_io s"

lemma sys_invI:
  assumes "sys_inv s" and "own_inv t" and "same_cfg s t"
  shows "sys_inv t"
proof -
  have "\<forall>p \<in> set (features t). length (te_uri_path p) \<le> 112"
  proof
    fix p assume "p \<in> set (features t)"
    then have "te_uri_path p \<in> set (map te_uri_path (features s))"
      using assms(3) unfolding same_cfg_def by (metis image_eqI set_map)
    then show "length (te_uri_path p) \<le> 112" using assms(1) by (auto simp: sys_inv_def push_env_def)
  qed
  moreover have "-1 \<notin> set (fds t)" using assms(2) by (simp add: own_inv_def own_desc_iff)
  ultimately show ?thesis using assms
    by (simp add: sys_inv_def push_env_def conn_env_def cfg_ok_def ident_ok_def env_ok_def same_cfg_def)
qed

lemma sys_own: "sys_inv s \<Longrightarrow> own_inv s"
  and sys_push: "sys_inv s \<Longrightarrow> push_env s"
  and sys_conn: "sys_inv s \<Longrightarrow> conn_env s"
  and sys_env: "sys_inv s \<Longrightarrow> env_ok s"
  by (simp_all add: sys_inv_def push_env_def)

section \<open>What callbacks keep of the lists\<close>

definition req_key :: "client_req \<Rightarrow> nat \<times> int \<times> nat \<times> int" where
  "req_key r = (rq_addr r, rq_alarm_id r, rq_ctx r, rq_fd r)"

text \<open>The server stays up; requests in progress stay, with their timers; all timers stay.\<close>

definition stays :: "'a telemetry_scheme \<Rightarrow> 'a telemetry_scheme \<Rightarrow> bool" where
  "stays s t \<longleftrightarrow> srv_ctx t = srv_ctx s \<and> e_srv_io t = e_srv_io s \<and> e_io t = e_io s"

definition keeps :: "'a telemetry_scheme \<Rightarrow> 'a telemetry_scheme \<Rightarrow> bool" where
  "keeps s t \<longleftrightarrow> stays s t \<and> prefix (map req_key (req_entries s)) (map req_key (req_entries t)) \<and>
     (\<forall>a \<in> set (alarm_entries s). al_callback a = Request_alarm_cb \<longrightarrow> a \<in> set (alarm_entries t))"

definition adds :: "'a telemetry_scheme \<Rightarrow> 'a telemetry_scheme \<Rightarrow> bool" where
  "adds s t \<longleftrightarrow> stays s t \<and> prefix (map req_key (req_entries s)) (map req_key (req_entries t)) \<and>
     prefix (alarm_entries s) (alarm_entries t)"

lemma adds_keeps: "adds s t \<Longrightarrow> keeps s t"
  by (auto simp: adds_def keeps_def dest: set_mono_prefix)

lemma keeps_stays: "keeps s t \<Longrightarrow> stays s t"
  by (simp add: keeps_def)

lemma safe_keeps: "safe_from ok adds s r \<Longrightarrow> safe_from ok keeps s r"
  by (erule safe_from_mono) (rule adds_keeps)

lemma safe_stays: "safe_from ok keeps s r \<Longrightarrow> safe_from ok stays s r"
  by (erule safe_from_mono) (rule keeps_stays)

interpretation up: guarantee sys_inv stays
  by unfold_locales (simp_all add: stays_def)

interpretation cli: guarantee sys_inv keeps
  by unfold_locales (auto simp: keeps_def stays_def intro: prefix_order.trans)

interpretation sender: guarantee sys_inv adds
  by unfold_locales (auto simp: adds_def stays_def intro: prefix_order.trans)

section \<open>Senders\<close>

lemma request_clock_mono:
  "atlas_coap_client_request u m p len tmo cb s = Some (st, t) \<Longrightarrow> clock s \<le> clock t"
  by (auto simp: atlas_coap_client_request_def request_on_context_def add_request_def coap_new_context_def fd_new_def
      tick_def emit_def get_new_token_def coap_free_context_def fd_close_def Let_def alarm_defs
      split: option.splits prod.splits if_splits bind_splits)

lemma sends_clock_mono: "sends path m xs tmo cb s = Some t \<Longrightarrow> clock s \<le> clock t"
  by (auto simp: sends_def dest: request_clock_mono)

lemma sends_safe:
  assumes "sys_inv s"
  shows "safe_from sys_inv adds s (sends path m xs tmo cb s)"
proof -
  obtain t where t: "sends path m xs tmo cb s = Some t" using sends_total by blast
  have "-1 \<notin> set (fds s)" using sys_conn [OF assms] by (simp add: conn_env_def)
  from sends_sent_or_not [OF t this] have sn: "sent_or_not (cfg_uri s path) m (enc_tlvs xs) tmo cb s t" .
  have "same_cfg s t \<and> adds s t"
    using sn by (auto simp: sent_or_not_def request_sent_def same_cfg_def adds_def stays_def)
  moreover have "own_inv t"
  proof -
    from sn consider (no) k tk where "t = s\<lparr>token_ctr := tk, clock := k\<rparr>"
      | (yes) h ses f a where "0 \<le> f" "0 \<le> a" "a \<noteq> f" "f \<notin> set (fds s)" "a \<notin> set (fds s)" "h \<notin> fst ` set (coap_ctxs s)"
          "t = request_sent (cfg_uri s path) m (enc_tlvs xs) tmo cb h ses f a s"
      unfolding sent_or_not_def by blast
    then show ?thesis
    proof cases
      case no
      then have "clock s \<le> clock t" using sends_clock_mono [OF t] by simp
      then show ?thesis using no by (intro own_frame [OF sys_own [OF assms]]) simp_all
    next
      case yes
      from own_request_sent [OF sys_own [OF assms] yes(1-6)] show ?thesis by (simp add: yes(7))
    qed
  qed
  ultimately show ?thesis using t sys_invI [OF assms] by (simp add: safe_from_def)
qed

text \<open>The clock and the variables that the invariant does not mention.\<close>

lemma sys_frame:
  assumes "sys_inv s" and "same_cfg s t" and "alarm_entries t = alarm_entries s" "coap_ctxs t = coap_ctxs s"
    "connected_socket t = connected_socket s" "fds t = fds s" "ka_alarm_id t = ka_alarm_id s"
    "features t = features s" "req_entries t = req_entries s" "srv_ctx t = srv_ctx s" "clock s \<le> clock t"
  shows "sys_inv t" and "adds s t"
proof -
  show "sys_inv t" by (rule sys_invI [OF assms(1) own_frame [OF sys_own [OF assms(1)]] assms(2)]) (use assms in simp_all)
  show "adds s t" using assms by (simp add: adds_def stays_def same_cfg_def)
qed

lemma sys_clock: "sys_inv s \<Longrightarrow> clock s \<le> k \<Longrightarrow> sys_inv (s\<lparr>clock := k\<rparr>)" "adds s (s\<lparr>clock := k\<rparr>)"
  by (auto intro: sys_frame(1) simp: same_cfg_def adds_def stays_def)

lemma sends_later: "sys_inv s \<Longrightarrow> clock s \<le> k \<Longrightarrow> safe_from sys_inv adds s (sends path m xs tmo cb (s\<lparr>clock := k\<rparr>))"
  by (rule sender.after [OF sys_clock(2) sends_safe [OF sys_clock(1)]])

lemma cfg_parts: "sys_inv s \<Longrightarrow> cfg_ok s" "sys_inv s \<Longrightarrow> ident_ok s" "sys_inv s \<Longrightarrow> -1 \<notin> set (fds s)"
  by (simp_all add: sys_inv_def push_env_def conn_env_def)

lemma send_register_safe: "sys_inv s \<Longrightarrow> safe_from sys_inv adds s (send_register_command s)"
  using send_register_refines [of s] cfg_parts [of s] sends_later [of s] by metis

lemma send_keepalive_safe:
  assumes "sys_inv s"
  shows "safe_from sys_inv adds s (send_keepalive_command s)"
proof -
  from send_keepalive_refines [OF cfg_parts(1,2) [OF assms]] obtain xs k where
    r: "send_keepalive_command s = sends ATLAS_CLIENT_KEEPALIVE_COAP_PATH ATLAS_COAP_METHOD_PUT xs 5000 Keepalive_callback
      (s\<lparr>clock := k, ka_token := ka_token s + 1\<rparr>)" "clock s \<le> k" by blast
  let ?t = "s\<lparr>clock := k, ka_token := ka_token s + 1\<rparr>"
  have "sys_inv ?t" "adds s ?t" using sys_frame [OF assms, of ?t] r(2) by (simp_all add: same_cfg_def)
  then show ?thesis unfolding r(1) by (intro sender.after [OF _ sends_safe])
qed

lemma send_policy_safe: "sys_inv s \<Longrightarrow> safe_from sys_inv adds s (send_policy_command s)"
  using send_policy_refines [of s] cfg_parts [of s] sends_safe [of s] sender.same [of s] by simp

lemma push_safe:
  assumes "sys_inv s" and "length (te_uri_path p) \<le> 112"
  shows "safe_from sys_inv adds s (atlas_telemetry_push p thr s)"
proof (cases "registered s = 0")
  case True
  then show ?thesis using assms(1) by (simp add: push_unregistered sender.same)
next
  case False
  from push_refines [OF False cfg_parts(1,2) [OF assms(1)] assms(2), of thr] obtain k where
    k: "clock s \<le> k" "atlas_telemetry_push p thr s =
    (case payload_text (te_payload_cb p) thr s of
       None \<Rightarrow> Some (s\<lparr>clock := k\<rparr>)
     | Some (ty, t) \<Rightarrow> sends (te_uri_path p) ATLAS_COAP_METHOD_PUT (id_tlvs s (cmd_code ty) (str_bytes t)) 40000
                        Telemetry_callback (s\<lparr>clock := k\<rparr>))" by blast
  have "safe_from sys_inv adds s (Some (s\<lparr>clock := k\<rparr>))"
    using assms(1) k(1) by (simp add: safe_from_def sys_clock)
  then show ?thesis using sends_later [OF assms(1) k(1)] by (simp add: k(2) split: option.splits prod.splits)
qed

lemma feature_path: "sys_inv s \<Longrightarrow> p \<in> set (features s) \<Longrightarrow> length (te_uri_path p) \<le> 112"
  by (simp add: sys_inv_def push_env_def)

lemma find_push_safe:
  "sys_inv s \<Longrightarrow> safe_from sys_inv adds s
    (case find P (features s) of None \<Rightarrow> Some s | Some p \<Rightarrow> atlas_telemetry_push p thr s)"
  by (auto intro!: push_safe sender.same simp: find_Some_iff intro: feature_path split: option.splits)

lemma push_all_safe: "sys_inv s \<Longrightarrow> safe_from sys_inv adds s (atlas_telemetry_push_all s)"
  unfolding atlas_telemetry_push_all_def
  by (rule sender.run_list [where f = "\<lambda>p. atlas_telemetry_push p ATLAS_TELEMETRY_SKIP_THRESHOLD"])
    (auto intro: push_safe feature_path)

section \<open>Timers\<close>

lemma alarm_set_cfg: "same_cfg s (snd (atlas_alarm_set ms c r s))"
  by (simp add: same_cfg_def alarm_defs Let_def)

lemma alarm_set_adds: "adds s (snd (atlas_alarm_set ms c r s))"
  by (simp add: adds_def stays_def alarm_defs Let_def)

lemma alarm_set_safe:
  assumes "sys_inv s" and "r \<longleftrightarrow> \<not> repeats c"
  shows "sys_inv (snd (atlas_alarm_set ms c r s))"
  by (rule sys_invI [OF assms(1) own_alarm_set [OF sys_own [OF assms(1)] assms(2)] alarm_set_cfg])

section \<open>Answers of the gateway\<close>

lemma reg_callback_safe:
  assumes "sys_inv s"
  shows "safe_from sys_inv adds s (reg_callback u r p s)"
proof (cases "r = ATLAS_COAP_RESP_OK")
  case False
  then show ?thesis
    using alarm_set_safe [OF assms, of True Reg_alarm_callback] alarm_set_adds
    by (simp add: reg_callback_def safe_from_def repeats_def)
next
  case True
  let ?ka = "\<lambda>t. let (i, s4) = atlas_alarm_set ATLAS_CLIENT_KEEPALIVE_TIMEOUT_MS Keepalive_alarm_callback False t
      in Some (s4\<lparr>ka_alarm_id := i\<rparr>)"
  have ka: "safe_from sys_inv adds t (?ka t)" if t: "sys_inv t" for t :: "'a telemetry_scheme"
  proof -
    let ?r = "atlas_alarm_set ATLAS_CLIENT_KEEPALIVE_TIMEOUT_MS Keepalive_alarm_callback False t"
    let ?t = "(snd ?r)\<lparr>ka_alarm_id := fst ?r\<rparr>"
    have "same_cfg t ?t" "adds t ?t"
      using alarm_set_cfg [of t ATLAS_CLIENT_KEEPALIVE_TIMEOUT_MS] alarm_set_adds [of t ATLAS_CLIENT_KEEPALIVE_TIMEOUT_MS]
      by (simp_all add: same_cfg_def adds_def stays_def)
    moreover from this(1) have "sys_inv ?t" by (rule sys_invI [OF t own_ka_set [OF sys_own [OF t]]])
    ultimately show ?thesis by (simp add: safe_from_def case_prod_beta)
  qed
  have reg: "sys_inv (t\<lparr>registered := x\<rparr>)" "adds t (t\<lparr>registered := x\<rparr>)" if "sys_inv t" for t :: "'a telemetry_scheme" and x
    using sys_frame [OF that, of "t\<lparr>registered := x\<rparr>"] by (simp_all add: same_cfg_def)
  have "reg_callback u r p s = (if registered s = ATLAS_CLIENT_NOT_REGISTERED then send_policy_command s else Some s) \<bind>
      (\<lambda>t. atlas_telemetry_push_all (t\<lparr>registered := ATLAS_CLIENT_REGISTERED\<rparr>) \<bind> ?ka)"
    using True by (simp add: reg_callback_def Let_def)
  moreover have "safe_from sys_inv adds s (if registered s = ATLAS_CLIENT_NOT_REGISTERED then send_policy_command s else Some s)"
    using assms by (simp add: send_policy_safe sender.same)
  ultimately show ?thesis
    by (simp only:) (rule sender.bind, assumption, rule sender.after [OF reg(2)], assumption,
      rule sender.bind [OF push_all_safe ka], rule reg(1))
qed

lemma outs_frame: "sys_inv s \<Longrightarrow> sys_inv (s\<lparr>outs := x\<rparr>)" "sys_inv s \<Longrightarrow> adds s (s\<lparr>outs := x\<rparr>)"
  using sys_frame [of s "s\<lparr>outs := x\<rparr>"] by (simp_all add: same_cfg_def)

lemma cancel_cfg: "same_cfg s (atlas_alarm_cancel i s)"
  by (simp add: same_cfg_def alarm_defs Let_def)

lemma keepalive_err_safe:
  assumes "sys_inv s"
  shows "safe_from sys_inv keeps s (keepalive_err s)"
proof (cases "ka_count s = 1")
  case False
  have "sys_inv (s\<lparr>ka_count := ka_count s - 1\<rparr>)" "adds s (s\<lparr>ka_count := ka_count s - 1\<rparr>)"
    using sys_frame [OF assms, of "s\<lparr>ka_count := ka_count s - 1\<rparr>"] by (simp_all add: same_cfg_def)
  then show ?thesis using False by (simp add: keepalive_err_eq safe_from_def adds_keeps)
next
  case True
  let ?i = "ka_alarm_id s"
  have own: "own_inv (unregistered s)" using sys_own [OF assms] by (rule own_unregistered)
  have "same_cfg s (unregistered s)"
    using cancel_cfg [of "s\<lparr>ka_count := 0, registered := 0\<rparr>" ?i] by (simp add: same_cfg_def unregistered_def)
  then have inv: "sys_inv (unregistered s)" by (rule sys_invI [OF assms own])
  have e: "alarm_entries (unregistered s) = del_first (\<lambda>a. al_id a = ?i) (alarm_entries s)"
      "req_entries (unregistered s) = req_entries s" "srv_ctx (unregistered s) = srv_ctx s"
      "e_srv_io (unregistered s) = e_srv_io s" "e_io (unregistered s) = e_io s"
    by (simp_all add: unregistered_def atlas_alarm_cancel_entries alarm_cancel_frame)
      (simp_all add: alarm_defs Let_def)
  have d: "distinct (map al_id (alarm_entries s))" using sys_own [OF assms] by (simp add: own_inv_def own_desc_iff)
  have "al_id a \<noteq> ?i" if "a \<in> set (alarm_entries s)" "al_callback a = Request_alarm_cb" for a
  proof
    assume i: "al_id a = ?i"
    have "(?i, Request_alarm_cb) \<in> set (alarm_active s)" using that i by (auto simp: alarm_active_def intro: rev_image_eqI)
    moreover have "?i \<noteq> -1" "?i \<noteq> 0" using own_timer_id [OF sys_own [OF assms]] that(1) i by (metis imageI)+
    then have "(?i, Keepalive_alarm_callback) \<in> set (alarm_active s)"
      using sys_own [OF assms] by (simp add: own_inv_def own_ka_def)
    ultimately show False using alarm_kind [OF own_alarm_inv [OF sys_own [OF assms]]] by blast
  qed
  then have "keeps s (unregistered s)" using d by (simp add: keeps_def stays_def e del_first_filter)
  then show ?thesis using True safe_keeps [OF send_register_safe [OF inv]]
    by (simp add: keepalive_err_eq cli.after)
qed

lemma keepalive_callback_safe:
  assumes "sys_inv s"
  shows "safe_from sys_inv keeps s (keepalive_callback u r p s)"
proof -
  have c: "sys_inv (s\<lparr>ka_count := x\<rparr>)" "keeps s (s\<lparr>ka_count := x\<rparr>)" for x
    using sys_frame [OF assms, of "s\<lparr>ka_count := x\<rparr>"] by (simp_all add: same_cfg_def adds_keeps)
  then have "safe_from sys_inv keeps s (Some (s\<lparr>ka_count := x\<rparr>))" for x by (simp add: safe_from_def)
  moreover have "safe_from sys_inv keeps s (keepalive_err (s\<lparr>ka_count := x\<rparr>))" for x
    using c by (intro cli.after [OF _ keepalive_err_safe])
  ultimately show ?thesis using keepalive_err_safe [OF assms]
    by (auto simp: keepalive_callback_def split: option.splits)
qed

lemma run_client_safe:
  assumes "sys_inv s" and "case p of None \<Rightarrow> True | Some b \<Rightarrow> length b < 65536"
  shows "safe_from sys_inv keeps s (run_client c u r p s)"
proof (cases c)
  case Reg_callback
  then show ?thesis using safe_keeps [OF reg_callback_safe [OF assms(1)]] by simp
next
  case Keepalive_callback
  then show ?thesis using keepalive_callback_safe [OF assms(1)] by simp
next
  case Policy_callback
  then show ?thesis using alarm_set_safe [OF assms(1), of True Policy_alarm_callback] cli.same [OF assms(1)]
    by (simp add: policy_callback_def safe_from_def repeats_def alarm_set_adds adds_keeps)
next
  case Feature_reputation_callback
  have ans: "safe_from sys_inv keeps s (Some (s\<lparr>outs := x\<rparr>))" for x
    using outs_frame [OF assms(1)] by (simp add: safe_from_def adds_keeps)
  show ?thesis
  proof (cases "r = ATLAS_COAP_RESP_OK")
    case True
    show ?thesis
    proof (cases p)
      case None
      then show ?thesis using True Feature_reputation_callback cli.same [OF assms(1)]
        by (simp add: feature_reputation_callback_def atlas_reputation_resp_parse_def)
    next
      case (Some b)
      then show ?thesis using True Feature_reputation_callback assms(2) ans by (simp add: reputation_callback_ok)
    qed
  qed (simp add: Feature_reputation_callback reputation_callback_failed ans)
next
  case Feedback_callback
  then show ?thesis using assms(1) by (simp add: feedback_callback_def cli.same)
next
  case Telemetry_callback
  then show ?thesis using safe_keeps [OF find_push_safe [OF assms(1)]] cli.same [OF assms(1)]
    by (simp add: telemetry_callback_def)
qed

section \<open>CoAP client\<close>

text \<open>The invariant depends on the requests only through their keys.\<close>

lemma own_keys:
  assumes "own_inv s" and k: "map req_key es = map req_key (req_entries s)"
  shows "own_inv (s\<lparr>req_entries := es\<rparr>)"
proof -
  have m: "map f es = map f (req_entries s)" if "\<And>r. f r = g (req_key r)" for f :: "client_req \<Rightarrow> 'b" and g
  proof -
    have "f = g \<circ> req_key" using that by (simp add: fun_eq_iff)
    then show ?thesis using arg_cong [OF k, of "map g"] by simp
  qed
  have l: "map rq_alarm_id es = map rq_alarm_id (req_entries s)" "map rq_addr es = map rq_addr (req_entries s)"
      "map rq_ctx es = map rq_ctx (req_entries s)"
    by (rule m [of _ "\<lambda>(a, b, c, d). b"], simp add: req_key_def, rule m [of _ "\<lambda>(a, b, c, d). a"], simp add: req_key_def,
      rule m [of _ "\<lambda>(a, b, c, d). c"], simp add: req_key_def)
  have all: "(\<forall>r \<in> set es. P (req_key r)) = (\<forall>r \<in> set (req_entries s). P (req_key r))" for P
    using arg_cong [OF k, of set] by (simp add: ball_simps(9) [symmetric] del: ball_simps(9))
  have "own_reqs (s\<lparr>req_entries := es\<rparr>)"
    using assms(1) all [of "\<lambda>(a, b, c, d). (b, Request_alarm_cb) \<in> set (alarm_active s)"]
      all [of "\<lambda>(a, b, c, d). a \<le> clock s"]
    by (simp add: own_inv_def own_reqs_def l alarm_active_def req_key_def)
  moreover have "own_ctxs (s\<lparr>req_entries := es\<rparr>)"
    using assms(1) all [of "\<lambda>(a, b, c, d). (c, d) \<in> set (coap_ctxs s) \<and> srv_ctx s \<noteq> Some c"]
    by (simp add: own_inv_def own_ctxs_def l req_key_def)
  ultimately show ?thesis using assms(1)
    by (simp add: own_inv_def own_desc_iff own_ka_def own_feats_def own_once_def alarm_active_def)
qed

lemma dirty_safe:
  fixes s :: "'a telemetry_scheme"
  defines "t \<equiv> \<lambda>P. s\<lparr>req_entries := upd_first P (\<lambda>e. e\<lparr>rq_dirty := True\<rparr>) (req_entries s)\<rparr>"
  assumes "sys_inv s"
  shows "sys_inv (t P)" and "keeps s (t P)"
proof -
  have k: "map req_key (upd_first P (\<lambda>e. e\<lparr>rq_dirty := True\<rparr>) es) = map req_key es" for es
    by (induction es) (simp_all add: req_key_def)
  show "sys_inv (t P)" unfolding t_def
    by (rule sys_invI [OF assms(2) own_keys [OF sys_own [OF assms(2)] k]]) (simp add: same_cfg_def)
  show "keeps s (t P)" unfolding t_def by (simp add: keeps_def stays_def k)
qed

lemma response_short: "length (pdu_data m) < 65536 \<Longrightarrow> case snd (response_of m) of None \<Rightarrow> True | Some b \<Rightarrow> length b < 65536"
  by (simp add: response_of_def)

lemma message_handler_safe:
  assumes "sys_inv s" and "length (pdu_data (msg_pdu m)) < 65536"
  shows "safe_from sys_inv keeps s (message_handler run_client ctx m s)"
proof -
  have "safe_from sys_inv keeps s (Some (emit x s))" for x
    using outs_frame [OF assms(1)] by (simp add: safe_from_def emit_def adds_keeps)
  moreover have "safe_from sys_inv keeps s (run_client c u (fst (response_of (msg_pdu m))) (snd (response_of (msg_pdu m)))
      (s\<lparr>req_entries := upd_first P (\<lambda>e. e\<lparr>rq_dirty := True\<rparr>) (req_entries s)\<rparr>))" for c u P
    by (rule cli.after [OF dirty_safe(2) run_client_safe [OF dirty_safe(1)]]) (use assms response_short in auto)
  ultimately show ?thesis using cli.same [OF assms(1)]
    by (simp add: message_handler_def Let_def case_prod_beta split: option.split)
qed

lemma handle_messages_safe:
  assumes "sys_inv s" and "\<forall>m \<in> set ms. length (pdu_data (msg_pdu m)) < 65536"
  shows "safe_from sys_inv keeps s (handle_messages run_client ctx ms s)"
  by (rule cli.run_list [where f = "message_handler run_client ctx" and loop = "handle_messages run_client ctx"])
    (use assms in \<open>simp_all add: message_handler_safe\<close>)

text \<open>A request in progress is still there after callbacks, in its block.\<close>

lemma find_key:
  assumes "own_inv t" and "keeps s t" and "r \<in> set (req_entries s)"
  obtains q where "find (\<lambda>p. rq_addr p = rq_addr r) (req_entries t) = Some q" "q \<in> set (req_entries t)" "req_key q = req_key r"
proof -
  from assms(2,3) have "req_key r \<in> set (map req_key (req_entries t))"
    using set_mono_prefix [of "map req_key (req_entries s)" "map req_key (req_entries t)"] by (auto simp: keeps_def)
  then obtain q where q: "q \<in> set (req_entries t)" "req_key q = req_key r" by auto
  then have a: "rq_addr q = rq_addr r" by (simp add: req_key_def)
  have d: "distinct (map rq_addr (req_entries t))" using assms(1) by (simp add: own_inv_def own_reqs_def)
  from q(1) a obtain p where p: "find (\<lambda>p. rq_addr p = rq_addr r) (req_entries t) = Some p"
    by (metis (mono_tags, lifting) find_None_iff option.exhaust)
  then have "p \<in> set (req_entries t)" "rq_addr p = rq_addr q" using a by (auto simp: find_Some_iff)
  then have "p = q" using d q(1) by (auto simp: distinct_map dest: inj_onD)
  with that p q show thesis by blast
qed

lemma release_frame:
  "same_cfg s (coap_free_context h (atlas_sched_del_entry f (s\<lparr>req_entries := es\<rparr>)))"
  "stays s (coap_free_context h (atlas_sched_del_entry f (s\<lparr>req_entries := es\<rparr>)))"
  "alarm_entries (coap_free_context h (atlas_sched_del_entry f (s\<lparr>req_entries := es\<rparr>))) = alarm_entries s"
  "req_entries (coap_free_context h (atlas_sched_del_entry f (s\<lparr>req_entries := es\<rparr>))) = es"
  "same_cfg s (coap_free_context h (atlas_alarm_cancel i (atlas_sched_del_entry f (s\<lparr>req_entries := es\<rparr>))))"
  "stays s (coap_free_context h (atlas_alarm_cancel i (atlas_sched_del_entry f (s\<lparr>req_entries := es\<rparr>))))"
  by (simp_all add: same_cfg_def stays_def coap_free_context_def fd_close_def alarm_defs Let_def)

lemma coap_client_safe:
  assumes "sys_inv s"
  shows "safe_from sys_inv stays s (coap_client_sched_callback run_client fd s)"
proof (cases "find (\<lambda>p. rq_fd p = fd) (req_entries s)")
  case None
  then show ?thesis using up.same [OF assms] by (simp add: coap_client_sched_callback_def)
next
  case (Some p0)
  then have p0: "p0 \<in> set (req_entries (tick s))" by (auto simp: find_Some_iff tick_def)
  have tick: "sys_inv (tick s)" "adds s (tick s)" using sys_clock [of s "Suc (clock s)"] assms by (simp_all add: tick_def)
  have "\<forall>m \<in> set (e_io s (clock s)). length (pdu_data (msg_pdu m)) < 65536" using sys_env [OF assms] by (simp add: env_ok_def)
  from handle_messages_safe [OF tick(1) this, of "rq_ctx p0"] obtain t where
    t: "handle_messages run_client (rq_ctx p0) (e_io s (clock s)) (tick s) = Some t" "sys_inv t" "keeps (tick s) t"
    by (rule safe_fromE)
  from find_key [OF sys_own [OF t(2)] t(3) p0] obtain q where
    q: "find (\<lambda>p. rq_addr p = rq_addr p0) (req_entries t) = Some q" "q \<in> set (req_entries t)" "rq_addr q = rq_addr p0"
    by (auto simp: req_key_def)
  let ?es = "del_first (\<lambda>p. rq_addr p = rq_addr q) (req_entries t)"
  let ?u = "coap_free_context (rq_ctx q) (atlas_alarm_cancel (rq_alarm_id q) (atlas_sched_del_entry (rq_fd q) (t\<lparr>req_entries := ?es\<rparr>)))"
  have "sys_inv ?u" by (rule sys_invI [OF t(2) own_release_response [OF sys_own [OF t(2)] q(2)] release_frame(5)])
  moreover have st: "stays s t" using up.rel_trans [OF keeps_stays [OF adds_keeps [OF tick(2)]] keeps_stays [OF t(3)]] .
  then have "stays s ?u" by (rule up.rel_trans) (rule release_frame(6))
  ultimately show ?thesis using Some t(1,2) q(1,3) st
    by (auto simp: coap_client_sched_callback_def safe_from_def Let_def)
qed

section \<open>Timers that fire\<close>

definition fired :: "'a telemetry_scheme \<Rightarrow> 'a telemetry_scheme \<Rightarrow> bool" where
  "fired s t \<longleftrightarrow> stays s t \<and> (\<forall>a \<in> set (alarm_entries s). al_callback a = Request_alarm_cb \<longrightarrow> a \<in> set (alarm_entries t))"

lemma request_alarm_safe:
  assumes "sys_inv s"
  obtains t where "request_alarm_cb run_client i s = Some t" "sys_inv t" "fired s t" "i \<notin> rq_alarm_id ` set (req_entries t)"
    "\<forall>r \<in> set (req_entries s). rq_alarm_id r = i \<longrightarrow>
       rq_addr r \<notin> rq_addr ` set (req_entries t) \<and> rq_ctx r \<notin> fst ` set (coap_ctxs t)"
proof (cases "find (\<lambda>p. rq_alarm_id p = i) (req_entries s)")
  case None
  then have "request_alarm_cb run_client i s = Some s" by (simp add: request_alarm_cb_def)
  moreover have "i \<notin> rq_alarm_id ` set (req_entries s)" using None by (auto simp: find_None_iff)
  ultimately show thesis using that assms by (auto simp: fired_def stays_def)
next
  case (Some p)
  then have p: "p \<in> set (req_entries s)" "rq_alarm_id p = i" by (auto simp: find_Some_iff)
  have "safe_from sys_inv keeps s (run_client (rq_callback p) (rq_uri p) ATLAS_COAP_RESP_TIMEOUT None s)"
    by (rule run_client_safe [OF assms]) simp
  then obtain t where
    t: "run_client (rq_callback p) (rq_uri p) ATLAS_COAP_RESP_TIMEOUT None s = Some t" "sys_inv t" "keeps s t"
    by (rule safe_fromE)
  from find_key [OF sys_own [OF t(2)] t(3) p(1)] obtain q where
    q: "find (\<lambda>r. rq_addr r = rq_addr p) (req_entries t) = Some q" "q \<in> set (req_entries t)" "req_key q = req_key p" by blast
  then have k: "rq_addr q = rq_addr p" "rq_alarm_id q = i" "rq_ctx q = rq_ctx p" "rq_fd q = rq_fd p"
    using p(2) by (simp_all add: req_key_def)
  let ?es = "del_first (\<lambda>r. rq_addr r = rq_addr q) (req_entries t)"
  let ?u = "coap_free_context (rq_ctx q) (atlas_sched_del_entry (rq_fd q) (t\<lparr>req_entries := ?es\<rparr>))"
  show thesis
  proof (rule that [of ?u])
    show "request_alarm_cb run_client i s = Some ?u"
      using Some t(1) q(1) by (simp add: request_alarm_cb_def k)
    show "sys_inv ?u" by (rule sys_invI [OF t(2) own_release_timeout [OF sys_own [OF t(2)] q(2)] release_frame(1)])
    show "fired s ?u" using t(3) up.rel_trans [OF keeps_stays [OF t(3)] release_frame(2)]
      by (simp add: fired_def release_frame(3) keeps_def)
    show "i \<notin> rq_alarm_id ` set (req_entries ?u)"
      using own_drop_entry(2) [OF sys_own [OF t(2)] q(2)] by (simp add: release_frame(4) k(2))
    show "\<forall>r \<in> set (req_entries s). rq_alarm_id r = i \<longrightarrow>
        rq_addr r \<notin> rq_addr ` set (req_entries ?u) \<and> rq_ctx r \<notin> fst ` set (coap_ctxs ?u)"
    proof (intro ballI impI)
      fix r assume r: "r \<in> set (req_entries s)" "rq_alarm_id r = i"
      have "r = p" using sys_own [OF assms] r p by (auto simp: own_inv_def own_reqs_def distinct_map dest: inj_onD)
      moreover have "distinct (map rq_addr (req_entries t))" using sys_own [OF t(2)] by (simp add: own_inv_def own_reqs_def)
      ultimately show "rq_addr r \<notin> rq_addr ` set (req_entries ?u) \<and> rq_ctx r \<notin> fst ` set (coap_ctxs ?u)"
        by (auto simp: release_frame(4) del_first_filter k) (auto simp: coap_free_context_def Let_def)
    qed
  qed
qed

lemma run_alarm_safe:
  assumes "sys_inv s" and "c \<noteq> Request_alarm_cb"
  shows "safe_from sys_inv adds s (run_alarm c i s)"
proof -
  have "safe_from sys_inv adds s (Some (emit x s))" for x
    using outs_frame [OF assms(1)] by (simp add: safe_from_def emit_def)
  then show ?thesis using assms find_push_safe [OF assms(1)]
    by (cases c) (simp_all add: send_keepalive_safe send_register_safe send_policy_safe keepalive_alarm_callback_def
        reg_alarm_callback_def policy_alarm_callback_def push_alert_alarm_cb_def threshold_alert_alarm_cb_def
        command_execution_restart_alarm_callback_def command_execution_shutdown_alarm_callback_def
        atlas_command_execute_restart_def atlas_command_execute_shutdown_def)
qed

text \<open>After its callback the entry of the timer is still there; a one-shot timer is then kept by nobody.\<close>

lemma alarm_callback_safe:
  assumes "sys_inv s" and "a \<in> set (alarm_entries s)"
  obtains t where "run_alarm (al_callback a) (al_id a) s = Some t" "sys_inv t" "stays s t" "a \<in> set (alarm_entries t)"
    "al_callback a = Request_alarm_cb \<longrightarrow> al_id a \<notin> rq_alarm_id ` set (req_entries t)"
proof (cases "al_callback a = Request_alarm_cb")
  case True
  obtain t where "request_alarm_cb run_client (al_id a) s = Some t" "sys_inv t" "fired s t"
    "al_id a \<notin> rq_alarm_id ` set (req_entries t)"
    by (rule request_alarm_safe [OF assms(1)])
  then show thesis using that True assms(2) by (simp add: fired_def)
next
  case False
  from run_alarm_safe [OF assms(1) False] obtain t where
    t: "run_alarm (al_callback a) (al_id a) s = Some t" "sys_inv t" "adds s t" by (rule safe_fromE)
  have "a \<in> set (alarm_entries t)" using t(3) assms(2) by (auto simp: adds_def dest: set_mono_prefix)
  then show thesis using that t False by (simp add: adds_def)
qed

lemma alarm_trigger_safe:
  assumes "sys_inv s"
  shows "safe_from sys_inv stays s (atlas_alarm_trigger run_alarm fd s)"
proof (cases "find (\<lambda>p. al_id p = fd) (alarm_entries s)")
  case None
  then show ?thesis using up.same [OF assms] by (simp add: atlas_alarm_trigger_def)
next
  case (Some a)
  then have a: "a \<in> set (alarm_entries s)" by (auto simp: find_Some_iff)
  obtain t where
    t: "run_alarm (al_callback a) (al_id a) s = Some t" "sys_inv t" "stays s t" "a \<in> set (alarm_entries t)"
    and rq: "al_callback a = Request_alarm_cb \<longrightarrow> al_id a \<notin> rq_alarm_id ` set (req_entries t)"
    by (rule alarm_callback_safe [OF assms a])
  have own: "own_inv t" using t(2) by (rule sys_own)
  have "sys_inv (atlas_alarm_cancel (al_id a) t)" if "al_run_once a"
  proof -
    have "\<not> repeats (al_callback a)" using own t(4) that by (simp add: own_inv_def own_once_def)
    moreover have "(al_id a, al_callback a) \<in> set (alarm_active t)" using t(4) by (auto simp: alarm_active_def)
    ultimately have "unclaimed (al_id a) t"
      using rq by (intro unclaimed_kind [OF own, where c = "al_callback a"]) (auto simp: repeats_def)
    from sys_invI [OF t(2) own_cancel [OF own this] cancel_cfg] show ?thesis .
  qed
  moreover have "stays s (atlas_alarm_cancel i t)" for i
    using t(3) by (simp add: stays_def alarm_cancel_frame) (simp add: alarm_defs Let_def)
  ultimately show ?thesis using Some t by (simp add: atlas_alarm_trigger_def safe_from_def)
qed

section \<open>CoAP server\<close>

lemma stays_upper: "stays s t \<Longrightarrow> stays s (t\<lparr>features := fs\<rparr>)" "stays s t \<Longrightarrow> stays s (t\<lparr>procs_threshold := x\<rparr>)"
  by (simp_all add: stays_def)

lemma replace_timer_stays: "stays s (replace_timer get put cb ms u p s)"
  by (simp add: replace_timer_def stays_def alarm_defs Let_def case_prod_beta)

lemma replace_timer_cfg:
  assumes "\<And>i p. te_uri_path (put i p) = te_uri_path p"
  shows "same_cfg s (replace_timer get put cb ms u p s)"
  by (simp add: replace_timer_def same_cfg_def alarm_defs Let_def case_prod_beta map_upd_first assms)

lemma push_set_safe:
  assumes "sys_inv s"
  shows "safe_from sys_inv stays s (atlas_telemetry_push_set (Some u) rate s)"
proof (cases "find (\<lambda>p. te_uri_path p = u) (features s)")
  case None
  then show ?thesis using up.same [OF assms] by (simp add: atlas_telemetry_push_set_def)
next
  case (Some p)
  then have "length (te_uri_path p) \<le> 112" using assms by (auto simp: find_Some_iff intro: feature_path)
  note push = safe_stays [OF safe_keeps [OF push_safe [OF assms this]]]
  let ?t = "replace_timer te_push_id (\<lambda>i p. p\<lparr>te_push_id := i\<rparr>) Push_alert_alarm_cb (ATLAS_ALARM_SEC_TO_MS rate) u p s"
  have "sys_inv ?t"
    by (rule sys_invI [OF assms push_timer.own_replace [OF sys_own [OF assms] Some] replace_timer_cfg]) simp
  moreover have "atlas_telemetry_push_set (Some u) rate s = Some ?t" if "rate \<noteq> 0"
    using Some that by (simp add: atlas_telemetry_push_set_def replace_timer_def Let_def case_prod_beta)
  ultimately show ?thesis using Some push replace_timer_stays
    by (cases "rate = 0") (simp_all add: atlas_telemetry_push_set_def safe_from_def)
qed

lemma threshold_set_safe:
  assumes "sys_inv s"
  shows "sys_inv (atlas_telemetry_threshold_set (Some u) rate s)" and "stays s (atlas_telemetry_threshold_set (Some u) rate s)"
proof -
  have "sys_inv (atlas_telemetry_threshold_set (Some u) rate s) \<and> stays s (atlas_telemetry_threshold_set (Some u) rate s)"
  proof (cases "rate = 0 \<or> find (\<lambda>p. te_uri_path p = u) (features s) = None")
    case True
    then have "atlas_telemetry_threshold_set (Some u) rate s = s" by (auto simp: atlas_telemetry_threshold_set_def)
    then show ?thesis using assms by (simp add: stays_def)
  next
    case False
    then obtain p where p: "find (\<lambda>p. te_uri_path p = u) (features s) = Some p" "rate \<noteq> 0" by auto
    let ?t = "replace_timer te_threshold_id (\<lambda>i p. p\<lparr>te_threshold_id := i\<rparr>) Threshold_alert_alarm_cb (ATLAS_ALARM_SEC_TO_MS rate) u p s"
    have "sys_inv ?t"
      by (rule sys_invI [OF assms threshold_timer.own_replace [OF sys_own [OF assms] p(1)] replace_timer_cfg]) simp
    moreover have "atlas_telemetry_threshold_set (Some u) rate s = ?t"
      using p by (simp add: atlas_telemetry_threshold_set_def replace_timer_def Let_def case_prod_beta)
    ultimately show ?thesis using replace_timer_stays by simp
  qed
  then show "sys_inv (atlas_telemetry_threshold_set (Some u) rate s)" "stays s (atlas_telemetry_threshold_set (Some u) rate s)" by simp_all
qed

lemma schedule_safe:
  assumes "sys_inv s"
  shows "sys_inv (schedule_all xs s) \<and> stays s (schedule_all xs s)"
  using assms
proof (induction xs arbitrary: s)
  case (Cons x xs)
  have step: "sys_inv (schedule_command c s) \<and> stays s (schedule_command c s)" if "\<not> repeats c" for c
  proof -
    let ?r = "atlas_alarm_set ATLAS_CLIENT_COMMAND_EXECUTE_TIMEOUT_MS c True s"
    have r: "sys_inv (snd ?r)" using that by (intro alarm_set_safe [OF Cons.prems]) simp
    have st: "stays s (snd ?r)" using alarm_set_adds [of s _ c True] by (simp add: adds_def)
    have "sys_inv ((snd ?r)\<lparr>cmdInProgress := True\<rparr>)"
      using sys_frame(1) [OF r, of "(snd ?r)\<lparr>cmdInProgress := True\<rparr>"] by (simp add: same_cfg_def)
    then show ?thesis using r st by (simp add: schedule_command_def case_prod_beta Let_def stays_def)
  qed
  let ?t = "case exec_cb x of None \<Rightarrow> s | Some cb \<Rightarrow> schedule_command cb s"
  have "sys_inv ?t \<and> stays s ?t" using step Cons.prems
    by (auto simp: exec_cb_def repeats_def stays_def)
  then show ?case using Cons.IH [of ?t] up.rel_trans by auto
qed (simp add: stays_def)

text \<open>The payload of a request as the callbacks get it.\<close>

definition request_ok :: "byte list ptr \<Rightarrow> bool" where
  "request_ok p \<longleftrightarrow> (case p of None \<Rightarrow> True | Some b \<Rightarrow> b \<noteq> [] \<and> length b < 65536 \<and> threshold_complete b)"

lemma push_parse_cases:
  assumes "request_ok p"
  obtains st rate where "atlas_alert_push_cmd_parse p (payload_len16 p) = Some (st, rate)" "st = ATLAS_OK \<longrightarrow> rate \<noteq> None"
proof (cases p)
  case None
  then show thesis using that by (simp add: atlas_alert_push_cmd_parse_def)
next
  case (Some b)
  then show thesis using that assms push_parse_dec [of b]
    by (auto simp: request_ok_def payload_len16_def split: option.splits)
qed

lemma threshold_parse_cases:
  assumes "request_ok p"
  obtains st rate thr where "atlas_alert_threshold_cmd_parse p (payload_len16 p) = Some (st, rate, thr)"
    "st = ATLAS_OK \<longrightarrow> rate \<noteq> None \<and> thr \<noteq> None"
proof (cases p)
  case None
  then show thesis using that by (simp add: atlas_alert_threshold_cmd_parse_def)
next
  case (Some b)
  then have b: "b \<noteq> []" "length b < 65536" "threshold_complete b" using assms by (simp_all add: request_ok_def)
  have "find is_threshold (rev xs) \<noteq> None" if "dec_tlvs b = Some xs" "find is_scan_rate (rev xs) \<noteq> None" for xs
    using b(3) that by (auto simp: threshold_complete_def list_ex_iff find_None_iff)
  then show thesis using that [of _ _ _] Some threshold_parse_dec [OF b(1,2)]
    by (auto simp: payload_len16_def split: option.splits)
qed

lemma push_endpoint_safe:
  assumes "sys_inv s" and "request_ok p"
  shows "\<exists>r b t. (do {
       (status, push_rate) \<leftarrow> atlas_alert_push_cmd_parse p (payload_len16 p);
       if status \<noteq> ATLAS_OK then Some (ATLAS_COAP_RESP_NOT_ACCEPTABLE_HERE, None, s)
       else do {
         rate \<leftarrow> push_rate;
         s1 \<leftarrow> (case target of None \<Rightarrow> Some s | Some path \<Rightarrow> atlas_telemetry_push_set (Some path) rate s);
         Some (ATLAS_COAP_RESP_OK, None, s1) } }) = Some (r, b, t) \<and> sys_inv t \<and> stays s t"
proof -
  obtain st rate where pr: "atlas_alert_push_cmd_parse p (payload_len16 p) = Some (st, rate)" "st = ATLAS_OK \<longrightarrow> rate \<noteq> None"
    by (rule push_parse_cases [OF assms(2)])
  have "safe_from sys_inv stays s (case target of None \<Rightarrow> Some s | Some path \<Rightarrow> atlas_telemetry_push_set (Some path) x s)" for x
    using assms(1) by (simp add: push_set_safe up.same split: option.split)
  then obtain f where "(case target of None \<Rightarrow> Some s | Some path \<Rightarrow> atlas_telemetry_push_set (Some path) x s) = Some (f x)"
      "sys_inv (f x)" "stays s (f x)" for x
    unfolding safe_from_def by metis
  then show ?thesis using pr assms(1) up.rel_refl [of s] by auto
qed

lemma run_server_safe:
  assumes "sys_inv s" and "request_ok p"
  shows "\<exists>r b t. run_server c u p s = Some (r, b, t) \<and> sys_inv t \<and> stays s t"
proof (cases c)
  case Sysinfo_push_alert_cb
  then show ?thesis using push_endpoint_safe [OF assms, of "sysinfo_push_target u"]
    by (simp add: atlas_sysinfo_push_alert_cb_def)
next
  case Packets_push_alert_cb
  then show ?thesis using push_endpoint_safe [OF assms, of "packets_push_target u"]
    by (simp add: atlas_packets_push_alert_cb_def)
next
  case Atlas_threshold_alert_procs_cb
  have t: "sys_inv (s\<lparr>procs_threshold := x\<rparr>)" "stays s (s\<lparr>procs_threshold := x\<rparr>)" for x
    using sys_frame [OF assms(1), of "s\<lparr>procs_threshold := x\<rparr>"] by (simp_all add: same_cfg_def stays_def)
  have set: "stays s (atlas_telemetry_threshold_set (Some v) rate (s\<lparr>procs_threshold := x\<rparr>))" for v rate x
    by (rule up.rel_trans [OF t(2) threshold_set_safe(2) [OF t(1)]])
  obtain st rate thr where "atlas_alert_threshold_cmd_parse p (payload_len16 p) = Some (st, rate, thr)"
    "st = ATLAS_OK \<longrightarrow> rate \<noteq> None \<and> thr \<noteq> None" by (rule threshold_parse_cases [OF assms(2)])
  then show ?thesis using t set threshold_set_safe(1) [OF t(1)] assms(1) up.rel_refl [of s]
    by (auto simp: Atlas_threshold_alert_procs_cb atlas_threshold_alert_procs_cb_def Let_def case_prod_beta)
next
  case Atlas_execute_command_cb
  show ?thesis
  proof (cases "cmdInProgress s \<or> p = None")
    case True
    then show ?thesis using assms(1)
      by (auto simp: Atlas_execute_command_cb atlas_execute_command_cb_def atlas_alert_command_execution_parse_def stays_def)
  next
    case False
    then obtain b where b: "p = Some b" "b \<noteq> []" "length b < 65536" "\<not> cmdInProgress s"
      using assms(2) by (auto simp: request_ok_def)
    then show ?thesis using parse_schedules [OF b(2,3,4)] assms(1) schedule_safe [OF assms(1)]
      by (auto simp: Atlas_execute_command_cb atlas_execute_command_cb_def payload_len16_def stays_def split: option.split)
  qed
qed

lemma emit_safe: "sys_inv t \<Longrightarrow> stays s t \<Longrightarrow> safe_from sys_inv stays s (Some (emit x t))"
  using outs_frame(1) [of t] by (simp add: safe_from_def emit_def stays_def)

lemma run_handler_safe:
  assumes "sys_inv s" and "length (sr_data r) < 65536" "threshold_complete (sr_data r)"
  shows "safe_from sys_inv stays s (run_handler h run_server r s)"
proof -
  let ?p = "if sr_data r = [] then None else Some (sr_data r)"
  have "request_ok ?p" using assms(2,3) by (simp add: request_ok_def)
  note run = run_server_safe [OF assms(1) this]
  have "safe_from sys_inv stays s (process_request_handler run_server r ls s)" for ls
  proof (cases "sr_uri_path r = None \<or> find (\<lambda>l. sl_resource l = sr_resource r) ls = None")
    case True
    then show ?thesis using up.same [OF assms(1)] by (auto simp: process_request_handler_def Let_def split: option.split)
  next
    case False
    then obtain path l where pl: "sr_uri_path r = Some path" "find (\<lambda>l. sl_resource l = sr_resource r) ls = Some l" by auto
    from run [of "sl_callback l" "c_str path"] obtain st b t where
      t: "run_server (sl_callback l) (c_str path) ?p s = Some (st, b, t)" "sys_inv t" "stays s t" by blast
    then show ?thesis using pl emit_safe [OF t(2,3)] by (simp add: process_request_handler_def Let_def)
  qed
  then show ?thesis using emit_safe [OF assms(1), of s]
    by (cases h) (simp_all add: get_default_index_handler_def stays_def)
qed

lemma coap_server_safe:
  assumes "sys_inv s" and "srv_ctx s \<noteq> None"
  shows "safe_from sys_inv stays s (atlas_coap_server_sched_callback run_server fd s)"
proof -
  have t: "sys_inv (tick s)" "stays s (tick s)"
    using sys_clock [of s "Suc (clock s)"] assms(1) by (simp_all add: tick_def adds_def)
  have "\<forall>r \<in> set (e_srv_io s (clock s)). length (sr_data r) < 65536 \<and> threshold_complete (sr_data r)"
    using sys_env [OF assms(1)] by (simp add: env_ok_def)
  then have "safe_from sys_inv stays (tick s) (handle_requests run_server (e_srv_io s (clock s)) (tick s))"
    by (intro up.run_list [where f = "\<lambda>r. run_handler (sr_handler r) run_server r" and loop = "handle_requests run_server"])
      (simp_all add: t run_handler_safe)
  then show ?thesis using assms(2) up.after [OF t(2)] by (auto simp: atlas_coap_server_sched_callback_def)
qed

section \<open>The agent's connection\<close>

interpretation agent: connector_inv "\<lambda>t. sys_inv t \<and> stays s0 t" for s0 :: "'a telemetry_scheme"
proof
  fix s :: "'a telemetry_scheme" assume s: "sys_inv s \<and> stays s0 s"
  then have inv: "sys_inv s" by simp
  show "conn_env s" using inv by (rule sys_conn)
  show "\<exists>t. sends path m xs tmo cb s = Some t \<and> sys_inv t \<and> stays s0 t" for path m xs tmo cb
    using sends_safe [OF inv] s up.rel_trans by (fastforce simp: safe_from_def adds_def)
  show "sys_inv (tick s) \<and> stays s0 (tick s)"
    using s sys_clock [of s "Suc (clock s)"] by (simp add: tick_def stays_def)
  show "sys_inv (atlas_sched_del_entry fd s) \<and> stays s0 (atlas_sched_del_entry fd s)" for fd
    using s sys_invI [OF inv, of "atlas_sched_del_entry fd s"] sys_own [OF inv]
    by (simp add: own_sched_del same_cfg_def stays_def) (simp add: atlas_sched_del_entry_def)
qed (auto intro: sys_frame(1) simp: same_cfg_def stays_def emit_def)

lemma read_safe:
  assumes "sys_inv s"
  shows "safe_from sys_inv stays s (atlas_data_plane_read_cb fd s)"
  using agent.read_cb_total [of s s fd] assms sys_env [OF assms]
  by (simp add: safe_from_def stays_def env_ok_def)

lemma accept_safe:
  assumes "sys_inv s"
  shows "safe_from sys_inv stays s (atlas_data_plane_accept_cb fd s)"
proof -
  have "atlas_data_plane_accept_cb fd s \<noteq> None"
    by (simp add: atlas_data_plane_accept_cb_def Let_def case_prod_beta)
  then obtain t where t: "atlas_data_plane_accept_cb fd s = Some t" by blast
  have "same_cfg s t \<and> stays s t"
    using t by (auto simp: atlas_data_plane_accept_cb_def fd_new_def fd_close_def atlas_sched_del_entry_def
        atlas_sched_add_entry_def same_cfg_def stays_def Let_def split: if_splits)
  then show ?thesis using t sys_invI [OF assms own_accept [OF sys_own [OF assms] t]] by (simp add: safe_from_def)
qed

section \<open>The event loop\<close>

lemma run_sched_safe:
  assumes "sys_inv s" and "srv_ctx s \<noteq> None"
  shows "safe_from sys_inv stays s (run_sched c fd s)"
  using assms by (cases c) (simp_all add: alarm_trigger_safe coap_client_safe coap_server_safe accept_safe read_safe)

lemma pass_safe:
  assumes "sys_inv s" and "srv_ctx s \<noteq> None"
  shows "safe_from sys_inv stays s (sched_pass run_sched s)"
proof -
  let ?t = "snd (snd (after_select s))"
  have "?t = s\<lparr>sched_entries := filter (\<lambda>e. \<not> se_dirty e) (sched_entries s), clock := Suc (clock s)\<rparr>"
    by (simp add: after_select_def sys_select_def tick_def sched_purge_def Let_def split: option.splits)
  then have inv: "sys_inv ?t" "stays s ?t"
    using sys_frame [OF assms(1), of ?t] by (simp_all add: same_cfg_def stays_def)
  have "safe_from sys_inv stays ?t (run_calls run_sched (pass_calls run_sched s) ?t)"
  proof (rule up.run_list [where f = "\<lambda>c. run_sched (fst c) (snd c)" and loop = "run_calls run_sched"])
    fix x t assume "sys_inv t" "stays ?t t"
    then show "safe_from sys_inv stays t (run_sched (fst x) (snd x) t)"
      using assms(2) inv(2) by (intro run_sched_safe) (simp_all add: stays_def)
  next
    show "run_calls run_sched (x # ys) t = run_sched (fst x) (snd x) t \<bind> run_calls run_sched ys" for x ys t
      by (cases x) simp
  qed (simp_all add: inv(1))
  then show ?thesis unfolding sched_pass_calls by (rule up.after [OF inv(2)])
qed

lemma loop_safe:
  assumes "sys_inv s" and "srv_ctx s \<noteq> None"
  shows "safe_from sys_inv stays s (atlas_sched_loop run_sched n s)"
  using assms
proof (induction n arbitrary: s)
  case (Suc n)
  from pass_safe [OF Suc.prems] show ?case unfolding atlas_sched_loop.simps
  proof (rule up.bind)
    fix t assume "sys_inv t" "stays s t"
    then show "safe_from sys_inv stays t (atlas_sched_loop run_sched n t)"
      using Suc.prems(2) by (intro Suc.IH) (simp_all add: stays_def)
  qed
qed (simp add: up.same)

end
