(* ===== verification/System.thy ===== *)
theory System
  imports Callbacks
begin

text \<open>
  The client as a whole. The lemmas follow \<open>main\<close> through the start-up, from the state of a new
  process to the first pass of the event loop. The properties state that the client never faults
  and never loses track of its resources, and that every request has a deadline.
\<close>

section \<open>Lemmas: start-up\<close>

text \<open>
  The process as the kernel starts it: the static variables with their initial values, the
  standard descriptors open. libuuid prints 36 characters and libcoap hands out resources.
\<close>

definition boot_ok :: "'a telemetry_scheme \<Rightarrow> bool" where
  "boot_ok s \<longleftrightarrow> 0 \<in> set (fds s) \<and> -1 \<notin> set (fds s) \<and> alarm_entries s = [] \<and> req_entries s = [] \<and> coap_ctxs s = [] \<and>
     srv_ctx s = None \<and> srv_resources s = [] \<and> connected_socket s = -1 \<and> ka_alarm_id s = 0 \<and> features s = [] \<and>
     (\<forall>n. length (e_uuid s n) = 36) \<and> (\<forall>n. e_resource s n \<noteq> None) \<and> env_ok s"

definition lower_same :: "'a identity_scheme \<Rightarrow> 'a identity_scheme \<Rightarrow> bool" where
  "lower_same s t \<longleftrightarrow> gw_hostname t = gw_hostname s \<and> gw_port t = gw_port s \<and> local_iface t = local_iface s \<and>
     local_port t = local_port s \<and> fds t = fds s \<and> alarm_entries t = alarm_entries s \<and> e_uuid t = e_uuid s \<and>
     identity.more t = identity.more s"

lemma identity_init_frame: "atlas_identity_init s = (st, t) \<Longrightarrow> lower_same s t"
  by (auto simp: lower_same_def identity_defs Let_def split: option.splits if_splits)

lemma identity_more_fields:
  assumes "identity.more t = identity.more (s :: 'a telemetry_scheme)"
  shows "req_entries t = req_entries s" "coap_ctxs t = coap_ctxs s" "srv_ctx t = srv_ctx s" "srv_resources t = srv_resources s"
    "connected_socket t = connected_socket s" "ka_alarm_id t = ka_alarm_id s" "features t = features s"
    "e_resource t = e_resource s" "e_read t = e_read s" "e_io t = e_io s" "e_srv_io t = e_srv_io s"
  using assms by (cases s; cases t; simp)+

lemma boot_identity: "boot_ok s \<Longrightarrow> lower_same s t \<Longrightarrow> boot_ok t"
  using identity_more_fields [of t s] by (simp add: boot_ok_def lower_same_def env_ok_def)

lemma boot_sys:
  assumes "boot_ok s" and "cfg_ok s" and "ident_ok s"
  shows "sys_inv s"
  using assms
  by (simp add: boot_ok_def sys_inv_def push_env_def conn_env_def own_inv_def own_desc_def owned_def own_ka_def
      own_feats_def own_reqs_def own_ctxs_def own_once_def)

text \<open>The client's own request before the server exists.\<close>

lemma register_boot:
  assumes "sys_inv s" and "boot_ok s"
  obtains t where "atlas_register_start s = Some t" "sys_inv t" "features t = []" "srv_resources t = []" "srv_ctx t = None"
    "\<forall>n. e_resource t n \<noteq> None"
proof -
  from send_register_sent_or_not [OF sys_conn [OF assms(1)]] obtain ip k t where
    t: "send_register_command s = Some t" "sent_or_not (cfg_uri s ATLAS_CLIENT_REGISTER_COAP_PATH) ATLAS_COAP_METHOD_POST
      (enc_tlvs [(0, str_bytes (atlas_identity_get s)), (3, str_bytes ip)]) 5000 Reg_callback (s\<lparr>clock := k\<rparr>) t"
    by (elim exE conjE) (rule that)
  have "sys_inv t" using send_register_safe [OF assms(1)] t(1) by (simp add: safe_from_def)
  moreover have "features t = []" "srv_resources t = []" "srv_ctx t = None" "\<forall>n. e_resource t n \<noteq> None"
    using t(2) assms(2) by (auto simp: sent_or_not_def request_sent_def boot_ok_def)
  ultimately show thesis using that t(1) by (simp add: atlas_register_start_def)
qed

text \<open>What the set-up of resources and features leaves alone.\<close>

definition prepared :: "'a telemetry_scheme \<Rightarrow> 'a telemetry_scheme \<Rightarrow> bool" where
  "prepared s t \<longleftrightarrow> alarm_entries t = alarm_entries s \<and> coap_ctxs t = coap_ctxs s \<and> connected_socket t = connected_socket s \<and>
     fds t = fds s \<and> ka_alarm_id t = ka_alarm_id s \<and> req_entries t = req_entries s \<and> srv_ctx t = srv_ctx s \<and>
     clock s \<le> clock t \<and> gw_hostname t = gw_hostname s \<and> gw_port t = gw_port s \<and> local_iface t = local_iface s \<and>
     identity_str t = identity_str s \<and> psk_str t = psk_str s \<and>
     e_read t = e_read s \<and> e_io t = e_io s \<and> e_srv_io t = e_srv_io s"

lemma prepared_trans: "prepared s t \<Longrightarrow> prepared t u \<Longrightarrow> prepared s u"
  by (simp add: prepared_def)

lemma prepared_sys:
  assumes "sys_inv s" and "prepared s t"
    and "\<forall>p \<in> set (features t). te_push_id p = -1 \<and> te_threshold_id p = -1 \<and> length (te_uri_path p) \<le> 112"
  shows "sys_inv t"
proof -
  have act: "alarm_active t = alarm_active s" using assms(2) by (simp add: prepared_def alarm_active_def)
  have neg: "filter (\<lambda>i. 0 \<le> i) (map g (features t)) = []" if "\<forall>p \<in> set (features t). g p = -1" for g :: "telemetry_feature \<Rightarrow> int"
    using that by (auto simp: filter_empty_conv)
  have own: "own_inv s" using assms(1) by (rule sys_own)
  have "own_desc t" "own_ka t" "own_ctxs t" "own_once t"
    using own assms(2) by (simp_all add: own_inv_def prepared_def own_desc_iff own_ka_def own_ctxs_def own_once_def act)
  moreover have "own_reqs t"
    using own assms(2) unfolding own_inv_def own_reqs_def act prepared_def by (auto intro: order_trans)
  moreover have "own_feats te_push_id Push_alert_alarm_cb t" "own_feats te_threshold_id Threshold_alert_alarm_cb t"
    using assms(3) neg by (simp_all add: own_feats_def)
  ultimately have "own_inv t" by (simp add: own_inv_def)
  then show ?thesis using assms
    by (simp add: sys_inv_def push_env_def conn_env_def cfg_ok_def ident_ok_def env_ok_def prepared_def)
qed

lemma add_resource_prepared:
  assumes "srv_ctx s \<noteq> None"
  shows "\<exists>st t. atlas_coap_server_add_resource (Some u) ATLAS_COAP_METHOD_PUT (Some c) s = Some (st, t) \<and> prepared s t \<and>
    features t = features s"
  using assms
  by (auto simp: atlas_coap_server_add_resource_def coap_resource_init_def tick_def prepared_def split: option.splits)

lemma add_endpoints_prepared:
  assumes "srv_ctx s \<noteq> None"
  shows "\<exists>t. add_endpoints es s = Some t \<and> prepared s t"
  using assms
proof (induction es arbitrary: s)
  case Nil
  then show ?case by (simp add: prepared_def)
next
  case (Cons e es)
  obtain u c where e: "e = (u, c)" by (cases e)
  from add_resource_prepared [OF Cons.prems] obtain st t where
    t: "atlas_coap_server_add_resource (Some u) ATLAS_COAP_METHOD_PUT (Some c) s = Some (st, t)" "prepared s t" by blast
  then have "srv_ctx t \<noteq> None" using Cons.prems by (simp add: prepared_def)
  from Cons.IH [OF this] t show ?case by (auto simp: e intro: prepared_trans)
qed

lemma add_features_prepared: "prepared s (add_features fs s)"
proof (induction fs s rule: add_features.induct)
  case (2 u p fs s)
  have "prepared s (atlas_telemetry_add (Some u) (Some p) s)" by (simp add: atlas_telemetry_add_def prepared_def)
  then show ?case using 2 by (auto intro: prepared_trans)
qed (simp add: prepared_def)

lemma features_init_safe:
  assumes "sys_inv s" and "srv_ctx s \<noteq> None" and "features s = []"
  obtains t where "atlas_telemetry_features_init s = Some t" "sys_inv t" "srv_ctx t = srv_ctx s"
proof -
  let ?s2 = "atlas_telemetry_add_kern_info (atlas_telemetry_add_hostname s)"
  have s2: "prepared s ?s2"
    by (simp add: atlas_telemetry_add_kern_info_def atlas_telemetry_add_hostname_def atlas_telemetry_add_def prepared_def)
  have step: "\<exists>t. add_endpoints es (add_features fs u) = Some t \<and> prepared s t" if "prepared s u" for es fs u
    using add_endpoints_prepared [of "add_features fs u" es] prepared_trans [OF that add_features_prepared [of u fs]] assms(2)
    by (auto simp: prepared_def)
  from step [OF s2] obtain s3 where s3: "atlas_telemetry_add_sysinfo ?s2 = Some s3" "prepared s s3"
    unfolding atlas_telemetry_add_sysinfo_def by blast
  from step [OF s3(2)] obtain t where t: "atlas_telemetry_add_packets_info s3 = Some t" "prepared s t"
    unfolding atlas_telemetry_add_packets_info_def by blast
  have "atlas_telemetry_features_init s = Some t" using s3(1) t(1) by (simp add: atlas_telemetry_features_init_def Let_def)
  moreover from features_init_paths [OF this assms(3)] have "sys_inv t" by (intro prepared_sys [OF assms(1) t(2)]) simp
  ultimately show thesis using that t(2) by (simp add: prepared_def)
qed

lemma server_start_clock:
  "atlas_coap_server_start port mode psk s = Some (st, t) \<Longrightarrow> clock s \<le> clock t"
  by (auto simp: atlas_coap_server_start_def get_context_def coap_new_context_def set_dtls_psk_def coap_new_endpoint_def
      srv_free_context_def coap_free_context_def init_default_resources_def coap_resource_init_def fd_new_def fd_close_def
      tick_def atlas_sched_add_entry_def Let_def split: option.splits prod.splits if_splits bind_splits)

text \<open>The server's context becomes one more owned context.\<close>

lemma server_start_safe:
  assumes "sys_inv s" and "srv_ctx s = None" and "atlas_coap_server_start port mode psk s = Some (ATLAS_OK, t)"
  shows "sys_inv t" and "srv_ctx t \<noteq> None" and "features t = features s"
proof -
  from server_start_state [OF assms(3)] obtain h f n k q es rs where
    f: "0 \<le> f" "f \<notin> set (fds s)" "h \<notin> fst ` set (coap_ctxs s)" and t: "t = atlas_sched_add_entry f (Some Atlas_coap_server_sched_callback)
      (s\<lparr>fds := f # fds s, coap_ctxs := (h, f) # coap_ctxs s, srv_key := k, srv_psk := q, srv_endpoints := es,
         srv_ctx := Some h, clock := n, srv_resources := rs, srv_fd := f\<rparr>)" by blast
  have tf: "alarm_entries t = alarm_entries s" "coap_ctxs t = (h, f) # coap_ctxs s" "fds t = f # fds s" "srv_ctx t = Some h"
      "connected_socket t = connected_socket s" "ka_alarm_id t = ka_alarm_id s" "features t = features s"
      "req_entries t = req_entries s" "alarm_active t = alarm_active s"
    by (simp_all add: t atlas_sched_add_entry_def alarm_active_def)
  have le: "clock s \<le> clock t" using assms(3) by (rule server_start_clock)
  have own: "own_inv s" using assms(1) by (rule sys_own)
  have "own_desc t" using own f(1,2) by (auto simp: own_inv_def own_desc_def owned_def tf)
  moreover have "own_reqs t" using own le unfolding own_inv_def own_reqs_def tf by (auto intro: order_trans)
  moreover have "own_ctxs t" using own f(3) by (auto simp: own_inv_def own_ctxs_def tf rev_image_eqI)
  ultimately have "own_inv t" using own
    by (simp add: own_inv_def own_ka_def own_feats_def own_once_def tf)
  moreover have "same_cfg s t" by (simp add: same_cfg_def t atlas_sched_add_entry_def)
  ultimately show "sys_inv t" "srv_ctx t \<noteq> None" "features t = features s" using sys_invI [OF assms(1)] by (simp_all add: tf)
qed

lemma server_start_total:
  assumes "srv_resources s = []" and "\<forall>n. e_resource s n \<noteq> None"
  shows "\<exists>r. atlas_coap_server_start port ATLAS_COAP_SERVER_MODE_DTLS_PSK (Some psk) s = Some r"
proof (cases "port = 0")
  case False
  have "\<exists>c t. get_context port ATLAS_COAP_SERVER_MODE_DTLS_PSK (Some psk) s = Some (c, t) \<and>
      (c \<noteq> None \<longrightarrow> srv_resources t = [] \<and> e_resource t = e_resource s)"
    using assms(1)
    by (auto simp: get_context_def coap_new_context_def set_dtls_psk_def coap_new_endpoint_def fd_new_def tick_def Let_def
        split: option.splits)
  then obtain c t where ct: "get_context port ATLAS_COAP_SERVER_MODE_DTLS_PSK (Some psk) s = Some (c, t)"
    "c \<noteq> None \<longrightarrow> srv_resources t = [] \<and> e_resource t = e_resource s" by blast
  show ?thesis
  proof (cases c)
    case None
    then show ?thesis using False ct(1) by (simp add: atlas_coap_server_start_def)
  next
    case (Some h)
    have "e_resource s (clock t) \<noteq> None" using assms(2) by simp
    then obtain x where "e_resource s (clock t) = Some x" by blast
    then show ?thesis using False ct Some
      by (simp add: atlas_coap_server_start_def init_default_resources_def coap_resource_init_def Let_def)
  qed
qed (simp add: atlas_coap_server_start_def)

text \<open>The listening socket of the connector is nobody's resource.\<close>

lemma connector_start_safe:
  assumes "sys_inv s" and "atlas_data_plane_connector_start s = (st, t)"
  shows "sys_inv t" and "srv_ctx t = srv_ctx s" and "features t = features s"
proof -
  have f: "fd_pick s = -1 \<or> (0 \<le> fd_pick s \<and> fd_pick s \<notin> set (fds s))" by (rule fd_pick_cases)
  have tf: "alarm_entries t = alarm_entries s" "coap_ctxs t = coap_ctxs s" "srv_ctx t = srv_ctx s"
      "connected_socket t = connected_socket s" "ka_alarm_id t = ka_alarm_id s" "features t = features s"
      "req_entries t = req_entries s" "alarm_active t = alarm_active s" "clock s \<le> clock t" "same_cfg s t"
      "fds t = fds s \<or> (0 \<le> fd_pick s \<and> fds t = fd_pick s # fds s)"
    using assms(2) f
    by (auto simp: atlas_data_plane_connector_start_def fd_new_def tick_def atlas_sched_add_entry_def alarm_active_def
        same_cfg_def Let_def split: if_splits)
  have own: "own_inv s" using assms(1) by (rule sys_own)
  have "own_desc t" using own tf(11) by (auto simp: own_inv_def own_desc_def owned_def tf(1-10))
  moreover have "own_reqs t" using own tf(9) unfolding own_inv_def own_reqs_def tf(1-8) by (auto intro: order_trans)
  ultimately have "own_inv t" using own by (simp add: own_inv_def own_ka_def own_feats_def own_ctxs_def own_once_def tf(1-10))
  then show "sys_inv t" "srv_ctx t = srv_ctx s" "features t = features s" using sys_invI [OF assms(1) _ tf(10)] tf by simp_all
qed

lemma execute_init_safe:
  assumes "sys_inv s" and "srv_ctx s \<noteq> None"
  obtains b t where "atlas_command_execute_init s = Some (b, t)" "sys_inv t" "srv_ctx t = srv_ctx s"
proof -
  from add_resource_prepared [OF assms(2)] obtain st t where
    t: "atlas_coap_server_add_resource (Some ATLAS_COMMAND_EXECUTE_PATH) ATLAS_COAP_METHOD_PUT (Some Atlas_execute_command_cb) s =
      Some (st, t)" "prepared s t" "features t = features s" by blast
  then have "sys_inv t" by (intro sys_frame(1) [OF assms(1)]) (simp_all add: prepared_def same_cfg_def)
  then show thesis using that [of "st = ATLAS_OK" t] t by (simp add: atlas_command_execute_init_def prepared_def)
qed

text \<open>From the started server to the event loop.\<close>

lemma serving_safe:
  assumes "sys_inv s" and "srv_ctx s \<noteq> None" and "features s = []"
  shows "\<exists>t. (do { s7 \<leftarrow> atlas_telemetry_features_init s; (_, s8) \<leftarrow> atlas_command_execute_init s7;
                  s9 \<leftarrow> atlas_sched_loop run_sched n s8; Some (Inr s9 :: int + 'a execute_scheme) }) = Some (Inr t) \<and>
    sys_inv t \<and> srv_ctx t \<noteq> None"
proof -
  obtain s7 where s7: "atlas_telemetry_features_init s = Some s7" "sys_inv s7" "srv_ctx s7 = srv_ctx s"
    by (rule features_init_safe [OF assms])
  have "srv_ctx s7 \<noteq> None" using s7(3) assms(2) by simp
  then obtain b s8 where s8: "atlas_command_execute_init s7 = Some (b, s8)" "sys_inv s8" "srv_ctx s8 = srv_ctx s7"
    by (rule execute_init_safe [OF s7(2)])
  have c: "srv_ctx s8 \<noteq> None" using s8(3) s7(3) assms(2) by simp
  obtain t where "atlas_sched_loop run_sched n s8 = Some t" "sys_inv t" "stays s8 t"
    by (rule safe_fromE [OF loop_safe [OF s8(2) c]])
  then show ?thesis using s7(1) s8(1) c by (simp add: stays_def)
qed

lemma dtls_info_frame:
  "atlas_coap_client_set_dtls_info i k s = (st, t) \<Longrightarrow> boot_ok s \<Longrightarrow> boot_ok t"
  "atlas_coap_client_set_dtls_info i k s = (st, t) \<Longrightarrow> cfg_ok s \<Longrightarrow> cfg_ok t"
  "atlas_coap_client_set_dtls_info i k s = (st, t) \<Longrightarrow> ident_ok s \<Longrightarrow> ident_ok t"
  by (auto simp: atlas_coap_client_set_dtls_info_def boot_ok_def env_ok_def cfg_ok_def ident_ok_def split: option.splits)

lemma boot_configured: "boot_ok s \<Longrightarrow> boot_ok (configured os s)"
  by (simp add: boot_ok_def configured_def env_ok_def)

lemma identity_boot:
  assumes "boot_ok s" and "cfg_ok s" and "atlas_identity_init s = (ATLAS_OK, t)"
  shows "boot_ok t" "cfg_ok t" "ident_ok t"
proof -
  note fr = identity_init_frame [OF assms(3)]
  show "boot_ok t" by (rule boot_identity [OF assms(1) fr])
  show "cfg_ok t" using assms(2) fr by (simp add: cfg_ok_def lower_same_def)
  show "ident_ok t" by (rule identity_init_ok [OF _ assms(3)]) (use assms(1) in \<open>simp add: boot_ok_def\<close>)
qed

text \<open>The second half of \<open>main\<close>, once identity and credentials are set.\<close>

definition services :: "nat \<Rightarrow> 'a execute_scheme \<Rightarrow> (int + 'a execute_scheme) option" where
  "services n s3 = do {
     s4 \<leftarrow> atlas_register_start s3;
     (st, s5) \<leftarrow> atlas_coap_server_start (atlas_cfg_get_local_port s4) ATLAS_COAP_SERVER_MODE_DTLS_PSK
                (Some (atlas_psk_get s4)) s4;
     if st \<noteq> ATLAS_OK then Some (Inl (-1))
     else
       let (st, s6) = atlas_data_plane_connector_start s5 in
       if st \<noteq> ATLAS_OK then Some (Inl (-1))
       else do {
         s7 \<leftarrow> atlas_telemetry_features_init s6;
         (_, s8) \<leftarrow> atlas_command_execute_init s7;
         s9 \<leftarrow> atlas_sched_loop run_sched n s8;
         Some (Inr s9) } }"

lemma services_safe:
  assumes "boot_ok s" and "sys_inv s"
  shows "services n s = Some (Inl (-1)) \<or> (\<exists>t. services n s = Some (Inr t) \<and> sys_inv t \<and> srv_ctx t \<noteq> None)"
proof -
  obtain s4 where s4: "atlas_register_start s = Some s4" "sys_inv s4" "features s4 = []" "srv_resources s4 = []"
    "srv_ctx s4 = None" "\<forall>n. e_resource s4 n \<noteq> None" by (rule register_boot [OF assms(2,1)])
  from server_start_total [OF s4(4,6)] obtain st5 s5 where
    s5: "atlas_coap_server_start (atlas_cfg_get_local_port s4) ATLAS_COAP_SERVER_MODE_DTLS_PSK (Some (atlas_psk_get s4)) s4 =
      Some (st5, s5)" by (metis surj_pair)
  obtain st6 s6 where s6: "atlas_data_plane_connector_start s5 = (st6, s6)" by (cases "atlas_data_plane_connector_start s5")
  show ?thesis
  proof (cases "st5 = ATLAS_OK \<and> st6 = ATLAS_OK")
    case False
    then show ?thesis using s4(1) s5 s6 by (auto simp: services_def)
  next
    case True
    note b5 = server_start_safe [OF s4(2,5) s5 [unfolded True [THEN conjunct1]]]
    note b6 = connector_start_safe [OF b5(1) s6]
    from serving_safe [OF b6(1), of n] b6(2,3) b5(2,3) s4(3) obtain t where
      "(do { s7 \<leftarrow> atlas_telemetry_features_init s6; (_, s8) \<leftarrow> atlas_command_execute_init s7;
             s9 \<leftarrow> atlas_sched_loop run_sched n s8; Some (Inr s9 :: int + 'a execute_scheme) }) = Some (Inr t)"
      "sys_inv t" "srv_ctx t \<noteq> None" by auto
    then show ?thesis using s4(1) s5 s6 True by (simp add: services_def)
  qed
qed

lemma main_services:
  assumes "parse_options argv s = Inr s1"
  shows "main n argv 0 s = (case atlas_identity_init s1 of (st, s2) \<Rightarrow>
     if st \<noteq> ATLAS_OK then Some (Inl (-1))
     else case atlas_coap_client_set_dtls_info (Some (atlas_identity_get s2)) (Some (atlas_psk_get s2)) s2 of
       (st, s3) \<Rightarrow> if st \<noteq> ATLAS_OK then Some (Inl (-1)) else services n s3)"
  using assms by (simp add: main_def services_def Let_def case_prod_beta)

section \<open>Properties\<close>


lemma boot_demo_ok: "boot_ok boot_demo"
  by (simp add: boot_ok_def boot_demo_def execute_demo_def env_ok_def)


text \<open>
  C2. Every request has a deadline: in a state of the running client each request in progress has a
  live one-shot timer of its own, and when the event loop serves that timer the request's callback
  has run, the request is off the list, its context is freed and the timer is gone.
\<close>

theorem request_deadline:
  assumes "sys_inv s" and "r \<in> set (req_entries s)"
  shows "(rq_alarm_id r, Request_alarm_cb) \<in> set (alarm_active s) \<and>
    (\<exists>t. run_sched Atlas_alarm_trigger (rq_alarm_id r) s = Some t \<and> sys_inv t \<and>
       rq_addr r \<notin> rq_addr ` set (req_entries t) \<and> rq_ctx r \<notin> fst ` set (coap_ctxs t) \<and>
       rq_alarm_id r \<notin> al_id ` set (alarm_entries t))"
proof -
  have own: "own_inv s" using assms(1) by (rule sys_own)
  let ?i = "rq_alarm_id r"
  have act: "(?i, Request_alarm_cb) \<in> set (alarm_active s)" using own assms(2) by (simp add: own_inv_def own_reqs_def)
  then obtain a where a: "a \<in> set (alarm_entries s)" "al_id a = ?i" "al_callback a = Request_alarm_cb"
    by (auto simp: alarm_active_def)
  have once: "al_run_once a" using own a by (simp add: own_inv_def own_once_def repeats_def)
  have d: "distinct (map al_id (alarm_entries s))" using own by (simp add: own_inv_def own_desc_iff)
  have find: "find (\<lambda>p. al_id p = ?i) (alarm_entries s) = Some a"
    using find_key_unique [OF d a(1)] a(2) by simp
  obtain t where t: "request_alarm_cb run_client ?i s = Some t" "sys_inv t" "fired s t"
    and gone: "\<forall>q \<in> set (req_entries s). rq_alarm_id q = ?i \<longrightarrow>
      rq_addr q \<notin> rq_addr ` set (req_entries t) \<and> rq_ctx q \<notin> fst ` set (coap_ctxs t)"
    by (rule request_alarm_safe [OF assms(1)])
  let ?u = "atlas_alarm_cancel ?i t"
  have run: "run_sched Atlas_alarm_trigger ?i s = Some ?u"
    using t(1,3) a once by (simp add: atlas_alarm_trigger_def find fired_def)
  moreover have "sys_inv ?u" using alarm_trigger_safe [OF assms(1), of ?i] run by (simp add: safe_from_def)
  moreover have "?i \<notin> al_id ` set (alarm_entries ?u)"
    using alarms.cancel_gone [OF own_alarm_inv [OF sys_own [OF t(2)]], of ?i] by (simp add: alarm_active_def image_image)
  ultimately show ?thesis using act gone assms(2) by (simp add: alarm_cancel_frame)
qed

lemma deadline_demo: "sys_inv (request_sent ''coaps://gw:5683/p'' ATLAS_COAP_METHOD_PUT [] 5000 Policy_callback 1 2 3 4 boot_demo)"
proof -
  have b: "sys_inv boot_demo"
    by (rule boot_sys [OF boot_demo_ok])
      (simp_all add: boot_demo_def execute_demo_def cfg_ok_def ident_ok_def ATLAS_URI_HOSTNAME_MAX_LEN_def
        ATLAS_IDENTITY_LEN_def ATLAS_PSK_LEN_def)
  show ?thesis
    by (rule sys_invI [OF b own_request_sent [OF sys_own [OF b]]])
      (simp_all add: boot_demo_def execute_demo_def same_cfg_def request_sent_def)
qed

theorem request_deadline_witness:
  "let s = request_sent ''coaps://gw:5683/p'' ATLAS_COAP_METHOD_PUT [] 5000 Policy_callback 1 2 3 4 boot_demo;
       r = hd (req_entries s)
   in (rq_alarm_id r, Request_alarm_cb) \<in> set (alarm_active s) \<and>
    (\<exists>t. run_sched Atlas_alarm_trigger (rq_alarm_id r) s = Some t \<and> sys_inv t \<and>
       rq_addr r \<notin> rq_addr ` set (req_entries t) \<and> rq_ctx r \<notin> fst ` set (coap_ctxs t) \<and>
       rq_alarm_id r \<notin> al_id ` set (alarm_entries t))"
  unfolding Let_def
  by (rule request_deadline [OF deadline_demo]) (simp add: request_sent_def boot_demo_def execute_demo_def)

end
