(* ===== verification/Agent.thy ===== *)
theory Agent
  imports Connector "HOL-Library.Signed_Division"
begin

text \<open>
  The client library of the data plane agent (src/data\_plane/atlas\_client.c): the process that
  filters the MQTT packets talks to the ATLAS client over a Unix socket. It registers its policy
  on every new connection, sends packet statistics once a minute, asks for the identity and for
  reputations, and sends feedback.

  The socket is of type SOCK\_SEQPACKET: a \<open>write\<close> delivers the whole message or fails
  (\<open>e_write\<close>). Connecting and writing are retried without a bound and call each other, so they
  run on fuel; \<open>None\<close> is a memory fault or fuel that did not suffice, and the lemmas give the
  fuel that does. The critical sections of the mutex are single steps here, and the thread that
  reports the statistics is its sequence of reports.

  The lemmas show what is written in which order and that writing ends, that the statistics are
  those of the packets since the last report, and that every message has the format the client
  relies on.
\<close>

section \<open>State\<close>

record agent = kernel +
  agent_fd :: int
  client_qos :: u16
  client_packets_per_min :: u16
  client_packets_maxlen :: u16
  payload_samples :: int
  payload_total :: int
  payload_avg :: int
  e_connect :: "nat \<Rightarrow> bool"
  e_write :: "nat \<Rightarrow> bool"
  e_answer :: "nat \<Rightarrow> byte list ptr"

definition ATLAS_CLIENT_DATA_PLANE_FEEDBACKS_SCORE_MAX :: u16 where
  "ATLAS_CLIENT_DATA_PLANE_FEEDBACKS_SCORE_MAX = 100"

text \<open>The \<open>identity\<close> array holds a string.\<close>

record atlas_feedback =
  fb_identity :: string
  fb_sensor_type :: u32
  fb_sensor_score :: u16
  fb_time_score :: u16

section \<open>The socket\<close>

definition write_to_socket :: "byte list ptr \<Rightarrow> u16 \<Rightarrow> 'a agent_scheme \<Rightarrow> (int \<times> 'a agent_scheme) option" where
  "write_to_socket cmd_buf cmd_len s = do {
     buf \<leftarrow> cmd_buf;
     msg \<leftarrow> mem_read buf 0 (unat cmd_len);
     Some (if e_write s (clock s) \<and> agent_fd s \<in> set (fds s)
           then (uint cmd_len, emit (Sock_write (agent_fd s) msg) (tick s)) else (-1, tick s)) }"

definition sock_read :: "'a agent_scheme \<Rightarrow> byte list \<times> 'a agent_scheme" where
  "sock_read s =
     (case e_answer s (clock s) of None \<Rightarrow> [] | Some b \<Rightarrow> take ATLAS_CLIENT_DATA_PLANE_BUFFER_LEN b, tick s)"

text \<open>The batch of the policy inside the command of the registration, values in host order.\<close>

definition registration_buf :: "'a agent_scheme \<Rightarrow> (byte list ptr \<times> u16) option" where
  "registration_buf s = do {
     b \<leftarrow> atlas_cmd_batch_add atlas_cmd_batch_new (cmd_code ATLAS_CMD_DATA_PLANE_POLICY_QOS) 2
            (bytes_of_u16 (client_qos s));
     b \<leftarrow> atlas_cmd_batch_add b (cmd_code ATLAS_CMD_DATA_PLANE_POLICY_PACKETS_PER_MINUTE) 2
            (bytes_of_u16 (client_packets_per_min s));
     b \<leftarrow> atlas_cmd_batch_add b (cmd_code ATLAS_CMD_DATA_PLANE_POLICY_PACKETS_MAXLEN) 2
            (bytes_of_u16 (client_packets_maxlen s));
     let (cmd_buf_inner, cmd_inner_len) = atlas_cmd_batch_get_buf b (None, 0);
     v \<leftarrow> cmd_buf_inner;
     b \<leftarrow> atlas_cmd_batch_add atlas_cmd_batch_new (cmd_code ATLAS_CMD_DATA_PLANE_POLICY) cmd_inner_len v;
     Some (atlas_cmd_batch_get_buf b (None, 0)) }"

text \<open>The loop of \<open>connect\<close>, one attempt per unit of fuel.\<close>

primrec connect_loop :: "nat \<Rightarrow> 'a agent_scheme \<Rightarrow> 'a agent_scheme option" where
  "connect_loop 0 s = None"
| "connect_loop (Suc n) s = (if e_connect s (clock s) then Some (tick s) else connect_loop n (tick s))"

function
  socket_connect :: "nat \<Rightarrow> 'a agent_scheme \<Rightarrow> 'a agent_scheme option" and
  send_registration_command :: "nat \<Rightarrow> 'a agent_scheme \<Rightarrow> 'a agent_scheme option" and
  write_to_socket_retry :: "nat \<Rightarrow> byte list ptr \<Rightarrow> u16 \<Rightarrow> 'a agent_scheme \<Rightarrow> 'a agent_scheme option"
where
  "socket_connect n s =
     (let (f, s1) = fd_new (fd_close (agent_fd s) s);
          s2 = s1\<lparr>agent_fd := f\<rparr>
      in if f = -1 then Some s2
         else do {
           s3 \<leftarrow> connect_loop n s2;
           send_registration_command n s3 })"
| "send_registration_command n s = do {
     (cmd_buf_outer, cmd_outer_len) \<leftarrow> registration_buf s;
     write_to_socket_retry n cmd_buf_outer cmd_outer_len s }"
| "write_to_socket_retry n cmd_buf cmd_len s = do {
     (bytes, s1) \<leftarrow> write_to_socket cmd_buf cmd_len s;
     if bytes = uint cmd_len then Some s1
     else case n of
       0 \<Rightarrow> None
     | Suc m \<Rightarrow> do {
         s2 \<leftarrow> socket_connect m s1;
         write_to_socket_retry m cmd_buf cmd_len s2 } }"
  by pat_completeness auto
termination
  by (relation "measures [\<lambda>x. case x of Inl (n, s) \<Rightarrow> n | Inr (Inl (n, s)) \<Rightarrow> n | Inr (Inr (n, b, l, s)) \<Rightarrow> n,
      \<lambda>x. case x of Inl _ \<Rightarrow> 2 | Inr (Inl _) \<Rightarrow> 1 | Inr (Inr _) \<Rightarrow> 0]") auto

declare socket_connect.simps [simp del] send_registration_command.simps [simp del] write_to_socket_retry.simps [simp del]

section \<open>Statistics\<close>

text \<open>Signed arithmetic that leaves 32 bits is undefined; \<open>/\<close> truncates towards zero.\<close>

definition int32 :: "int \<Rightarrow> int option" where
  "int32 v = (if - (2 ^ 31) \<le> v \<and> v < 2 ^ 31 then Some v else None)"

definition atlas_pkt_received :: "int \<Rightarrow> 'a agent_scheme \<Rightarrow> 'a agent_scheme option" where
  "atlas_pkt_received payload_len s = do {
     samples \<leftarrow> int32 (payload_samples s + 1);
     total \<leftarrow> int32 (payload_total s + payload_len);
     if samples = 0 then None
     else Some (s\<lparr>payload_samples := samples, payload_total := total, payload_avg := total sdiv samples\<rparr>) }"

text \<open>The bytes of an \<open>int\<close>.\<close>

definition bytes_of_int :: "int \<Rightarrow> byte list" where
  "bytes_of_int v = u32_bytes (of_int v)"

definition send_statistics_command :: "nat \<Rightarrow> 'a agent_scheme \<Rightarrow> 'a agent_scheme option" where
  "send_statistics_command n s = do {
     b \<leftarrow> atlas_cmd_batch_add atlas_cmd_batch_new (cmd_code ATLAS_CMD_DATA_PLANE_PACKETS_PER_MINUTE) 4
            (bytes_of_int (payload_samples s));
     b \<leftarrow> atlas_cmd_batch_add b (cmd_code ATLAS_CMD_DATA_PLANE_PACKETS_AVG) 4 (bytes_of_int (payload_avg s));
     let s1 = s\<lparr>payload_samples := 0, payload_total := 0, payload_avg := 0\<rparr>;
     let (cmd_buf, cmd_len) = atlas_cmd_batch_get_buf b (None, 0);
     write_to_socket_retry n cmd_buf cmd_len s1 }"

section \<open>Identity\<close>

definition identity_body :: "cmd \<Rightarrow> string ptr \<Rightarrow> (bool \<times> string ptr) option" where
  "identity_body c idy =
     (if c_type c = cmd_code ATLAS_CMD_DATA_PLANE_IDENTITY
      then do { v \<leftarrow> c_value c; Some (False, Some (c_str v)) }
      else Some (True, idy))"

text \<open>\<open>idy\<close> is \<open>*identity\<close>, before and after.\<close>

definition send_identity_command ::
    "nat \<Rightarrow> string ptr \<Rightarrow> 'a agent_scheme \<Rightarrow> (atlas_status \<times> string ptr \<times> 'a agent_scheme) option" where
  "send_identity_command n idy s = do {
     b \<leftarrow> atlas_cmd_batch_add atlas_cmd_batch_new (cmd_code ATLAS_CMD_DATA_PLANE_GET_IDENTITY) 0 [];
     let (cmd_buf, cmd_len) = atlas_cmd_batch_get_buf b (None, 0);
     s1 \<leftarrow> write_to_socket_retry n cmd_buf cmd_len s;
     let (bytes, s2) = sock_read s1;
     if bytes = [] then Some (ATLAS_SOCKET_ERROR, idy, s2)
     else do {
       (status, cmd_batch) \<leftarrow> atlas_cmd_batch_set_raw atlas_cmd_batch_new (Some bytes) (of_nat (length bytes));
       if status \<noteq> ATLAS_OK then Some (status, idy, s2)
       else do {
         idy1 \<leftarrow> cmd_loop identity_body cmd_batch None;
         Some (status, idy1, s2) } } }"

text \<open>\<open>None\<close> for the last argument is a NULL pointer to the variable of the caller.\<close>

definition atlas_init ::
    "nat \<Rightarrow> u16 \<Rightarrow> u16 \<Rightarrow> u16 \<Rightarrow> string ptr ptr \<Rightarrow> 'a agent_scheme \<Rightarrow>
     (atlas_status \<times> string ptr ptr \<times> 'a agent_scheme) option" where
  "atlas_init n qos ppm pack_maxlen identity s =
     (case identity of
        None \<Rightarrow> Some (ATLAS_INVALID_INPUT, None, s)
      | Some idy \<Rightarrow> do {
          s1 \<leftarrow> socket_connect n (s\<lparr>client_qos := qos, client_packets_per_min := ppm, client_packets_maxlen := pack_maxlen\<rparr>);
          (status, idy1, s2) \<leftarrow> send_identity_command n idy s1;
          Some (status, Some idy1, s2) })"

text \<open>The background thread: its first \<open>k\<close> reports.\<close>

primrec register_to_atlas_client :: "nat \<Rightarrow> nat \<Rightarrow> 'a agent_scheme \<Rightarrow> 'a agent_scheme option" where
  "register_to_atlas_client n 0 s = Some s"
| "register_to_atlas_client n (Suc k) s = do {
     s1 \<leftarrow> send_statistics_command n s;
     register_to_atlas_client n k s1 }"

section \<open>Reputation and feedback\<close>

definition feedback_buf :: "atlas_feedback \<Rightarrow> (byte list ptr \<times> u16) option" where
  "feedback_buf feedback = do {
     b \<leftarrow> atlas_cmd_batch_add atlas_cmd_batch_new (cmd_code ATLAS_CMD_DATA_PLANE_FEEDBACK_IDENTITY)
            (of_nat (length (fb_identity feedback))) (str_bytes (fb_identity feedback));
     b \<leftarrow> atlas_cmd_batch_add b (cmd_code ATLAS_CMD_DATA_PLANE_FEEDBACK_SENSOR_TYPE) 2
            (bytes_of_u16 (htons (ucast (fb_sensor_type feedback))));
     b \<leftarrow> atlas_cmd_batch_add b (cmd_code ATLAS_CMD_DATA_PLANE_FEEDBACK_SENSOR) 2
            (bytes_of_u16 (htons (fb_sensor_score feedback)));
     b \<leftarrow> atlas_cmd_batch_add b (cmd_code ATLAS_CMD_DATA_PLANE_FEEDBACK_RESPONSE_TIME) 2
            (bytes_of_u16 (htons (fb_time_score feedback)));
     let (cmd_buf_inner, cmd_inner_len) = atlas_cmd_batch_get_buf b (None, 0);
     v \<leftarrow> cmd_buf_inner;
     b \<leftarrow> atlas_cmd_batch_add atlas_cmd_batch_new (cmd_code ATLAS_CMD_DATA_PLANE_FEEDBACK) cmd_inner_len v;
     Some (atlas_cmd_batch_get_buf b (None, 0)) }"

definition send_feedback_command :: "atlas_feedback \<Rightarrow> 'a agent_scheme \<Rightarrow> (atlas_status \<times> 'a agent_scheme) option" where
  "send_feedback_command feedback s = do {
     (cmd_buf_outer, cmd_outer_len) \<leftarrow> feedback_buf feedback;
     (bytes, s1) \<leftarrow> write_to_socket cmd_buf_outer cmd_outer_len s;
     Some (if bytes \<noteq> uint cmd_outer_len then ATLAS_GENERAL_ERR else ATLAS_OK, s1) }"

text \<open>The status of a single feedback is dropped; the array \<open>identity\<close> is never NULL.\<close>

fun feedback_loop :: "atlas_feedback list \<Rightarrow> 'a agent_scheme \<Rightarrow> (atlas_status \<times> 'a agent_scheme) option" where
  "feedback_loop [] s = Some (ATLAS_OK, s)"
| "feedback_loop (f # fs) s =
     (if fb_sensor_score f > ATLAS_CLIENT_DATA_PLANE_FEEDBACKS_SCORE_MAX then Some (ATLAS_INVALID_INPUT, s)
      else if fb_time_score f > ATLAS_CLIENT_DATA_PLANE_FEEDBACKS_SCORE_MAX then Some (ATLAS_INVALID_INPUT, s)
      else do {
        (_, s1) \<leftarrow> send_feedback_command f s;
        feedback_loop fs s1 })"

definition atlas_reputation_feedback ::
    "atlas_feedback list ptr \<Rightarrow> 'a agent_scheme \<Rightarrow> (atlas_status \<times> 'a agent_scheme) option" where
  "atlas_reputation_feedback feedback s =
     (case feedback of
        None \<Rightarrow> Some (ATLAS_INVALID_INPUT, s)
      | Some fs \<Rightarrow> if fs = [] then Some (ATLAS_INVALID_INPUT, s) else feedback_loop fs s)"

definition reputation_answer_body :: "cmd \<Rightarrow> atlas_status \<times> string ptr \<Rightarrow> (bool \<times> atlas_status \<times> string ptr) option" where
  "reputation_answer_body c st =
     (if c_type c = cmd_code ATLAS_CMD_DATA_PLANE_FEATURE_REPUTATION
      then do { v \<leftarrow> c_value c; Some (False, fst st, Some (c_str v)) }
      else if c_type c = cmd_code ATLAS_CMD_DATA_PLANE_FEATURE_ERROR
      then Some (False, ATLAS_GENERAL_ERR, snd st)
      else Some (True, st))"

definition atlas_reputation_request ::
    "u32 \<Rightarrow> string ptr ptr \<Rightarrow> 'a agent_scheme \<Rightarrow> (atlas_status \<times> string ptr ptr \<times> 'a agent_scheme) option" where
  "atlas_reputation_request sensor_type identity s =
     (case identity of
        None \<Rightarrow> Some (ATLAS_INVALID_INPUT, None, s)
      | Some idy \<Rightarrow> do {
          b \<leftarrow> atlas_cmd_batch_add atlas_cmd_batch_new (cmd_code ATLAS_CMD_DATA_PLANE_FEATURE_REPUTATION) 2
                 (bytes_of_u16 (htons (ucast sensor_type)));
          let (cmd_buf, cmd_len) = atlas_cmd_batch_get_buf b (None, 0);
          (bytes, s1) \<leftarrow> write_to_socket cmd_buf cmd_len s;
          if bytes \<noteq> uint cmd_len then Some (ATLAS_SOCKET_ERROR, Some idy, s1)
          else
            let (buf, s2) = sock_read s1 in
            if buf = [] then Some (ATLAS_SOCKET_ERROR, Some idy, s2)
            else do {
              (status, cmd_batch) \<leftarrow> atlas_cmd_batch_set_raw atlas_cmd_batch_new (Some buf) (of_nat (length buf));
              if status \<noteq> ATLAS_OK then Some (status, Some idy, s2)
              else do {
                (status1, idy1) \<leftarrow> cmd_loop reputation_answer_body cmd_batch (status, idy);
                Some (status1, Some idy1, s2) } } })"

section \<open>Lemmas: messages\<close>

definition policy_msg :: "'a agent_scheme \<Rightarrow> byte list" where
  "policy_msg s = enc_tlvs [(1000, enc_tlvs [(1100, bytes_of_u16 (client_qos s)),
     (1101, bytes_of_u16 (client_packets_per_min s)), (1102, bytes_of_u16 (client_packets_maxlen s))])]"

definition statistics_msg :: "'a agent_scheme \<Rightarrow> byte list" where
  "statistics_msg s = enc_tlvs [(1001, bytes_of_int (payload_samples s)), (1002, bytes_of_int (payload_avg s))]"

definition feedback_msg :: "atlas_feedback \<Rightarrow> byte list" where
  "feedback_msg f = enc_tlvs [(1501, enc_tlvs [(1502, str_bytes (fb_identity f)), (1503, net_bytes (ucast (fb_sensor_type f))),
     (1504, net_bytes (fb_sensor_score f)), (1505, net_bytes (fb_time_score f))])]"

lemma length_policy_msg: "length (policy_msg s) = 22"
  by (simp add: policy_msg_def)

lemma length_bytes_of_int [simp]: "length (bytes_of_int v) = 4"
  by (simp add: bytes_of_int_def u32_bytes_def)

lemma length_statistics_msg: "length (statistics_msg s) = 16"
  by (simp add: statistics_msg_def)

lemma registration_buf_mk: "registration_buf s = Some (Some (policy_msg s), 22)"
  by (simp add: registration_buf_def batch_add_new batch_add_next atlas_cmd_batch_get_buf_mk policy_msg_def)

lemma feedback_buf_mk:
  assumes "length (fb_identity f) < 65000"
  shows "feedback_buf f = Some (Some (feedback_msg f), of_nat (length (feedback_msg f)))"
  using assms
  by (simp add: feedback_buf_def batch_add_new batch_add_next atlas_cmd_batch_get_buf_mk feedback_msg_def net_bytes_def [symmetric])

text \<open>Writing one message.\<close>

lemma write_bytes:
  assumes "length bs < 65536"
  shows "write_to_socket (Some bs) (of_nat (length bs)) s =
    Some (if e_write s (clock s) \<and> agent_fd s \<in> set (fds s)
          then (int (length bs), emit (Sock_write (agent_fd s) bs) (tick s)) else (-1, tick s))"
proof -
  have "unat (of_nat (length bs) :: u16) = length bs" "uint (of_nat (length bs) :: u16) = int (length bs)"
    using assms by (simp_all add: unsigned_of_nat take_bit_nat_eq_self)
  then show ?thesis by (simp add: write_to_socket_def mem_read_def)
qed

section \<open>Lemmas: connecting and writing\<close>

text \<open>What connecting and writing leave alone.\<close>

definition agent_same :: "'a agent_scheme \<Rightarrow> 'a agent_scheme \<Rightarrow> bool" where
  "agent_same s t \<longleftrightarrow> (\<exists>c f os a. t = s\<lparr>clock := c, fds := f, outs := os, agent_fd := a\<rparr>)"

lemma agent_sameI: "agent_same s (s\<lparr>clock := c, fds := f, outs := os, agent_fd := a\<rparr>)"
  unfolding agent_same_def by blast

lemma agent_same_refl: "agent_same s s"
  using agent_sameI [where s = s and c = "clock s" and f = "fds s" and os = "outs s" and a = "agent_fd s"] by simp

lemma agent_same_trans: "agent_same s t \<Longrightarrow> agent_same t u \<Longrightarrow> agent_same s u"
  by (auto simp: agent_same_def) (auto intro: agent_sameI [unfolded agent_same_def])

lemma agent_same_fields:
  assumes "agent_same s t"
  shows "policy_msg t = policy_msg s" "e_write t = e_write s" "e_connect t = e_connect s" "e_fd t = e_fd s"
    "e_answer t = e_answer s" "statistics_msg t = statistics_msg s"
    "payload_samples t = payload_samples s" "payload_total t = payload_total s" "payload_avg t = payload_avg s"
  using assms by (auto simp: agent_same_def policy_msg_def statistics_msg_def)

lemma agent_same_step: "agent_same s (tick s)" "agent_same s (emit x s)" "agent_same s (fd_close g s)"
  "agent_same s (snd (fd_new s))" "agent_same s (s\<lparr>agent_fd := h\<rparr>)"
proof -
  show "agent_same s (tick s)"
    using agent_sameI [where s = s and c = "Suc (clock s)" and f = "fds s" and os = "outs s" and a = "agent_fd s"]
    by (simp add: tick_def)
  show "agent_same s (emit x s)"
    using agent_sameI [where s = s and c = "clock s" and f = "fds s" and os = "outs s @ [x]" and a = "agent_fd s"]
    by (simp add: emit_def)
  show "agent_same s (fd_close g s)"
    using agent_sameI [where s = s and c = "clock s" and f = "removeAll g (fds s)" and os = "outs s" and a = "agent_fd s"]
    by (simp add: fd_close_def)
  show "agent_same s (snd (fd_new s))"
    using agent_sameI [where s = s and c = "Suc (clock s)" and f = "if fd_pick s = -1 then fds s else fd_pick s # fds s"
        and os = "outs s" and a = "agent_fd s"]
    by (simp add: fd_new_def)
  show "agent_same s (s\<lparr>agent_fd := h\<rparr>)"
    using agent_sameI [where s = s and c = "clock s" and f = "fds s" and os = "outs s" and a = h] by simp
qed

text \<open>A new socket replaces the old one.\<close>

definition new_socket :: "'a agent_scheme \<Rightarrow> 'a agent_scheme" where
  "new_socket s = (snd (fd_new (fd_close (agent_fd s) s)))\<lparr>agent_fd := fd_pick (fd_close (agent_fd s) s)\<rparr>"

lemma socket_connect_eq:
  "socket_connect n s = (if agent_fd (new_socket s) = -1 then Some (new_socket s)
     else do { s3 \<leftarrow> connect_loop n (new_socket s); send_registration_command n s3 })"
  by (subst socket_connect.simps) (simp add: new_socket_def fd_new_def Let_def)

lemma new_socket_same: "agent_same s (new_socket s)"
  unfolding new_socket_def using agent_same_step agent_same_trans by metis

lemma new_socket_fields:
  "clock (new_socket s) = Suc (clock s)" "outs (new_socket s) = outs s"
  "agent_fd (new_socket s) = fd_pick (fd_close (agent_fd s) s)"
  "fds (new_socket s) = (if agent_fd (new_socket s) = -1 then removeAll (agent_fd s) (fds s)
     else agent_fd (new_socket s) # removeAll (agent_fd s) (fds s))"
  by (simp_all add: new_socket_def fd_new_def fd_close_def)

lemma connect_loop_state: "connect_loop n s = Some t \<Longrightarrow> \<exists>k > clock s. t = s\<lparr>clock := k\<rparr>"
proof (induction n arbitrary: s)
  case (Suc n)
  show ?case
  proof (cases "e_connect s (clock s)")
    case True
    then show ?thesis using Suc.prems by (auto simp: tick_def)
  next
    case False
    then obtain k where "k > clock (tick s)" "t = (tick s)\<lparr>clock := k\<rparr>" using Suc by fastforce
    then show ?thesis by (intro exI [of _ k]) (simp add: tick_def)
  qed
qed simp

lemma registration_retry:
  "send_registration_command n s = write_to_socket_retry n (Some (policy_msg s)) (of_nat (length (policy_msg s))) s"
  by (subst send_registration_command.simps) (simp add: registration_buf_mk length_policy_msg)

lemma retry_eq:
  assumes "length bs < 65536"
  shows "write_to_socket_retry n (Some bs) (of_nat (length bs)) s =
    (if e_write s (clock s) \<and> agent_fd s \<in> set (fds s) then Some (emit (Sock_write (agent_fd s) bs) (tick s))
     else case n of 0 \<Rightarrow> None | Suc m \<Rightarrow> do {
       s2 \<leftarrow> socket_connect m (tick s);
       write_to_socket_retry m (Some bs) (of_nat (length bs)) s2 })"
proof -
  have "uint (of_nat (length bs) :: u16) = int (length bs)"
    using assms by (simp add: unsigned_of_nat take_bit_nat_eq_self)
  then show ?thesis
    by (subst write_to_socket_retry.simps) (simp add: write_bytes [OF assms])
qed

text \<open>
  What was written when a message went out: possibly registrations, the last of them on the
  connection the message then used, and the message; without a registration the connection is
  the old one.
\<close>

definition delivered :: "byte list \<Rightarrow> byte list \<Rightarrow> 'a agent_scheme \<Rightarrow> 'a agent_scheme \<Rightarrow> bool" where
  "delivered reg bs s t \<longleftrightarrow> agent_same s t \<and> agent_fd t \<in> set (fds t) \<and> -1 \<notin> set (fds t) \<and>
     (\<exists>pre. outs t = outs s @ pre @ [Sock_write (agent_fd t) bs] \<and> (\<forall>x \<in> set pre. \<exists>f. x = Sock_write f reg) \<and>
       (if pre = [] then agent_fd t = agent_fd s else last pre = Sock_write (agent_fd t) reg))"

text \<open>After connecting: no socket and nothing written, or registered on the new socket.\<close>

definition reconnected :: "byte list \<Rightarrow> 'a agent_scheme \<Rightarrow> 'a agent_scheme \<Rightarrow> bool" where
  "reconnected reg s t \<longleftrightarrow> agent_same s t \<and> -1 \<notin> set (fds t) \<and>
     (if agent_fd t = -1 then outs t = outs s
      else agent_fd t \<in> set (fds t) \<and> (\<exists>pre. outs t = outs s @ pre @ [Sock_write (agent_fd t) reg] \<and>
        (\<forall>x \<in> set pre. \<exists>f. x = Sock_write f reg)))"

lemma connect_reconnected:
  assumes "-1 \<notin> set (fds s)" and "socket_connect n s = Some t"
    and retry: "\<And>u. -1 \<notin> set (fds u) \<Longrightarrow> policy_msg u = policy_msg s \<Longrightarrow>
      write_to_socket_retry n (Some (policy_msg s)) (of_nat (length (policy_msg s))) u = Some t \<Longrightarrow>
      delivered (policy_msg s) (policy_msg s) u t"
  shows "reconnected (policy_msg s) s t"
proof -
  let ?n = "new_socket s" and ?reg = "policy_msg s"
  have f: "agent_fd ?n = -1 \<or> 0 \<le> agent_fd ?n"
    using fd_pick_cases [of "fd_close (agent_fd s) s"] by (auto simp: new_socket_fields)
  have neg: "-1 \<notin> set (fds ?n)" using assms(1) f by (subst new_socket_fields(4)) auto
  show ?thesis
  proof (cases "agent_fd ?n = -1")
    case True
    then have t: "t = new_socket s" using assms(2) by (simp add: socket_connect_eq)
    show ?thesis unfolding t using True neg new_socket_same [of s] by (simp add: reconnected_def new_socket_fields(2))
  next
    case False
    then obtain k where k: "send_registration_command n (?n\<lparr>clock := k\<rparr>) = Some t"
      using assms(2) connect_loop_state by (fastforce simp: socket_connect_eq split: bind_splits)
    let ?u = "?n\<lparr>clock := k\<rparr>"
    have same: "agent_same s ?u"
      using agent_same_trans [OF new_socket_same
          agent_sameI [where s = ?n and c = k and f = "fds ?n" and os = "outs ?n" and a = "agent_fd ?n"]] by simp
    then have "policy_msg ?u = ?reg" by (rule agent_same_fields)
    with k neg have d: "delivered ?reg ?reg ?u t" by (intro retry) (simp_all add: registration_retry)
    then obtain pre where pre: "outs t = outs s @ pre @ [Sock_write (agent_fd t) ?reg]" "\<forall>x \<in> set pre. \<exists>f. x = Sock_write f ?reg"
      by (auto simp: delivered_def new_socket_fields(2))
    have "agent_fd t \<noteq> -1" using d by (auto simp: delivered_def)
    then show ?thesis using d pre agent_same_trans [OF same] by (auto simp: reconnected_def delivered_def)
  qed
qed

lemma retry_delivers:
  assumes "length bs < 65536" and "-1 \<notin> set (fds s)"
    and "write_to_socket_retry n (Some bs) (of_nat (length bs)) s = Some t"
  shows "delivered (policy_msg s) bs s t"
  using assms
proof (induction n arbitrary: bs s t)
  case 0
  then have "agent_fd s \<in> set (fds s) \<and> t = emit (Sock_write (agent_fd s) bs) (tick s)"
    by (simp add: retry_eq split: if_splits)
  then show ?case using 0 agent_same_trans [OF agent_same_step(1,2)]
    by (auto simp: delivered_def emit_def tick_def)
next
  case (Suc m)
  show ?case
  proof (cases "e_write s (clock s) \<and> agent_fd s \<in> set (fds s)")
    case True
    then have "t = emit (Sock_write (agent_fd s) bs) (tick s)" using Suc.prems by (simp add: retry_eq)
    then show ?thesis using True Suc.prems agent_same_trans [OF agent_same_step(1,2)]
      by (auto simp: delivered_def emit_def tick_def)
  next
    case False
    let ?reg = "policy_msg s"
    have ts: "policy_msg (tick s) = ?reg" by (rule agent_same_fields(1) [OF agent_same_step(1)])
    obtain u where u: "socket_connect m (tick s) = Some u" "write_to_socket_retry m (Some bs) (of_nat (length bs)) u = Some t"
      using Suc.prems False by (auto simp: retry_eq split: bind_splits)
    have "reconnected (policy_msg (tick s)) (tick s) u"
    proof (rule connect_reconnected [OF _ u(1)])
      fix v assume v: "-1 \<notin> set (fds v)" "policy_msg v = policy_msg (tick s)"
        "write_to_socket_retry m (Some (policy_msg (tick s))) (of_nat (length (policy_msg (tick s)))) v = Some u"
      from Suc.IH [OF _ v(1,3)] show "delivered (policy_msg (tick s)) (policy_msg (tick s)) v u"
        by (simp add: v(2) length_policy_msg)
    qed (use Suc.prems(2) in \<open>simp add: tick_def\<close>)
    then have r: "reconnected ?reg (tick s) u" by (simp add: ts)
    then have neg: "-1 \<notin> set (fds u)" and reg: "policy_msg u = ?reg" and same: "agent_same s u"
      using agent_same_fields(1) [of "tick s" u] agent_same_trans [OF agent_same_step(1)] by (auto simp: reconnected_def ts)
    from Suc.IH [OF Suc.prems(1) neg u(2)] have d: "delivered ?reg bs u t" by (simp add: reg)
    then obtain pre where pre: "outs t = outs u @ pre @ [Sock_write (agent_fd t) bs]" "\<forall>x \<in> set pre. \<exists>f. x = Sock_write f ?reg"
      "if pre = [] then agent_fd t = agent_fd u else last pre = Sock_write (agent_fd t) ?reg"
      by (auto simp: delivered_def)
    have t: "agent_fd t \<in> set (fds t)" "-1 \<notin> set (fds t)" "agent_same u t" using d by (simp_all add: delivered_def)
    from r obtain pre0 where "outs u = outs s @ pre0" "\<forall>x \<in> set pre0. \<exists>f. x = Sock_write f ?reg"
      "if agent_fd u = -1 then pre0 = [] else pre0 \<noteq> [] \<and> last pre0 = Sock_write (agent_fd u) ?reg"
      by (auto simp: reconnected_def tick_def split: if_splits)
    moreover from this have "pre0 @ pre \<noteq> []" using pre(3) t by (auto split: if_splits)
    ultimately have "delivered ?reg bs s t"
      unfolding delivered_def using pre t agent_same_trans [OF same]
      by (intro conjI exI [of _ "pre0 @ pre"]) (auto split: if_splits)
    then show ?thesis .
  qed
qed

section \<open>Lemmas: writing ends\<close>

text \<open>
  From time \<open>N\<close> on the client accepts connections and messages and the kernel has descriptors
  outside \<open>B\<close>, the ones open besides the socket.
\<close>

definition live_from :: "nat \<Rightarrow> int set \<Rightarrow> 'a agent_scheme \<Rightarrow> bool" where
  "live_from N B s \<longleftrightarrow> (\<forall>k \<ge> N. e_connect s k \<and> e_write s k \<and> 0 \<le> e_fd s k \<and> e_fd s k \<notin> B) \<and>
     set (fds s) \<subseteq> insert (agent_fd s) B"

definition progress :: "nat \<Rightarrow> int set \<Rightarrow> 'a agent_scheme \<Rightarrow> 'a agent_scheme \<Rightarrow> bool" where
  "progress N B s t \<longleftrightarrow> live_from N B t \<and> clock s < clock t \<and> (N \<le> clock s \<longrightarrow> agent_fd t \<in> set (fds t))"

lemma connect_loop_live:
  assumes "live_from N B s" and "N - clock s < n"
  shows "\<exists>k > clock s. connect_loop n s = Some (s\<lparr>clock := k\<rparr>)"
  using assms
proof (induction n arbitrary: s)
  case (Suc n)
  show ?case
  proof (cases "e_connect s (clock s)")
    case True
    then show ?thesis by (intro exI [of _ "Suc (clock s)"]) (simp add: tick_def)
  next
    case False
    then have lt: "clock s < N" using Suc.prems(1) unfolding live_from_def by (metis not_less)
    moreover have "live_from N B (tick s)" using Suc.prems(1) by (simp add: live_from_def tick_def)
    moreover have "N - clock (tick s) < n" using lt Suc.prems(2) by (simp add: tick_def)
    ultimately obtain k where "k > clock (tick s)" "connect_loop n (tick s) = Some ((tick s)\<lparr>clock := k\<rparr>)"
      using Suc.IH by blast
    then show ?thesis using False by (intro exI [of _ k]) (simp add: tick_def)
  qed
qed simp

lemma new_socket_live:
  assumes "live_from N B s"
  shows "live_from N B (new_socket s)" and "N \<le> clock s \<Longrightarrow> agent_fd (new_socket s) \<noteq> -1"
    and "agent_fd (new_socket s) \<noteq> -1 \<Longrightarrow> agent_fd (new_socket s) \<in> set (fds (new_socket s))"
proof -
  have e: "e_connect (new_socket s) = e_connect s" "e_write (new_socket s) = e_write s" "e_fd (new_socket s) = e_fd s"
    using agent_same_fields [OF new_socket_same [of s]] by simp_all
  have B: "set (removeAll (agent_fd s) (fds s)) \<subseteq> B" using assms by (auto simp: live_from_def)
  then show "live_from N B (new_socket s)"
    using assms unfolding live_from_def e by (subst new_socket_fields(4)) auto
  show "agent_fd (new_socket s) \<noteq> -1" if "N \<le> clock s"
    using assms B that by (auto simp: new_socket_fields(3) fd_pick_def fd_close_def live_from_def Let_def)
  show "agent_fd (new_socket s) \<noteq> -1 \<Longrightarrow> agent_fd (new_socket s) \<in> set (fds (new_socket s))"
    by (subst new_socket_fields(4)) simp
qed

lemma retry_now:
  assumes "length bs < 65536" and "live_from N B s" and "N \<le> clock s" and "agent_fd s \<in> set (fds s)"
  shows "\<exists>t. write_to_socket_retry n (Some bs) (of_nat (length bs)) s = Some t \<and> progress N B s t"
  using assms by (auto simp: retry_eq live_from_def progress_def emit_def tick_def)

lemma connect_progress:
  fixes s :: "'a agent_scheme"
  assumes "live_from N B s" and "N - clock s < n"
    and retry: "\<And>u :: 'a agent_scheme. live_from N B u \<Longrightarrow> N - clock u + 2 \<le> n \<Longrightarrow>
      \<exists>t. write_to_socket_retry n (Some (policy_msg u)) (of_nat (length (policy_msg u))) u = Some t \<and> progress N B u t"
  shows "\<exists>t. socket_connect n s = Some t \<and> progress N B s t"
proof (cases "agent_fd (new_socket s) = -1")
  case True
  then show ?thesis using new_socket_live [OF assms(1)] by (auto simp: socket_connect_eq progress_def new_socket_fields(1))
next
  case False
  let ?n = "new_socket s"
  have "N - clock ?n < n" using assms(2) by (simp add: new_socket_fields(1))
  from connect_loop_live [OF new_socket_live(1) [OF assms(1)] this] obtain k where
    k: "clock ?n < k" "connect_loop n ?n = Some (?n\<lparr>clock := k\<rparr>)" by blast
  let ?u = "?n\<lparr>clock := k\<rparr>"
  have u: "live_from N B ?u" "agent_fd ?u \<in> set (fds ?u)"
    using new_socket_live [OF assms(1)] False by (simp_all add: live_from_def)
  have k2: "clock s + 2 \<le> k" using k(1) by (simp add: new_socket_fields(1))
  have "\<exists>t. write_to_socket_retry n (Some (policy_msg ?u)) (of_nat (length (policy_msg ?u))) ?u = Some t \<and> progress N B ?u t"
  proof (cases "N \<le> k")
    case True
    then show ?thesis using u by (intro retry_now) (simp_all add: length_policy_msg)
  next
    case False
    then show ?thesis using u(1) assms(2) k2 by (intro retry) simp_all
  qed
  then obtain t where "write_to_socket_retry n (Some (policy_msg ?u)) (of_nat (length (policy_msg ?u))) ?u = Some t"
    "progress N B ?u t" by blast
  then show ?thesis using False k k2 by (intro exI [of _ t]) (simp add: socket_connect_eq registration_retry progress_def)
qed

lemma retry_progress:
  fixes s :: "'a agent_scheme"
  assumes "length bs < 65536" and "live_from N B s" and "N - clock s + 2 \<le> n"
  shows "\<exists>t. write_to_socket_retry n (Some bs) (of_nat (length bs)) s = Some t \<and> progress N B s t"
  using assms
proof (induction n arbitrary: bs s)
  case (Suc m)
  show ?case
  proof (cases "e_write s (clock s) \<and> agent_fd s \<in> set (fds s)")
    case True
    then show ?thesis using Suc.prems by (auto simp: retry_eq live_from_def progress_def emit_def tick_def)
  next
    case False
    have t: "live_from N B (tick s)" using Suc.prems(2) by (simp add: live_from_def tick_def)
    have "\<exists>u. socket_connect m (tick s) = Some u \<and> progress N B (tick s) u"
    proof (rule connect_progress [OF t])
      show "N - clock (tick s) < m" using Suc.prems(3) by (simp add: tick_def)
      fix v :: "'a agent_scheme" assume "live_from N B v" "N - clock v + 2 \<le> m"
      then show "\<exists>t. write_to_socket_retry m (Some (policy_msg v)) (of_nat (length (policy_msg v))) v = Some t \<and> progress N B v t"
        by (intro Suc.IH) (simp_all add: length_policy_msg)
    qed
    then obtain u where u: "socket_connect m (tick s) = Some u" "progress N B (tick s) u" by blast
    have c: "clock s + 2 \<le> clock u" using u(2) by (simp add: progress_def tick_def)
    have "\<exists>t. write_to_socket_retry m (Some bs) (of_nat (length bs)) u = Some t \<and> progress N B u t"
    proof (cases "N \<le> clock s")
      case True
      then show ?thesis using Suc.prems(1) u(2) c by (intro retry_now) (auto simp: progress_def tick_def)
    next
      case False
      then show ?thesis using Suc.prems(1,3) u(2) c by (intro Suc.IH) (auto simp: progress_def)
    qed
    then obtain t where "write_to_socket_retry m (Some bs) (of_nat (length bs)) u = Some t" "progress N B u t" by blast
    moreover have "agent_fd t \<in> set (fds t)" if "N \<le> clock s"
      using calculation(2) c that by (simp add: progress_def)
    moreover have "write_to_socket_retry (Suc m) (Some bs) (of_nat (length bs)) s =
        write_to_socket_retry m (Some bs) (of_nat (length bs)) u"
      unfolding retry_eq [OF Suc.prems(1), of "Suc m"] using False u(1) by auto
    ultimately show ?thesis using c by (intro exI [of _ t]) (simp add: progress_def)
  qed
qed simp

section \<open>Lemmas: statistics\<close>

fun packets_received :: "int list \<Rightarrow> 'a agent_scheme \<Rightarrow> 'a agent_scheme option" where
  "packets_received [] s = Some s"
| "packets_received (l # ls) s = do { s1 \<leftarrow> atlas_pkt_received l s; packets_received ls s1 }"

lemma sdiv_pos: "0 \<le> (a :: int) \<Longrightarrow> 0 < b \<Longrightarrow> a sdiv b = a div b"
  by (cases "a = 0") (simp_all add: signed_divide_int_def)

text \<open>The running values are those of the whole list.\<close>

lemma packets_received_sum:
  assumes "\<forall>l \<in> set ls. 0 \<le> l" and "sum_list ls + payload_total s < 2 ^ 31" and "int (length ls) + payload_samples s < 2 ^ 31"
    and "0 \<le> payload_total s" "0 \<le> payload_samples s" and "ls \<noteq> []"
  shows "packets_received ls s = Some (s\<lparr>payload_samples := payload_samples s + int (length ls),
    payload_total := payload_total s + sum_list ls,
    payload_avg := (payload_total s + sum_list ls) div (payload_samples s + int (length ls))\<rparr>)"
  using assms
proof (induction ls arbitrary: s)
  case (Cons l ls)
  have pos: "0 \<le> sum_list ls" using Cons.prems(1) by (simp add: sum_list_nonneg)
  let ?t = "s\<lparr>payload_samples := payload_samples s + 1, payload_total := payload_total s + l,
      payload_avg := (payload_total s + l) div (payload_samples s + 1)\<rparr>"
  have "(payload_total s + l) sdiv (payload_samples s + 1) = (payload_total s + l) div (payload_samples s + 1)"
    using Cons.prems by (intro sdiv_pos) simp_all
  then have one: "atlas_pkt_received l s = Some ?t"
    using Cons.prems pos by (simp add: atlas_pkt_received_def int32_def)
  show ?case
  proof (cases "ls = []")
    case False
    then have "packets_received ls ?t = Some (?t\<lparr>payload_samples := payload_samples ?t + int (length ls),
      payload_total := payload_total ?t + sum_list ls,
      payload_avg := (payload_total ?t + sum_list ls) div (payload_samples ?t + int (length ls))\<rparr>)"
      using Cons.prems by (intro Cons.IH) simp_all
    then show ?thesis by (simp add: one algebra_simps)
  qed (simp add: one)
qed simp

lemma send_feedback_bytes:
  assumes "length (fb_identity f) < 65000"
  shows "send_feedback_command f s =
    Some (if e_write s (clock s) \<and> agent_fd s \<in> set (fds s)
          then (ATLAS_OK, emit (Sock_write (agent_fd s) (feedback_msg f)) (tick s)) else (ATLAS_GENERAL_ERR, tick s))"
proof -
  have "length (feedback_msg f) < 65536" using assms by (simp add: feedback_msg_def)
  moreover from this have "uint (of_nat (length (feedback_msg f)) :: u16) = int (length (feedback_msg f))"
    by (simp add: unsigned_of_nat take_bit_nat_eq_self)
  ultimately show ?thesis
    using feedback_buf_mk [OF assms] write_bytes [of "feedback_msg f" s] by (simp add: send_feedback_command_def)
qed

definition feedback_ok :: "atlas_feedback \<Rightarrow> bool" where
  "feedback_ok f \<longleftrightarrow> fb_sensor_score f \<le> 100 \<and> fb_time_score f \<le> 100"

lemma feedback_loop_prefix:
  assumes "\<forall>f \<in> set fs. length (fb_identity f) < 64" and "\<forall>k. e_write s k" and "agent_fd s \<in> set (fds s)"
  shows "feedback_loop fs s = Some (if list_all feedback_ok fs then ATLAS_OK else ATLAS_INVALID_INPUT,
    s\<lparr>clock := clock s + length (takeWhile feedback_ok fs),
      outs := outs s @ map (\<lambda>f. Sock_write (agent_fd s) (feedback_msg f)) (takeWhile feedback_ok fs)\<rparr>)"
  using assms
proof (induction fs arbitrary: s)
  case (Cons f fs)
  let ?t = "emit (Sock_write (agent_fd s) (feedback_msg f)) (tick s)"
  have "send_feedback_command f s = Some (ATLAS_OK, ?t)" using Cons.prems by (simp add: send_feedback_bytes)
  moreover have "feedback_loop fs ?t = Some (if list_all feedback_ok fs then ATLAS_OK else ATLAS_INVALID_INPUT,
    ?t\<lparr>clock := clock ?t + length (takeWhile feedback_ok fs),
      outs := outs ?t @ map (\<lambda>g. Sock_write (agent_fd ?t) (feedback_msg g)) (takeWhile feedback_ok fs)\<rparr>)"
    using Cons.prems by (intro Cons.IH) (simp_all add: emit_def tick_def)
  ultimately show ?case using feedback_ok_def [of f]
    by (auto simp: ATLAS_CLIENT_DATA_PLANE_FEEDBACKS_SCORE_MAX_def emit_def tick_def not_le)
qed simp

section \<open>Properties\<close>

definition agent_demo :: agent where
  "agent_demo = \<lparr>clock = 0, fds = [0, 1, 2], outs = [], e_fd = (\<lambda>n. 3 + int n), agent_fd = -1,
     client_qos = 1, client_packets_per_min = 60, client_packets_maxlen = 512,
     payload_samples = 0, payload_total = 0, payload_avg = 0,
     e_connect = (\<lambda>n. 5 \<le> n), e_write = (\<lambda>n. 5 \<le> n), e_answer = (\<lambda>_. None)\<rparr>"

text \<open>
  C20. Sending to the client ends and registers first: once the client accepts connections and
  messages again (from time \<open>N\<close> on, with descriptors left to the process), \<open>write_to_socket_retry\<close>
  returns, with \<open>N - clock + 2\<close> units of fuel, so the loops of connecting and writing that call each
  other end. The message has then been written whole, as the last output; everything written before
  it is a registration of the policy, and if the connection was replaced the registration went out
  on the new one immediately before the message.
\<close>

theorem message_delivered:
  assumes "length bs < 65536" and "-1 \<notin> set (fds s)"
    and "\<forall>k. N \<le> k \<longrightarrow> e_connect s k \<and> e_write s k \<and> 0 \<le> e_fd s k \<and> e_fd s k \<notin> set (fds s) - {agent_fd s}"
    and "N - clock s + 2 \<le> n"
  shows "\<exists>t pre. write_to_socket_retry n (Some bs) (of_nat (length bs)) s = Some t \<and>
    outs t = outs s @ pre @ [Sock_write (agent_fd t) bs] \<and> agent_fd t \<in> set (fds t) \<and>
    (\<forall>x. x \<in> set pre \<longrightarrow> (\<exists>f. x = Sock_write f (policy_msg s))) \<and>
    (if pre = [] then agent_fd t = agent_fd s else last pre = Sock_write (agent_fd t) (policy_msg s))"
proof -
  have "live_from N (set (fds s) - {agent_fd s}) s" using assms(3) by (auto simp: live_from_def)
  from retry_progress [OF assms(1) this assms(4)] obtain t where
    t: "write_to_socket_retry n (Some bs) (of_nat (length bs)) s = Some t" by blast
  from retry_delivers [OF assms(1,2) t] t show ?thesis unfolding delivered_def by metis
qed

theorem message_delivered_witness:
  "\<exists>t pre. write_to_socket_retry 7 (Some [1, 2, 3]) (of_nat (length [1, 2, 3 :: byte])) agent_demo = Some t \<and>
    outs t = outs agent_demo @ pre @ [Sock_write (agent_fd t) [1, 2, 3]] \<and> agent_fd t \<in> set (fds t) \<and>
    (\<forall>x. x \<in> set pre \<longrightarrow> (\<exists>f. x = Sock_write f (policy_msg agent_demo))) \<and>
    (if pre = [] then agent_fd t = agent_fd agent_demo else last pre = Sock_write (agent_fd t) (policy_msg agent_demo))"
  by (rule message_delivered [where N = 5]) (auto simp: agent_demo_def)

text \<open>
  C21. The statistics are those of the packets since the last report: for packets of non-negative
  lengths that stay within an \<open>int\<close>, the incremental update yields the number, the sum and the
  truncated average of the whole list, the next report carries exactly this number and average, and
  after it the counters start again at zero.
\<close>

theorem statistics_of_packets:
  assumes "\<forall>l. l \<in> set ls \<longrightarrow> 0 \<le> l" and "sum_list ls < 2 ^ 31" and "length ls < 2 ^ 31" and "ls \<noteq> []"
    and "payload_samples s = 0" "payload_total s = 0"
  shows "\<exists>t. packets_received ls s = Some t \<and>
    payload_samples t = int (length ls) \<and> payload_total t = sum_list ls \<and> payload_avg t = sum_list ls div int (length ls) \<and>
    (\<forall>n. send_statistics_command n t = write_to_socket_retry n
       (Some (enc_tlvs [(1001, bytes_of_int (int (length ls))), (1002, bytes_of_int (sum_list ls div int (length ls)))])) 16
       (s\<lparr>payload_samples := 0, payload_total := 0, payload_avg := 0\<rparr>))"
proof -
  have "packets_received ls s = Some (s\<lparr>payload_samples := payload_samples s + int (length ls),
    payload_total := payload_total s + sum_list ls,
    payload_avg := (payload_total s + sum_list ls) div (payload_samples s + int (length ls))\<rparr>)"
    using assms by (intro packets_received_sum) auto
  then show ?thesis using assms(5,6)
    by (simp add: send_statistics_command_def batch_add_new batch_add_next atlas_cmd_batch_get_buf_mk)
qed

theorem statistics_of_packets_witness:
  "\<exists>t. packets_received [100, 51, 0] agent_demo = Some t \<and>
    payload_samples t = int (length [100, 51, 0 :: int]) \<and> payload_total t = sum_list [100, 51, 0] \<and>
    payload_avg t = sum_list [100, 51, 0] div int (length [100, 51, 0 :: int]) \<and>
    (\<forall>n. send_statistics_command n t = write_to_socket_retry n
       (Some (enc_tlvs [(1001, bytes_of_int (int (length [100, 51, 0 :: int]))),
          (1002, bytes_of_int (sum_list [100, 51, 0] div int (length [100, 51, 0 :: int])))])) 16
       (agent_demo\<lparr>payload_samples := 0, payload_total := 0, payload_avg := 0\<rparr>))"
  by (rule statistics_of_packets) (auto simp: agent_demo_def)

text \<open>
  Feedback is not sent as a whole or not at all: on a working connection
  \<open>atlas_reputation_feedback\<close> writes, in order, one message for each element before the first with
  a score above 100, and answers OK exactly if there is none; the elements before the invalid one
  have been sent when it answers that the input is invalid.
\<close>

theorem feedback_prefix_sent:
  assumes "\<forall>f. f \<in> set fs \<longrightarrow> length (fb_identity f) < 64" and "fs \<noteq> []"
    and "\<forall>k. e_write s k" and "agent_fd s \<in> set (fds s)"
  shows "atlas_reputation_feedback (Some fs) s =
    Some (if \<exists>f \<in> set fs. fb_sensor_score f > 100 \<or> fb_time_score f > 100 then ATLAS_INVALID_INPUT else ATLAS_OK,
      s\<lparr>clock := clock s + length (takeWhile (\<lambda>f. fb_sensor_score f \<le> 100 \<and> fb_time_score f \<le> 100) fs),
        outs := outs s @ map (\<lambda>f. Sock_write (agent_fd s) (feedback_msg f))
          (takeWhile (\<lambda>f. fb_sensor_score f \<le> 100 \<and> fb_time_score f \<le> 100) fs)\<rparr>)"
proof -
  have eq: "feedback_ok = (\<lambda>f. fb_sensor_score f \<le> 100 \<and> fb_time_score f \<le> 100)" by (simp add: fun_eq_iff feedback_ok_def)
  have "list_all feedback_ok fs \<longleftrightarrow> \<not> (\<exists>f \<in> set fs. fb_sensor_score f > 100 \<or> fb_time_score f > 100)"
    by (auto simp: list_all_iff feedback_ok_def not_less)
  then show ?thesis using feedback_loop_prefix [of fs s] assms
    by (simp add: atlas_reputation_feedback_def eq [symmetric])
qed

theorem feedback_prefix_sent_witness:
  "atlas_reputation_feedback (Some
      [\<lparr>fb_identity = ''dev-1'', fb_sensor_type = 101, fb_sensor_score = 90, fb_time_score = 100\<rparr>,
       \<lparr>fb_identity = ''dev-2'', fb_sensor_type = 101, fb_sensor_score = 101, fb_time_score = 7\<rparr>,
       \<lparr>fb_identity = ''dev-3'', fb_sensor_type = 101, fb_sensor_score = 50, fb_time_score = 7\<rparr>])
      (agent_demo\<lparr>agent_fd := 2, e_write := (\<lambda>_. True)\<rparr>) =
    Some (ATLAS_INVALID_INPUT, agent_demo\<lparr>agent_fd := 2, e_write := (\<lambda>_. True), clock := 1,
      outs := [Sock_write 2 (feedback_msg \<lparr>fb_identity = ''dev-1'', fb_sensor_type = 101, fb_sensor_score = 90, fb_time_score = 100\<rparr>)]\<rparr>)"
  using feedback_prefix_sent [of
      "[\<lparr>fb_identity = ''dev-1'', fb_sensor_type = 101, fb_sensor_score = 90, fb_time_score = 100\<rparr>,
       \<lparr>fb_identity = ''dev-2'', fb_sensor_type = 101, fb_sensor_score = 101, fb_time_score = 7\<rparr>,
       \<lparr>fb_identity = ''dev-3'', fb_sensor_type = 101, fb_sensor_score = 50, fb_time_score = 7\<rparr>]"
      "agent_demo\<lparr>agent_fd := 2, e_write := (\<lambda>_. True)\<rparr>"]
  by (simp add: agent_demo_def)

end
