(* ===== verification/C_Floats.thy ===== *)
theory C_Floats
  imports C_Strings "HOL-Library.Log_Nat"
begin

text \<open>
  The floating point arithmetic of C the data plane application uses: \<open>float\<close> and \<open>double\<close> are the
  IEEE 754 binary32 and binary64 formats, every operation rounds its exact result to nearest, ties
  to even (the default of the platforms the program is built for). A finite value is a sign and a
  rational magnitude, so the definitions compute; the sign of a NaN is not represented.
  Conversions to integer types truncate and are undefined out of range. \<open>atof\<close> and the \<open>%f\<close>
  conversion of \<open>printf\<close> follow the C standard.

  The lemmas bound the rounding of a quotient between integers and show that reading a number
  printed with \<open>%f\<close> gives it rounded to six decimals.
\<close>

section \<open>Values and rounding\<close>

datatype fp = Fin bool rat | Infty bool | NaN

text \<open>The largest exponent of a power of two below \<open>q\<close>, for positive \<open>q\<close>.\<close>

definition ilog2 :: "rat \<Rightarrow> int" where
  "ilog2 q = (let (n, d) = quotient_of q; k = bitlen n - bitlen d in if 2 powi k \<le> q then k else k - 1)"

definition round_half_even :: "rat \<Rightarrow> int" where
  "round_half_even q =
     (let f = \<lfloor>q\<rfloor>; r = q - of_int f
      in if r < 1 / 2 then f else if 1 / 2 < r then f + 1 else if even f then f else f + 1)"

text \<open>
  The value of sign \<open>neg\<close> and magnitude \<open>q\<close> in the format with \<open>p\<close> bits of precision, smallest
  exponent \<open>emin\<close> and overflow from \<open>2 powi emax\<close> on.
\<close>

definition fround :: "nat \<Rightarrow> int \<Rightarrow> int \<Rightarrow> bool \<Rightarrow> rat \<Rightarrow> fp" where
  "fround p emin emax neg q =
     (if q = 0 then Fin neg 0
      else
        let e = max (ilog2 q - (int p - 1)) emin;
            r = of_int (round_half_even (q / 2 powi e)) * 2 powi e
        in if 2 powi emax \<le> r then Infty neg else Fin neg r)"

definition fround64 :: "bool \<Rightarrow> rat \<Rightarrow> fp" where "fround64 = fround 53 (-1074) 1024"
definition fround32 :: "bool \<Rightarrow> rat \<Rightarrow> fp" where "fround32 = fround 24 (-149) 128"

section \<open>Operations\<close>

text \<open>The operations take the rounding of their format.\<close>

type_synonym fp_format = "bool \<Rightarrow> rat \<Rightarrow> fp"

definition sgn_val :: "bool \<Rightarrow> rat \<Rightarrow> rat" where
  "sgn_val neg m = (if neg then - m else m)"

fun fp_neg :: "fp \<Rightarrow> fp" where
  "fp_neg (Fin s m) = Fin (\<not> s) m"
| "fp_neg (Infty s) = Infty (\<not> s)"
| "fp_neg NaN = NaN"

fun fp_add :: "fp_format \<Rightarrow> fp \<Rightarrow> fp \<Rightarrow> fp" where
  "fp_add R (Fin s m) (Fin t n) =
     (let q = sgn_val s m + sgn_val t n in if q = 0 then Fin (s \<and> t) 0 else R (q < 0) \<bar>q\<bar>)"
| "fp_add R (Infty s) (Infty t) = (if s = t then Infty s else NaN)"
| "fp_add R (Infty s) (Fin _ _) = Infty s"
| "fp_add R (Fin _ _) (Infty t) = Infty t"
| "fp_add R _ _ = NaN"

definition fp_sub :: "fp_format \<Rightarrow> fp \<Rightarrow> fp \<Rightarrow> fp" where
  "fp_sub R x y = fp_add R x (fp_neg y)"

fun fp_mul :: "fp_format \<Rightarrow> fp \<Rightarrow> fp \<Rightarrow> fp" where
  "fp_mul R (Fin s m) (Fin t n) = R (s \<noteq> t) (m * n)"
| "fp_mul R (Infty s) (Infty t) = Infty (s \<noteq> t)"
| "fp_mul R (Infty s) (Fin t n) = (if n = 0 then NaN else Infty (s \<noteq> t))"
| "fp_mul R (Fin s m) (Infty t) = (if m = 0 then NaN else Infty (s \<noteq> t))"
| "fp_mul R _ _ = NaN"

fun fp_div :: "fp_format \<Rightarrow> fp \<Rightarrow> fp \<Rightarrow> fp" where
  "fp_div R (Fin s m) (Fin t n) =
     (if n = 0 then if m = 0 then NaN else Infty (s \<noteq> t) else R (s \<noteq> t) (m / n))"
| "fp_div R (Infty s) (Fin t n) = Infty (s \<noteq> t)"
| "fp_div R (Fin s m) (Infty t) = Fin (s \<noteq> t) 0"
| "fp_div R _ _ = NaN"

fun fp_less :: "fp \<Rightarrow> fp \<Rightarrow> bool" where
  "fp_less (Fin s m) (Fin t n) \<longleftrightarrow> sgn_val s m < sgn_val t n"
| "fp_less (Fin _ _) (Infty t) \<longleftrightarrow> \<not> t"
| "fp_less (Infty s) (Fin _ _) \<longleftrightarrow> s"
| "fp_less (Infty s) (Infty t) \<longleftrightarrow> s \<and> \<not> t"
| "fp_less _ _ \<longleftrightarrow> False"

text \<open>Conversions: of an integer, of a value to another format, to an integer type with bounds.\<close>

definition fp_of_int :: "fp_format \<Rightarrow> int \<Rightarrow> fp" where
  "fp_of_int R n = R (n < 0) (of_int \<bar>n\<bar>)"

fun fp_conv :: "fp_format \<Rightarrow> fp \<Rightarrow> fp" where
  "fp_conv R (Fin s m) = R s m"
| "fp_conv R x = x"

fun fp_to_int :: "int \<Rightarrow> int \<Rightarrow> fp \<Rightarrow> int option" where
  "fp_to_int lo hi (Fin s m) =
     (let v = (if s then - \<lfloor>m\<rfloor> else \<lfloor>m\<rfloor>) in if lo \<le> v \<and> v \<le> hi then Some v else None)"
| "fp_to_int lo hi _ = None"

section \<open>Printing: %f\<close>

definition pad6 :: "nat \<Rightarrow> string" where
  "pad6 n = (let s = show_dec n in replicate (6 - length s) CHR ''0'' @ s)"

fun fmt_f :: "fp \<Rightarrow> string" where
  "fmt_f (Fin s m) =
     (let k = nat (round_half_even (m * 1000000))
      in (if s then ''-'' else []) @ show_dec (k div 1000000) @ CHR ''.'' # pad6 (k mod 1000000))"
| "fmt_f (Infty s) = (if s then ''-inf'' else ''inf'')"
| "fmt_f NaN = ''nan''"

section \<open>Reading: atof\<close>

definition dec_digit :: "char \<Rightarrow> nat option" where
  "dec_digit c = (if c_isdigit c then Some (of_char c - 48) else None)"

definition hex_digit :: "char \<Rightarrow> nat option" where
  "hex_digit c =
     (let n = of_char c in
      if c_isdigit c then Some (n - 48)
      else if 97 \<le> n \<and> n \<le> 102 then Some (n - 87)
      else if 65 \<le> n \<and> n \<le> 70 then Some (n - 55)
      else None)"

fun span_digits :: "(char \<Rightarrow> nat option) \<Rightarrow> string \<Rightarrow> nat list \<times> string" where
  "span_digits dv [] = ([], [])"
| "span_digits dv (c # cs) =
     (case dv c of None \<Rightarrow> ([], c # cs)
      | Some d \<Rightarrow> case span_digits dv cs of (ds, r) \<Rightarrow> (d # ds, r))"

definition digits_num :: "nat \<Rightarrow> nat list \<Rightarrow> nat" where
  "digits_num base ds = foldl (\<lambda>a d. base * a + d) 0 ds"

text \<open>The digits before and after the point, and the rest.\<close>

definition scan_mantissa :: "(char \<Rightarrow> nat option) \<Rightarrow> string \<Rightarrow> nat list \<times> nat list \<times> string" where
  "scan_mantissa dv s =
     (case span_digits dv s of
        (ip, c # r) \<Rightarrow> if c = CHR ''.'' then case span_digits dv r of (fr, r') \<Rightarrow> (ip, fr, r') else (ip, [], c # r)
      | (ip, []) \<Rightarrow> (ip, [], []))"

definition scan_sign :: "string \<Rightarrow> bool \<times> string" where
  "scan_sign s =
     (case s of [] \<Rightarrow> (False, [])
      | c # r \<Rightarrow> if c = CHR ''-'' then (True, r) else if c = CHR ''+'' then (False, r) else (False, c # r))"

definition scan_exponent :: "char set \<Rightarrow> string \<Rightarrow> int" where
  "scan_exponent marks s =
     (case s of [] \<Rightarrow> 0
      | c # r \<Rightarrow>
          if c \<in> marks
          then case scan_sign r of (neg, r') \<Rightarrow>
                 let e = int (digits_num 10 (fst (span_digits dec_digit r'))) in if neg then - e else e
          else 0)"

definition to_lower :: "char \<Rightarrow> char" where
  "to_lower c = (let n = of_char c :: nat in if 65 \<le> n \<and> n \<le> 90 then char_of (n + 32) else c)"

definition is_hex_float :: "string \<Rightarrow> bool" where
  "is_hex_float s \<longleftrightarrow>
     (case s of
        z # x # r \<Rightarrow> z = CHR ''0'' \<and> to_lower x = CHR ''x'' \<and>
          (case scan_mantissa hex_digit r of (ip, fr, _) \<Rightarrow> ip \<noteq> [] \<or> fr \<noteq> [])
      | _ \<Rightarrow> False)"

definition strtod :: "string \<Rightarrow> fp" where
  "strtod s =
     (case scan_sign (dropWhile c_isspace s) of (neg, r) \<Rightarrow>
        if map to_lower (take 3 r) = ''inf'' then Infty neg
        else if map to_lower (take 3 r) = ''nan'' then NaN
        else if is_hex_float r then
          case scan_mantissa hex_digit (drop 2 r) of (ip, fr, r') \<Rightarrow>
            fround64 neg (of_nat (digits_num 16 (ip @ fr)) *
              2 powi (scan_exponent {CHR ''p'', CHR ''P''} r' - 4 * int (length fr)))
        else
          case scan_mantissa dec_digit r of (ip, fr, r') \<Rightarrow>
            if ip @ fr = [] then Fin False 0
            else fround64 neg (of_nat (digits_num 10 (ip @ fr)) *
              10 powi (scan_exponent {CHR ''e'', CHR ''E''} r' - int (length fr))))"

definition atof :: "string \<Rightarrow> fp" where "atof = strtod"

section \<open>Lemmas: rounding\<close>

lemma ilog2_bounds:
  assumes "0 < q"
  shows "2 powi ilog2 q \<le> q" and "q < 2 powi (ilog2 q + 1)"
proof -
  obtain n d where q: "quotient_of q = (n, d)" by (cases "quotient_of q")
  have d: "0 < d" using q by (rule quotient_of_denom_pos)
  have qq: "q = of_int n / of_int d" using q by (rule quotient_of_div)
  with assms d have n: "0 < n" by (simp add: zero_less_divide_iff)
  let ?k = "bitlen n - bitlen d"
  have powr: "2 powi (int k) = (of_int (2 ^ k) :: rat)" for k by (simp add: power_int_def)
  have pos: "0 < bitlen n" "0 < bitlen d" using n d bitlen_nonneg [of n] bitlen_nonneg [of d]
    by (simp_all add: order_le_less bitlen_eq_zero_iff)
  have bn: "2 powi (bitlen n - 1) \<le> (of_int n :: rat)" "(of_int n :: rat) < 2 powi bitlen n"
    using bitlen_bounds [OF n] pos powr [of "nat (bitlen n - 1)"] powr [of "nat (bitlen n)"]
    by (simp_all flip: of_int_power)
  have bd: "2 powi (bitlen d - 1) \<le> (of_int d :: rat)" "(of_int d :: rat) < 2 powi bitlen d"
    using bitlen_bounds [OF d] pos powr [of "nat (bitlen d - 1)"] powr [of "nat (bitlen d)"]
    by (simp_all flip: of_int_power)
  have "2 powi (?k - 1) = (2 powi (bitlen n - 1) / 2 powi bitlen d :: rat)"
    by (simp add: algebra_simps flip: power_int_diff)
  also have "\<dots> \<le> of_int n / of_int d" using bn(1) bd(2) d n by (intro frac_le) simp_all
  finally have lo: "2 powi (?k - 1) \<le> q" by (simp add: qq)
  have "of_int n / of_int d < 2 powi bitlen n / (2 powi (bitlen d - 1) :: rat)"
    using bn(2) bd(1) d n by (intro frac_less) simp_all
  also have "\<dots> = 2 powi (?k + 1)" by (simp add: algebra_simps flip: power_int_diff)
  finally have hi: "q < 2 powi (?k + 1)" by (simp add: qq)
  show "2 powi ilog2 q \<le> q" using lo by (simp add: ilog2_def q Let_def)
  show "q < 2 powi (ilog2 q + 1)" using hi by (simp add: ilog2_def q Let_def)
qed

lemma round_half_even_between:
  assumes "of_int a \<le> q" and "q \<le> of_int b"
  shows "a \<le> round_half_even q" and "round_half_even q \<le> b"
proof -
  have f: "a \<le> \<lfloor>q\<rfloor>" using assms(1) by (simp add: le_floor_iff)
  then show "a \<le> round_half_even q" by (simp add: round_half_even_def Let_def)
  have "\<lfloor>q\<rfloor> \<le> b" using assms(2) by (metis floor_mono floor_of_int)
  moreover have "q - of_int \<lfloor>q\<rfloor> \<le> 0" if "\<lfloor>q\<rfloor> = b" using assms(2) that by simp
  ultimately show "round_half_even q \<le> b" by (cases "\<lfloor>q\<rfloor> = b") (auto simp: round_half_even_def Let_def)
qed

lemma round_half_even_of_int [simp]: "round_half_even (of_int n) = n"
  by (simp add: round_half_even_def)

text \<open>A value between two integers of at most \<open>p\<close> bits stays between them when rounded.\<close>

lemma fround_between:
  assumes "of_int a \<le> q" and "q \<le> of_int b" and "0 \<le> a" and "0 < q" and "b < 2 ^ p" and "emin \<le> 0" and "int p \<le> emax"
  obtains r where "fround p emin emax neg q = Fin neg r" "of_int a \<le> r" "r \<le> of_int b"
proof -
  let ?e = "max (ilog2 q - (int p - 1)) emin"
  have b: "(of_int b :: rat) < 2 ^ p" using assms(5) by (metis of_int_less_iff of_int_numeral of_int_power)
  have "2 powi ilog2 q < (2 powi int p :: rat)"
    using ilog2_bounds(1) [OF assms(4)] assms(2) b unfolding power_int_of_nat by linarith
  then have "ilog2 q < int p" using power_int_increasing [of "int p" "ilog2 q" "2 :: rat"] by fastforce
  then have e: "?e \<le> 0" using assms(6) by simp
  define k where "k = nat (- ?e)"
  have pow: "2 powi ?e = (1 / 2 ^ k :: rat)" proof -
    have "?e = - int k" using e by (simp add: k_def)
    then show ?thesis by (simp only: power_int_minus_divide power_int_of_nat)
  qed
  let ?m = "round_half_even (q / 2 powi ?e)"
  have "of_int (a * 2 ^ k) \<le> q * 2 ^ k" "q * 2 ^ k \<le> of_int (b * 2 ^ k)" using assms(1,2) by simp_all
  from round_half_even_between [OF this] have m: "a * 2 ^ k \<le> ?m" "?m \<le> b * 2 ^ k" by (simp_all add: pow)
  let ?r = "of_int ?m * 2 powi ?e :: rat"
  have "of_int (a * 2 ^ k) \<le> (of_int ?m :: rat)" "(of_int ?m :: rat) \<le> of_int (b * 2 ^ k)" using m by (simp_all only: of_int_le_iff)
  then have r: "of_int a \<le> ?r" "?r \<le> of_int b" unfolding pow by (simp_all add: field_simps)
  have "(2 :: rat) ^ p \<le> 2 powi emax" using power_int_increasing [OF assms(7), of "2 :: rat"] by (simp add: power_int_def)
  then have "\<not> 2 powi emax \<le> ?r" using r(2) b by linarith
  then have "fround p emin emax neg q = Fin neg ?r" using assms(4) unfolding fround_def Let_def by simp
  with r show thesis by (rule that [rotated])
qed

lemma fround64_between:
  assumes "of_int a \<le> q" and "q \<le> of_int b" and "0 \<le> a" and "0 \<le> q" and "b < 2 ^ 53"
  obtains r where "fround64 neg q = Fin neg r" "of_int a \<le> r" "r \<le> of_int b"
proof (cases "q = 0")
  case True
  then show ?thesis using assms that [of 0] by (simp add: fround64_def fround_def)
next
  case False
  then have "0 < q" using assms(4) by simp
  moreover have "(-1074 :: int) \<le> 0" "int 53 \<le> 1024" by simp_all
  ultimately obtain r where "fround 53 (-1074) 1024 neg q = Fin neg r" "of_int a \<le> r" "r \<le> of_int b"
    using fround_between [OF assms(1-3) _ assms(5)] by metis
  then show ?thesis by (intro that) (simp_all add: fround64_def)
qed

lemma fround64_of_int: "\<bar>n\<bar> < 2 ^ 53 \<Longrightarrow> fp_of_int fround64 n = Fin (n < 0) (of_int \<bar>n\<bar>)"
  unfolding fp_of_int_def by (rule fround64_between [of "\<bar>n\<bar>" "of_int \<bar>n\<bar>" "\<bar>n\<bar>" "n < 0"]) auto

section \<open>Lemmas: printing and reading\<close>

definition digits_of :: "string \<Rightarrow> nat list" where
  "digits_of xs = map (\<lambda>c. of_char c - 48) xs"

lemma span_digits_dec:
  assumes "list_all c_isdigit xs" and "case ys of [] \<Rightarrow> True | c # _ \<Rightarrow> \<not> c_isdigit c"
  shows "span_digits dec_digit (xs @ ys) = (digits_of xs, ys)"
  using assms(1)
proof (induction xs)
  case Nil
  then show ?case using assms(2) by (cases ys) (simp_all add: digits_of_def dec_digit_def)
next
  case (Cons x xs)
  then show ?case by (simp add: digits_of_def dec_digit_def)
qed

lemma digits_num_append: "digits_num b (xs @ ys) = digits_num b xs * b ^ length ys + digits_num b ys"
proof (induction ys rule: rev_induct)
  case (snoc y ys)
  then show ?case by (simp add: digits_num_def algebra_simps)
qed (simp add: digits_num_def)

lemma length_digits_of [simp]: "length (digits_of xs) = length xs"
  by (simp add: digits_of_def)

lemma digits_of_simps: "digits_of [] = []" "digits_of (xs @ ys) = digits_of xs @ digits_of ys"
  by (simp_all add: digits_of_def)

lemma digits_num_show_dec: "digits_num 10 (digits_of (show_dec n)) = n"
proof (induction n rule: show_dec.induct)
  case (1 n)
  have d: "digits_of [digit_char d] = [d]" if "d < 10" for d using that by (simp add: digits_of_def of_digit_char)
  show ?case
  proof (cases "n < 10")
    case True
    then show ?thesis by (subst show_dec.simps) (simp add: d digits_num_def)
  next
    case False
    have m: "n mod 10 < 10" by simp
    have "digits_num 10 [n mod 10] = n mod 10" by (simp add: digits_num_def)
    then show ?thesis using False 1 by (subst show_dec.simps) (simp add: digits_of_simps digits_num_append d [OF m])
  qed
qed

lemma pad6:
  assumes "n < 1000000"
  shows "length (pad6 n) = 6" and "list_all c_isdigit (pad6 n)" and "digits_num 10 (digits_of (pad6 n)) = n"
proof -
  have "n < 10 ^ 6" using assms by simp
  from length_show_dec [OF this] show "length (pad6 n) = 6" by (simp add: pad6_def Let_def)
  have "c_isdigit CHR ''0''" by (simp add: c_isdigit_def)
  then show "list_all c_isdigit (pad6 n)" using show_dec_digits [of n] by (auto simp: pad6_def Let_def list_all_iff)
  have "digits_num 10 (digits_of (replicate k CHR ''0'')) = 0" for k
  proof (induction k)
    case (Suc k)
    have "digits_num 10 (digits_of (CHR ''0'' # replicate k CHR ''0'')) =
        digits_num 10 ([0] @ digits_of (replicate k CHR ''0''))" by (simp add: digits_of_def)
    then show ?case using Suc by (simp only: digits_num_append replicate_Suc) (simp add: digits_num_def)
  qed (simp add: digits_num_def digits_of_def)
  then show "digits_num 10 (digits_of (pad6 n)) = n"
    by (simp add: pad6_def Let_def digits_of_simps digits_num_append digits_num_show_dec)
qed

lemma to_lower_digit: "c_isdigit c \<Longrightarrow> to_lower c = c"
  by (simp add: to_lower_def c_isdigit_def Let_def)

text \<open>A number printed with \<open>%f\<close> is read back rounded to six decimals.\<close>

lemma strtod_fmt_f:
  assumes "0 \<le> m"
  shows "strtod (fmt_f (Fin s m)) = fround64 s (of_int (round_half_even (m * 1000000)) / 1000000)"
proof -
  define k where "k = nat (round_half_even (m * 1000000))"
  have k: "of_nat k = (of_int (round_half_even (m * 1000000)) :: rat)"
    using round_half_even_between(1) [of 0 "m * 1000000" "\<lceil>m * 1000000\<rceil>"] assms by (simp add: k_def)
  let ?ip = "show_dec (k div 1000000)" and ?fr = "pad6 (k mod 1000000)"
  have fr: "length ?fr = 6" "list_all c_isdigit ?fr" "digits_num 10 (digits_of ?fr) = k mod 1000000"
    by (rule pad6, simp)+
  obtain c cs where c: "?ip = c # cs" "c_isdigit c" "list_all c_isdigit cs"
    using show_dec_digits [of "k div 1000000"] by (cases ?ip) auto
  let ?r = "?ip @ CHR ''.'' # ?fr"
  have notc: "\<not> c_isspace c" "c \<noteq> CHR ''-''" "c \<noteq> CHR ''+''" "c \<noteq> CHR ''i''" "c \<noteq> CHR ''n''"
    using c(2) by (auto simp: c_isdigit_def c_isspace_def)
  have sign: "scan_sign (dropWhile c_isspace (fmt_f (Fin s m))) = (s, ?r)"
  proof -
    have "\<not> c_isspace CHR ''-''" by (simp add: c_isspace_def)
    then show ?thesis using notc by (simp add: k_def [symmetric] Let_def c scan_sign_def)
  qed
  have inf: "map to_lower (take 3 ?r) \<noteq> ''inf''" "map to_lower (take 3 ?r) \<noteq> ''nan''"
    using notc c(2) by (simp_all add: c to_lower_digit)
  have hex: "\<not> is_hex_float ?r"
  proof (cases cs)
    case Nil
    then show ?thesis by (simp add: is_hex_float_def c to_lower_def)
  next
    case (Cons d ds)
    then have "to_lower d \<noteq> CHR ''x''" using c(3) by (auto simp: to_lower_digit c_isdigit_def)
    then show ?thesis using Cons by (simp add: is_hex_float_def c)
  qed
  have "span_digits dec_digit ?r = (digits_of ?ip, CHR ''.'' # ?fr)"
    by (rule span_digits_dec [OF show_dec_digits]) (simp add: c_isdigit_def)
  moreover have "span_digits dec_digit ?fr = (digits_of ?fr, [])"
    using span_digits_dec [OF fr(2), of "[]"] by simp
  ultimately have mant: "scan_mantissa dec_digit ?r = (digits_of ?ip, digits_of ?fr, [])"
    by (simp add: scan_mantissa_def)
  have num: "digits_num 10 (digits_of ?ip @ digits_of ?fr) = k"
    by (simp add: digits_num_append fr digits_num_show_dec)
  have "digits_of ?ip \<noteq> []" by (simp add: digits_of_def)
  then have "strtod (fmt_f (Fin s m)) = fround64 s (of_nat k * 10 powi (- 6))"
    using inf hex by (simp add: strtod_def sign mant num fr(1) scan_exponent_def del: fmt_f.simps)
  then show ?thesis by (simp add: k power_int_minus_divide)
qed

end
