(* ===== verification/Data_Plane.thy ===== *)
theory Data_Plane
  imports Agent C_Floats "HOL-Library.Sublist"
begin

text \<open>
  The data plane application (src/data\_plane/atlas\_data\_plane.c): it publishes simulated sensor
  values over MQTT, answers requests for a value, collects the values of other devices, and
  scores these devices in feedback windows whose results it hands to the client library (theory
  Agent). This theory has its data and operations; the properties are in Data\_Plane\_Window and
  Data\_Plane\_Setup.

  The MQTT library and the calls that yield times and random numbers are the environment (fields
  \<open>e_\<dots>\<close>); what is published and subscribed is recorded in \<open>mqtt_out\<close>. \<open>None\<close> is undefined behaviour:
  an access outside an object, a NULL or dangling pointer, or a conversion out of range. The
  statements of the reputation thread that other threads can observe are single steps
  (\<open>query_step\<close>); a critical section of a lock is one step as well. Output to the terminal has no
  effect on the state.
\<close>

section \<open>Data\<close>

definition ATLAS_DATA_PLANE_REQUEST_REPUTATION_TOPIC :: string where
  "ATLAS_DATA_PLANE_REQUEST_REPUTATION_TOPIC = ''atlas/request/''"
definition ATLAS_DATA_PLANE_DATA_TOPIC :: string where "ATLAS_DATA_PLANE_DATA_TOPIC = ''atlas/data/''"
definition ATLAS_DATA_PLANE_REQUEST_REPUTATION_MSG :: string where
  "ATLAS_DATA_PLANE_REQUEST_REPUTATION_MSG = ''REQUEST''"
definition ATLAS_DATA_PLANE_FEATURE_MAX_LEN :: nat where "ATLAS_DATA_PLANE_FEATURE_MAX_LEN = 32"
definition ATLAS_DATA_PLANE_BUFFER_LEN :: nat where "ATLAS_DATA_PLANE_BUFFER_LEN = 256"
definition ATLAS_PUBLISH_FEATURES_MAX :: nat where "ATLAS_PUBLISH_FEATURES_MAX = 32"
definition ATLAS_PACKET_LENGTH_DEFAULT :: string where "ATLAS_PACKET_LENGTH_DEFAULT = ''default''"
definition ATLAS_REPUTATION_FEEDBACK_AVERAGE :: string where "ATLAS_REPUTATION_FEEDBACK_AVERAGE = ''average''"
definition ATLAS_DATA_PLANE_FEEDBACK_MAX :: nat where "ATLAS_DATA_PLANE_FEEDBACK_MAX = 256"
definition ATLAS_IDENTITY_MAX_LEN :: nat where "ATLAS_IDENTITY_MAX_LEN = 64"
definition ATLAS_SENSOR_TEMPERATURE :: u32 where "ATLAS_SENSOR_TEMPERATURE = 101"

text \<open>\<open>publish_msg\<close> is the size of the allocated block; \<open>pi_thread\<close> tells whether the publisher runs.\<close>

record publish_info =
  pi_feature :: string
  publish_rate :: int
  base_value :: fp
  deviation :: fp
  pi_qos :: int
  packet_length :: int
  publish_msg :: "nat ptr"
  pi_thread :: bool

record timespec =
  tv_sec :: int
  tv_nsec :: int

record reputation =
  rep_feature :: string
  query_rate :: int
  target_value :: int
  window_size :: int
  feedback_active :: int
  sensor_val :: "fp list"
  feedback_arr :: "atlas_feedback list"
  feedback_length :: nat
  window_start :: timespec

text \<open>What the reputation thread does next.\<close>

datatype query_pc = Q_Request | Q_Activate | Q_Reset | Q_Stamp | Q_Sleep | Q_Score | Q_Send | Q_Clear

datatype mqtt_call = Mqtt_publish string int "byte list" | Mqtt_subscribe string int

text \<open>\<open>strtok_save\<close> is the pointer \<open>strtok\<close> keeps: the characters from it to the end of its object.\<close>

record data_plane = agent +
  publish_str :: "publish_info list"
  rep_info :: reputation
  rep_thread :: "query_pc option"
  dp_identity :: "string ptr"
  strtok_save :: "string ptr"
  mqtt_out :: "mqtt_call list"
  e_random :: "nat \<Rightarrow> int"
  e_realtime :: "nat \<Rightarrow> timespec"
  e_mqtt_create :: "nat \<Rightarrow> bool"
  e_mqtt_connect :: "nat \<Rightarrow> bool"

definition mqtt_emit :: "mqtt_call \<Rightarrow> 'a data_plane_scheme \<Rightarrow> 'a data_plane_scheme" where
  "mqtt_emit x s = s\<lparr>mqtt_out := mqtt_out s @ [x]\<rparr>"

section \<open>Strings and strtok\<close>

abbreviation NUL :: char where "NUL \<equiv> CHR 0x00"

text \<open>The string at the start of an object; undefined when no NUL ends it.\<close>

definition obj_string :: "string \<Rightarrow> string option" where
  "obj_string m = (if NUL \<in> set m then Some (takeWhile (\<lambda>c. c \<noteq> NUL) m) else None)"

text \<open>
  \<open>strtok\<close> with one delimiter: the first argument is the object from the given pointer on (\<open>None\<close>
  for NULL), the second the pointer kept from the last call. The result is the token and the
  pointer kept now; the scan is undefined when it leaves the object.
\<close>

definition strtok :: "char \<Rightarrow> string ptr \<Rightarrow> string ptr \<Rightarrow> (string ptr \<times> string ptr) option" where
  "strtok delim arg save = do {
     m \<leftarrow> (case arg of None \<Rightarrow> save | Some m \<Rightarrow> Some m);
     let m1 = dropWhile (\<lambda>c. c = delim) m;
     (case m1 of
        [] \<Rightarrow> None
      | c # _ \<Rightarrow>
          if c = NUL then Some (None, Some m1)
          else
            let t = takeWhile (\<lambda>c. c \<noteq> delim \<and> c \<noteq> NUL) m1 in
            (case drop (length t) m1 of
               [] \<Rightarrow> None
             | d # r \<Rightarrow> Some (Some t, Some (if d = NUL then d # r else r)))) }"

definition tok :: "char \<Rightarrow> string ptr \<Rightarrow> 'a data_plane_scheme \<Rightarrow> (string ptr \<times> 'a data_plane_scheme) option" where
  "tok delim arg s = do {
     (p, save) \<leftarrow> strtok delim arg (strtok_save s);
     Some (p, s\<lparr>strtok_save := save\<rparr>) }"

section \<open>Publishing\<close>

definition RAND_MAX :: int where "RAND_MAX = 2147483647"

text \<open>\<open>rnd\<close> is the value \<open>random()\<close> returns.\<close>

definition random_number_generator :: "fp \<Rightarrow> fp \<Rightarrow> int \<Rightarrow> fp" where
  "random_number_generator base dev rnd =
     (let randInterval = fp_mul fround32 (fp_of_int fround32 2) dev;
          lower = fp_sub fround32 base dev
      in fp_add fround32
           (fp_mul fround32 randInterval (fp_div fround32 (fp_of_int fround32 rnd) (fp_of_int fround32 RAND_MAX)))
           lower)"

definition publish_feature_value :: "nat \<Rightarrow> 'a data_plane_scheme \<Rightarrow> 'a data_plane_scheme option" where
  "publish_feature_value i s =
     (if length (publish_str s) \<le> i then None
      else do {
        let p = publish_str s ! i;
        topic \<leftarrow> fits (ATLAS_DATA_PLANE_BUFFER_LEN + 1) (ATLAS_DATA_PLANE_DATA_TOPIC @ pi_feature p);
        cap \<leftarrow> publish_msg p;
        if packet_length p = 0 then do {
          let val = random_number_generator (base_value p) (deviation p) (e_random s (clock s));
          idy \<leftarrow> dp_identity s;
          msg \<leftarrow> fits cap (idy @ CHR '':'' # fmt_f val);
          Some (mqtt_emit (Mqtt_publish topic (pi_qos p) (str_bytes msg)) (tick s)) }
        else if 0 \<le> packet_length p \<and> nat (packet_length p) \<le> cap then
          Some (mqtt_emit (Mqtt_publish topic (pi_qos p) (replicate (nat (packet_length p)) 48)) s)
        else None })"

text \<open>The loop of a publisher thread, \<open>n\<close> rounds of it.\<close>

primrec publish_task :: "nat \<Rightarrow> nat \<Rightarrow> 'a data_plane_scheme \<Rightarrow> 'a data_plane_scheme option" where
  "publish_task 0 i s = Some s"
| "publish_task (Suc n) i s = do { s1 \<leftarrow> publish_feature_value i s; publish_task n i s1 }"

definition request_reputation_val :: "string \<Rightarrow> 'a data_plane_scheme \<Rightarrow> 'a data_plane_scheme option" where
  "request_reputation_val feature s = do {
     topic \<leftarrow> fits ATLAS_DATA_PLANE_BUFFER_LEN (ATLAS_DATA_PLANE_REQUEST_REPUTATION_TOPIC @ feature);
     Some (mqtt_emit (Mqtt_publish topic 2 (str_bytes ATLAS_DATA_PLANE_REQUEST_REPUTATION_MSG)) s) }"

definition subscribe :: "string ptr \<Rightarrow> string \<Rightarrow> int \<Rightarrow> 'a data_plane_scheme \<Rightarrow> 'a data_plane_scheme" where
  "subscribe clientid topic qos s = mqtt_emit (Mqtt_subscribe topic qos) s"

definition handle_publish_req :: "string ptr \<Rightarrow> 'a data_plane_scheme \<Rightarrow> 'a data_plane_scheme option" where
  "handle_publish_req feature s =
     (case feature of
        None \<Rightarrow> Some s
      | Some f \<Rightarrow>
          (case find (\<lambda>i. f = pi_feature (publish_str s ! i)) [0..<length (publish_str s)] of
             None \<Rightarrow> Some s
           | Some i \<Rightarrow> publish_feature_value i s))"

section \<open>Scores\<close>

definition get_sensor_feedback :: "fp \<Rightarrow> u16" where
  "get_sensor_feedback val =
     (if fp_less val (fround64 False (2 / 10)) then 98
      else if fp_less val (fround64 False (6 / 10)) then 95
      else if fp_less val (fround64 False (8 / 10)) then 90
      else if fp_less val (fp_of_int fround64 1) then 85
      else if fp_less val (fround64 False (13 / 10)) then 80
      else if fp_less val (fround64 False (15 / 10)) then 50
      else if fp_less val (fp_of_int fround64 2) then 35
      else if fp_less val (fround64 False (25 / 10)) then 20
      else if fp_less val (fp_of_int fround64 3) then 10
      else 0)"

definition diff_in_ms :: "timespec \<Rightarrow> timespec \<Rightarrow> int option" where
  "diff_in_ms t1 t2 =
     (let (dsec, dnsec) =
        (if tv_nsec t2 - tv_nsec t1 < 0
         then (tv_sec t2 - tv_sec t1 - 1, tv_nsec t2 - tv_nsec t1 + 1000000000)
         else (tv_sec t2 - tv_sec t1, tv_nsec t2 - tv_nsec t1))
      in fp_to_int LONG_MIN LONG_MAX
           (fp_add fround64 (fp_mul fround64 (fp_of_int fround64 dsec) (fp_of_int fround64 1000))
             (fp_div fround64 (fp_of_int fround64 dnsec) (fp_of_int fround64 1000000))))"

text \<open>\<open>if (value < 0) value *= -1\<close>.\<close>

definition abs_val :: "fp \<Rightarrow> fp" where
  "abs_val v = (if fp_less v (Fin False 0) then fp_mul fround64 v (fp_of_int fround64 (-1)) else v)"

definition time_score :: "timespec \<Rightarrow> timespec \<Rightarrow> int \<Rightarrow> int option" where
  "time_score t0 t window = do {
     ms \<leftarrow> diff_in_ms t0 t;
     w \<leftarrow> int32 (window * 1000);
     let resp = fp_div fround64 (fp_of_int fround64 ms) (fp_of_int fround64 w);
     fp_to_int 0 65535 (fp_sub fround64 (fp_of_int fround64 100) (fp_mul fround64 resp (fp_of_int fround64 100))) }"

section \<open>Received messages\<close>

text \<open>
  The critical section of \<open>handle_data\<close>: a value of the device \<open>clientid\<close> in an active window. The
  arrays have a fixed number of elements.
\<close>

definition collect_feedback :: "string \<Rightarrow> fp \<Rightarrow> 'a data_plane_scheme \<Rightarrow> 'a data_plane_scheme option" where
  "collect_feedback clientid val s =
     (let r = rep_info s; n = feedback_length r
      in if feedback_active r = 0 then Some s
         else if ATLAS_DATA_PLANE_FEEDBACK_MAX < n then Some s
         else if clientid \<in> fb_identity ` set (take n (feedback_arr r)) then Some s
         else if length (sensor_val r) \<le> n \<or> length (feedback_arr r) \<le> n then None
         else do {
           idy \<leftarrow> fits ATLAS_IDENTITY_MAX_LEN clientid;
           let diff = abs_val (fp_sub fround64 val (fp_of_int fround64 (target_value r)));
           let f = feedback_arr r ! n;
           score \<leftarrow> time_score (window_start r) (e_realtime s (clock s)) (window_size r);
           let f1 = f\<lparr>fb_identity := idy, fb_sensor_type := ATLAS_SENSOR_TEMPERATURE,
             fb_sensor_score := (if target_value r \<noteq> -1 then get_sensor_feedback diff else fb_sensor_score f),
             fb_time_score := word_of_int score\<rparr>;
           Some ((tick s)\<lparr>rep_info := r\<lparr>sensor_val := (sensor_val r)[n := fp_conv fround32 val],
             feedback_arr := (feedback_arr r)[n := f1], feedback_length := Suc n\<rparr>\<rparr>) })"

text \<open>
  After \<open>handle_data\<close> has called \<open>strtok\<close> the pointer \<open>strtok\<close> keeps is one into its array \<open>msg\<close>,
  which ends with the call.
\<close>

definition handle_data :: "string ptr \<Rightarrow> byte list ptr \<Rightarrow> nat \<Rightarrow> 'a data_plane_scheme \<Rightarrow> 'a data_plane_scheme option" where
  "handle_data feature payload payload_len s =
     (case (feature, payload) of
        (Some _, Some pl) \<Rightarrow>
          if payload_len = 0 then Some s
          else if ATLAS_DATA_PLANE_BUFFER_LEN < payload_len then None
          else do {
            bytes \<leftarrow> mem_read pl 0 payload_len;
            let msg = bytes_str bytes @ replicate (ATLAS_DATA_PLANE_BUFFER_LEN - payload_len) NUL;
            (p, s1) \<leftarrow> tok CHR '':'' (Some msg) s;
            (case p of
               None \<Rightarrow> Some (s1\<lparr>strtok_save := None\<rparr>)
             | Some t \<Rightarrow> do {
                 clientid \<leftarrow> fits ATLAS_DATA_PLANE_BUFFER_LEN t;
                 (p, s2) \<leftarrow> tok CHR '':'' None s1;
                 (case p of
                    None \<Rightarrow> Some (s2\<lparr>strtok_save := None\<rparr>)
                  | Some v \<Rightarrow> collect_feedback clientid (atof v) (s2\<lparr>strtok_save := None\<rparr>)) }) }
      | _ \<Rightarrow> Some s)"

text \<open>\<open>topicName\<close> is the object of that name.\<close>

definition topic_of :: "string \<Rightarrow> nat \<Rightarrow> string option" where
  "topic_of topicName topicLen =
     (if topicLen = 0 then obj_string topicName
      else if length topicName < topicLen then None
      else obj_string (take topicLen topicName @ [NUL]))"

definition msgarrvd :: "string \<Rightarrow> nat \<Rightarrow> byte list \<Rightarrow> 'a data_plane_scheme \<Rightarrow> 'a data_plane_scheme option" where
  "msgarrvd topicName topicLen payload s = do {
     topic \<leftarrow> topic_of topicName topicLen;
     s1 \<leftarrow> atlas_pkt_received (int (length payload)) s;
     if prefix ATLAS_DATA_PLANE_REQUEST_REPUTATION_TOPIC topic then
       handle_publish_req (Some (drop (length ATLAS_DATA_PLANE_REQUEST_REPUTATION_TOPIC) topic)) s1
     else if prefix ATLAS_DATA_PLANE_DATA_TOPIC topic then
       handle_data (Some (drop (length ATLAS_DATA_PLANE_DATA_TOPIC) topic)) (Some payload) (length payload) s1
     else Some s1 }"

section \<open>The reputation thread\<close>

text \<open>The scores of a window without target value: the deviation from the average.\<close>

definition average_scores :: "reputation \<Rightarrow> reputation option" where
  "average_scores r =
     (let n = feedback_length r
      in if target_value r \<noteq> -1 \<or> n = 0 then Some r
         else if length (sensor_val r) < n \<or> length (feedback_arr r) < n then None
         else
           let vs = map (fp_conv fround64) (take n (sensor_val r));
               avg = fp_div fround64 (foldl (fp_add fround64) (fp_of_int fround64 0) vs) (fp_of_int fround64 (int n));
               scored = map2 (\<lambda>f v. f\<lparr>fb_sensor_score := get_sensor_feedback (abs_val (fp_sub fround64 v avg))\<rparr>)
                          (take n (feedback_arr r)) vs
           in Some (r\<lparr>feedback_arr := scored @ drop n (feedback_arr r)\<rparr>))"

definition upd_rep :: "(reputation \<Rightarrow> reputation) \<Rightarrow> 'a data_plane_scheme \<Rightarrow> 'a data_plane_scheme" where
  "upd_rep f s = s\<lparr>rep_info := f (rep_info s)\<rparr>"

text \<open>
  One statement of the loop of \<open>reputation_query_task\<close>; the identity \<open>atlas_reputation_request\<close>
  returns is only printed.
\<close>

fun query_step :: "query_pc \<Rightarrow> 'a data_plane_scheme \<Rightarrow> (query_pc \<times> 'a data_plane_scheme) option" where
  "query_step Q_Request s = do {
     (_, _, s1) \<leftarrow> atlas_reputation_request ATLAS_SENSOR_TEMPERATURE (Some None) s;
     s2 \<leftarrow> request_reputation_val (rep_feature (rep_info s1)) s1;
     Some (Q_Activate, s2) }"
| "query_step Q_Activate s = Some (Q_Reset, upd_rep (\<lambda>r. r\<lparr>feedback_active := 1\<rparr>) s)"
| "query_step Q_Reset s = Some (Q_Stamp, upd_rep (\<lambda>r. r\<lparr>feedback_length := 0\<rparr>) s)"
| "query_step Q_Stamp s = Some (Q_Sleep, tick (upd_rep (\<lambda>r. r\<lparr>window_start := e_realtime s (clock s)\<rparr>) s))"
| "query_step Q_Sleep s = Some (Q_Score, upd_rep (\<lambda>r. r\<lparr>feedback_active := 0\<rparr>) s)"
| "query_step Q_Score s = do {
     r \<leftarrow> average_scores (rep_info s);
     Some (Q_Send, s\<lparr>rep_info := r\<rparr>) }"
| "query_step Q_Send s =
     (let r = rep_info s; n = feedback_length r
      in if n = 0 then Some (Q_Clear, s)
         else if length (feedback_arr r) < n then None
         else do {
           (_, s1) \<leftarrow> atlas_reputation_feedback (Some (take n (feedback_arr r))) s;
           Some (Q_Clear, s1) })"
| "query_step Q_Clear s = Some (Q_Request, upd_rep (\<lambda>r. r\<lparr>feedback_length := 0\<rparr>) s)"

definition reputation_query_task :: "'a data_plane_scheme \<Rightarrow> 'a data_plane_scheme option" where
  "reputation_query_task s =
     (case rep_thread s of
        None \<Rightarrow> Some s
      | Some pc \<Rightarrow> do { (pc', s1) \<leftarrow> query_step pc s; Some (s1\<lparr>rep_thread := Some pc'\<rparr>) })"

section \<open>Start-up\<close>

text \<open>\<open>exit (1)\<close> is \<open>Inl 1\<close>.\<close>

definition start_MQTTclient :: "string ptr \<Rightarrow> string \<Rightarrow> 'a data_plane_scheme \<Rightarrow> int + 'a data_plane_scheme" where
  "start_MQTTclient clientid hostname s =
     (if clientid = None \<or> \<not> e_mqtt_create s (clock s) then Inl 1
      else if \<not> e_mqtt_connect s (clock s) then Inl 1
      else Inr (tick s))"

text \<open>\<open>atoi\<close> and \<open>atof\<close> of a token; of NULL they are undefined.\<close>

definition tok_int :: "string ptr \<Rightarrow> int option" where "tok_int p = map_option atoi p"
definition tok_fp :: "string ptr \<Rightarrow> fp option" where "tok_fp p = map_option (\<lambda>t. fp_conv fround32 (atof t)) p"

text \<open>
  One round of the loop of \<open>traffic_generator\<close>, for the feature \<open>p\<close>: the other fields, the buffer,
  the thread and the subscription, and the token the loop goes on with.
\<close>

definition traffic_body ::
    "string ptr \<Rightarrow> nat \<Rightarrow> string \<Rightarrow> 'a data_plane_scheme \<Rightarrow> (string ptr \<times> 'a data_plane_scheme) option" where
  "traffic_body clientid index p s = do {
     feature \<leftarrow> (if index < length (publish_str s) then fits ATLAS_DATA_PLANE_FEATURE_MAX_LEN p else None);
     (p, s) \<leftarrow> tok CHR '':'' None s;
     rate \<leftarrow> tok_int p;
     (p, s) \<leftarrow> tok CHR '':'' None s;
     base \<leftarrow> tok_fp p;
     (p, s) \<leftarrow> tok CHR '':'' None s;
     dev \<leftarrow> tok_fp p;
     (p, s) \<leftarrow> tok CHR '':'' None s;
     qos \<leftarrow> tok_int p;
     (p, s) \<leftarrow> tok CHR '':'' None s;
     len \<leftarrow> p;
     let plen = (if len = ATLAS_PACKET_LENGTH_DEFAULT then 0 else atoi len);
     let buf = (if len = ATLAS_PACKET_LENGTH_DEFAULT then Some (ATLAS_DATA_PLANE_BUFFER_LEN + 1)
                else if plen < 0 then None else Some (nat plen));
     let pi = \<lparr>pi_feature = feature, publish_rate = rate, base_value = base, deviation = dev, pi_qos = qos,
               packet_length = plen, publish_msg = buf, pi_thread = True\<rparr>;
     topic \<leftarrow> fits ATLAS_DATA_PLANE_BUFFER_LEN (ATLAS_DATA_PLANE_REQUEST_REPUTATION_TOPIC @ feature);
     let s = subscribe clientid topic 2 (s\<lparr>publish_str := (publish_str s)[index := pi]\<rparr>);
     tok CHR '':'' None s }"

text \<open>The loops over tokens, with fuel; the length of the argument is enough.\<close>

fun traffic_loop ::
    "nat \<Rightarrow> string ptr \<Rightarrow> nat \<Rightarrow> string ptr \<Rightarrow> 'a data_plane_scheme \<Rightarrow> 'a data_plane_scheme option" where
  "traffic_loop n clientid index None s = Some s"
| "traffic_loop 0 clientid index (Some p) s = None"
| "traffic_loop (Suc n) clientid index (Some p) s = do {
     (p', s') \<leftarrow> traffic_body clientid index p s;
     traffic_loop n clientid (Suc index) p' s' }"

definition traffic_generator :: "string ptr \<Rightarrow> string \<Rightarrow> 'a data_plane_scheme \<Rightarrow> 'a data_plane_scheme option" where
  "traffic_generator clientid publish_arg s = do {
     (p, s1) \<leftarrow> tok CHR '':'' (Some (publish_arg @ [NUL])) s;
     traffic_loop (length publish_arg) clientid 0 p s1 }"

definition subscribe_body ::
    "string ptr \<Rightarrow> int \<Rightarrow> string \<Rightarrow> 'a data_plane_scheme \<Rightarrow> (string ptr \<times> 'a data_plane_scheme) option" where
  "subscribe_body clientid qos p s = do {
     topic \<leftarrow> fits ATLAS_DATA_PLANE_BUFFER_LEN (ATLAS_DATA_PLANE_DATA_TOPIC @ p);
     tok CHR '','' None (subscribe clientid topic qos s) }"

fun subscribe_loop ::
    "nat \<Rightarrow> string ptr \<Rightarrow> int \<Rightarrow> string ptr \<Rightarrow> 'a data_plane_scheme \<Rightarrow> 'a data_plane_scheme option" where
  "subscribe_loop n clientid qos None s = Some s"
| "subscribe_loop 0 clientid qos (Some p) s = None"
| "subscribe_loop (Suc n) clientid qos (Some p) s = do {
     (p', s') \<leftarrow> subscribe_body clientid qos p s;
     subscribe_loop n clientid qos p' s' }"

definition subscribe_topics :: "string ptr \<Rightarrow> string \<Rightarrow> int \<Rightarrow> 'a data_plane_scheme \<Rightarrow> 'a data_plane_scheme option" where
  "subscribe_topics clientid consume_topics qos s = do {
     (p, s1) \<leftarrow> tok CHR '':'' (Some (consume_topics @ [NUL])) s;
     subscribe_loop (length consume_topics) clientid qos p s1 }"

text \<open>\<open>memset\<close> of \<open>rep_info\<close>.\<close>

definition zero_feedback :: atlas_feedback where
  "zero_feedback = \<lparr>fb_identity = [], fb_sensor_type = 0, fb_sensor_score = 0, fb_time_score = 0\<rparr>"

definition zero_reputation :: reputation where
  "zero_reputation = \<lparr>rep_feature = [], query_rate = 0, target_value = 0, window_size = 0, feedback_active = 0,
     sensor_val = replicate ATLAS_DATA_PLANE_FEEDBACK_MAX (Fin False 0),
     feedback_arr = replicate ATLAS_DATA_PLANE_FEEDBACK_MAX zero_feedback, feedback_length = 0,
     window_start = \<lparr>tv_sec = 0, tv_nsec = 0\<rparr>\<rparr>"

definition set_reputation :: "string \<Rightarrow> 'a data_plane_scheme \<Rightarrow> (int + 'a data_plane_scheme) option" where
  "set_reputation reputation_arg s = do {
     (p, s) \<leftarrow> tok CHR '':'' (Some (reputation_arg @ [NUL])) (s\<lparr>rep_info := zero_reputation\<rparr>);
     (case p of
        None \<Rightarrow> Some (Inr s)
      | Some t \<Rightarrow> do {
          feature \<leftarrow> fits ATLAS_DATA_PLANE_FEATURE_MAX_LEN t;
          (p, s) \<leftarrow> tok CHR '':'' None s;
          rate \<leftarrow> tok_int p;
          (p, s) \<leftarrow> tok CHR '':'' None s;
          window \<leftarrow> tok_int p;
          if rate \<le> window then Some (Inl 1)
          else do {
            (p, s) \<leftarrow> tok CHR '':'' None s;
            target \<leftarrow> p;
            Some (Inr (s\<lparr>rep_info := zero_reputation\<lparr>rep_feature := feature, query_rate := rate,
                target_value := (if target = ATLAS_REPUTATION_FEEDBACK_AVERAGE then -1 else atoi target),
                window_size := window\<rparr>,
              rep_thread := Some Q_Request\<rparr>)) } }) }"

section \<open>The command line\<close>

definition longopts :: "(string \<times> char) list" where
  "longopts = [(''publish'', CHR ''p''), (''subscribe'', CHR ''s''), (''hostname'', CHR ''h''),
     (''qos-firewall'', CHR ''q''), (''ppm-firewall'', CHR ''P''), (''maxlen-firewall'', CHR ''m''),
     (''reputation'', CHR ''r'')]"

text \<open>The long option of that name, or the only one it abbreviates.\<close>

definition find_longopt :: "string \<Rightarrow> char option" where
  "find_longopt name =
     (case map_of longopts name of
        Some c \<Rightarrow> Some c
      | None \<Rightarrow> (case filter (\<lambda>x. prefix name (fst x)) longopts of [x] \<Rightarrow> Some (snd x) | _ \<Rightarrow> None))"

text \<open>
  What successive calls of \<open>getopt_long(argc, argv, "p:s:h:q:P:m:r:", longopts)\<close> return, with
  \<open>optarg\<close>: other arguments are skipped, \<open>--\<close> ends the options, anything wrong is \<open>'?'\<close> (after which
  the caller exits).
\<close>

fun getopt_long_dp :: "string list \<Rightarrow> (char \<times> string ptr) list" where
  "getopt_long_dp [] = []"
| "getopt_long_dp (a # as) =
     (if a = ''--'' then []
      else if prefix ''--'' a then
        (let body = drop 2 a; name = takeWhile (\<lambda>c. c \<noteq> CHR ''='') body in
         case find_longopt name of
           None \<Rightarrow> [(CHR ''?'', None)]
         | Some c \<Rightarrow>
             if length name < length body then (c, Some (drop (Suc (length name)) body)) # getopt_long_dp as
             else case as of
               [] \<Rightarrow> [(CHR ''?'', None)]
             | b # bs \<Rightarrow> (c, Some b) # getopt_long_dp bs)
      else if length a \<ge> 2 \<and> hd a = CHR ''-'' then
        (if a ! 1 \<in> snd ` set longopts then
           (if length a > 2 then (a ! 1, Some (drop 2 a)) # getopt_long_dp as
            else case as of
              [] \<Rightarrow> [(CHR ''?'', None)]
            | b # bs \<Rightarrow> (a ! 1, Some b) # getopt_long_dp bs)
         else [(CHR ''?'', None)])
      else getopt_long_dp as)"

text \<open>The local variables of \<open>parse_arguments\<close>.\<close>

record dp_args =
  publish_arg :: "string ptr"
  subscribe_arg :: "string ptr"
  hostname_arg :: "string ptr"
  reputation_arg :: "string ptr"
  arg_qos :: int
  arg_ppm :: int
  arg_maxlen :: int

definition no_args :: dp_args where
  "no_args = \<lparr>publish_arg = None, subscribe_arg = None, hostname_arg = None, reputation_arg = None,
     arg_qos = -1, arg_ppm = -1, arg_maxlen = -1\<rparr>"

text \<open>\<open>None\<close>: the usage is printed and the process exits with 1.\<close>

fun arguments_loop :: "(char \<times> string ptr) list \<Rightarrow> dp_args \<Rightarrow> dp_args option" where
  "arguments_loop [] a = Some a"
| "arguments_loop ((c, None) # os) a = None"
| "arguments_loop ((c, Some v) # os) a =
     (if c = CHR ''p'' then arguments_loop os (a\<lparr>publish_arg := Some v\<rparr>)
      else if c = CHR ''s'' then arguments_loop os (a\<lparr>subscribe_arg := Some v\<rparr>)
      else if c = CHR ''h'' then arguments_loop os (a\<lparr>hostname_arg := Some v\<rparr>)
      else if c = CHR ''q'' then arguments_loop os (a\<lparr>arg_qos := atoi v\<rparr>)
      else if c = CHR ''P'' then arguments_loop os (a\<lparr>arg_ppm := atoi v\<rparr>)
      else if c = CHR ''m'' then arguments_loop os (a\<lparr>arg_maxlen := atoi v\<rparr>)
      else if c = CHR ''r'' then arguments_loop os (a\<lparr>reputation_arg := Some v\<rparr>)
      else None)"

text \<open>\<open>n\<close> is the fuel of the connection to the client, as in \<open>atlas_init\<close>.\<close>

definition parse_arguments :: "nat \<Rightarrow> string list \<Rightarrow> 'a data_plane_scheme \<Rightarrow> (int + 'a data_plane_scheme) option" where
  "parse_arguments n argv s =
     (case arguments_loop (getopt_long_dp (tl argv)) no_args of
        None \<Rightarrow> Some (Inl 1)
      | Some a \<Rightarrow>
        (case (publish_arg a, subscribe_arg a, hostname_arg a) of
           (Some pub, Some sub, Some host) \<Rightarrow>
             if arg_qos a = -1 \<or> arg_ppm a = -1 \<or> arg_maxlen a = -1 then Some (Inl 1)
             else do {
               (st, idy, s1) \<leftarrow> atlas_init n (word_of_int (arg_qos a)) (word_of_int (arg_ppm a))
                 (word_of_int (arg_maxlen a)) (Some (dp_identity s)) s;
               idy \<leftarrow> idy;
               let s2 = s1\<lparr>dp_identity := idy\<rparr>;
               if st \<noteq> ATLAS_OK then Some (Inl 1)
               else
                 (case start_MQTTclient idy host s2 of
                    Inl c \<Rightarrow> Some (Inl c)
                  | Inr s3 \<Rightarrow> do {
                      s4 \<leftarrow> traffic_generator idy pub s3;
                      s5 \<leftarrow> subscribe_topics idy sub (arg_qos a) s4;
                      (case reputation_arg a of
                         None \<Rightarrow> Some (Inr s5)
                       | Some r \<Rightarrow> set_reputation r s5) }) }
         | _ \<Rightarrow> Some (Inl 1)))"

text \<open>\<open>Inr s\<close>: the process waits for \<open>q\<close> while its threads run. \<open>euid\<close> is what \<open>geteuid\<close> returns.\<close>

definition dp_main :: "nat \<Rightarrow> string list \<Rightarrow> nat \<Rightarrow> 'a data_plane_scheme \<Rightarrow> (int + 'a data_plane_scheme) option" where
  "dp_main n argv euid s = (if euid \<noteq> 0 then Some (Inl (-1)) else parse_arguments n argv s)"

end
