(* ===== verification/Data_Plane_Time.thy ===== *)
theory Data_Plane_Time
  imports Data_Plane
begin

text \<open>
  The times of feedback windows (\<open>diff_in_ms\<close> and the response time score of \<open>handle_data\<close> in
  src/data\_plane/atlas\_data\_plane.c): the floating point computation of the elapsed
  milliseconds is exact, and the score is defined and at most 100 for an answer inside the window,
  and undefined for one that comes after twice its length.
\<close>

section \<open>Lemmas: signs and errors of rounded values\<close>

definition fp_nonneg :: "fp \<Rightarrow> bool" where
  "fp_nonneg x \<longleftrightarrow> (case x of Fin s m \<Rightarrow> \<not> s \<and> 0 \<le> m | Infty s \<Rightarrow> \<not> s | NaN \<Rightarrow> True)"

lemma fround_cases:
  assumes "0 \<le> q"
  obtains r where "fround p emin emax neg q = Fin neg r" "0 \<le> r" | "fround p emin emax neg q = Infty neg"
proof (cases "q = 0")
  case True
  then show ?thesis using that(1) [of 0] by (simp add: fround_def)
next
  case False
  let ?e = "max (ilog2 q - (int p - 1)) emin"
  have "of_int 0 \<le> q / 2 powi ?e" using assms by simp
  from round_half_even_between(1) [OF this, of "\<lceil>q / 2 powi ?e\<rceil>"] have "0 \<le> round_half_even (q / 2 powi ?e)" by simp
  then have "0 \<le> of_int (round_half_even (q / 2 powi ?e)) * (2 powi ?e :: rat)" by simp
  moreover have "fround p emin emax neg q =
      (if 2 powi emax \<le> of_int (round_half_even (q / 2 powi ?e)) * (2 powi ?e :: rat) then Infty neg
       else Fin neg (of_int (round_half_even (q / 2 powi ?e)) * 2 powi ?e))"
    using False by (simp add: fround_def Let_def)
  ultimately show ?thesis using that by metis
qed

lemma fp_nonneg_fround [simp]: "0 \<le> q \<Longrightarrow> fp_nonneg (fround64 False q)"
  unfolding fround64_def by (rule fround_cases [of q 53 "-1074" 1024 False]) (simp_all add: fp_nonneg_def)

lemma fp_nonneg_ops:
  assumes "fp_nonneg x" and "fp_nonneg y"
  shows "fp_nonneg (fp_add fround64 x y)" and "fp_nonneg (fp_mul fround64 x y)" and "fp_nonneg (fp_div fround64 x y)"
proof -
  have nan: "fp_nonneg NaN" "fp_nonneg (Infty False)" "fp_nonneg (Fin False 0)" by (simp_all add: fp_nonneg_def)
  consider "x = NaN \<or> y = NaN" | m n where "x = Fin False m" "y = Fin False n" "0 \<le> m" "0 \<le> n"
    | m where "x = Fin False m" "y = Infty False" "0 \<le> m" | n where "x = Infty False" "y = Fin False n" "0 \<le> n"
    | "x = Infty False" "y = Infty False"
    using assms by (cases x; cases y) (auto simp: fp_nonneg_def)
  then have "fp_nonneg (fp_add fround64 x y) \<and> fp_nonneg (fp_mul fround64 x y) \<and> fp_nonneg (fp_div fround64 x y)"
  proof cases
    case 1
    then show ?thesis using nan by (cases x; cases y) auto
  qed (use nan in \<open>auto simp: Let_def sgn_val_def\<close>)
  then show "fp_nonneg (fp_add fround64 x y)" "fp_nonneg (fp_mul fround64 x y)" "fp_nonneg (fp_div fround64 x y)" by blast+
qed

lemma fp_nonneg_of_int: "0 \<le> n \<Longrightarrow> fp_nonneg (fp_of_int fround64 n)"
  by (simp add: fp_of_int_def)

lemma fp_nonneg_to_int: "fp_nonneg x \<Longrightarrow> fp_to_int lo hi x = Some v \<Longrightarrow> 0 \<le> v"
  by (cases x) (auto simp: fp_nonneg_def Let_def split: if_splits)

lemma round_half_even_error: "\<bar>of_int (round_half_even q) - q\<bar> \<le> 1 / 2"
proof -
  define f where "f = \<lfloor>q\<rfloor>"
  have f: "of_int f \<le> q" "q < of_int f + 1" unfolding f_def by linarith+
  have r: "round_half_even q = (if q - of_int f < 1 / 2 then f else if 1 / 2 < q - of_int f then f + 1
      else if even f then f else f + 1)" by (simp only: round_half_even_def Let_def f_def)
  then have "round_half_even q = f \<and> q - of_int f \<le> 1 / 2 \<or> round_half_even q = f + 1 \<and> 1 / 2 \<le> q - of_int f"
    by (cases "q - of_int f < 1 / 2"; cases "1 / 2 < q - of_int f") (simp_all add: not_less del: less_divide_eq_numeral1 divide_less_eq_numeral1)
  then show ?thesis using f by (elim disjE conjE) simp_all
qed

text \<open>The error of rounding a value below \<open>2 ^ k\<close> is at most half of the last place.\<close>

lemma fround64_error:
  assumes "0 \<le> q" and "q < 2 ^ k" and "k \<le> 53" and "fround64 neg q = Fin neg r"
  shows "\<bar>r - q\<bar> \<le> 1 / 2 ^ (54 - k)"
proof (cases "q = 0")
  case True
  then show ?thesis using assms(4) by (simp add: fround64_def fround_def)
next
  case False
  let ?e = "max (ilog2 q - 52) (- 1074)"
  have q: "0 < q" using assms(1) False by simp
  have r: "r = of_int (round_half_even (q / 2 powi ?e)) * 2 powi ?e"
    using assms(4) q by (simp add: fround64_def fround_def Let_def split: if_splits)
  have "2 powi ilog2 q < (2 powi int k :: rat)"
    using ilog2_bounds(1) [OF q] assms(2) unfolding power_int_of_nat by linarith
  then have "ilog2 q < int k" using power_int_increasing [of "int k" "ilog2 q" "2 :: rat"] by fastforce
  then have e: "?e \<le> int k - 53" using assms(3) by simp
  have "2 powi ?e \<le> (2 powi (int k - 53) :: rat)" using power_int_increasing [OF e, of "2 :: rat"] by simp
  also have "int k - 53 = - int (53 - k)" using assms(3) by simp
  also have "2 powi (- int (53 - k)) = (1 / 2 ^ (53 - k) :: rat)" by (simp only: power_int_minus_divide power_int_of_nat)
  finally have ulp: "2 powi ?e \<le> (1 / 2 ^ (53 - k) :: rat)" .
  have pos: "0 < (2 powi ?e :: rat)" by simp
  have "\<bar>r - q\<bar> = \<bar>of_int (round_half_even (q / 2 powi ?e)) - q / 2 powi ?e\<bar> * 2 powi ?e"
  proof -
    have "r - q = (of_int (round_half_even (q / 2 powi ?e)) - q / 2 powi ?e) * 2 powi ?e"
      unfolding r using pos by (simp add: left_diff_distrib)
    then show ?thesis using pos by (simp only: abs_mult abs_of_pos)
  qed
  also have "\<dots> \<le> 1 / 2 * (1 / 2 ^ (53 - k))"
    by (rule mult_mono [OF round_half_even_error ulp]) simp_all
  also have "\<dots> = 1 / 2 ^ Suc (53 - k)" by simp
  also have "Suc (53 - k) = 54 - k" using assms(3) by simp
  finally show ?thesis .
qed

text \<open>A binary fraction of at most 53 bits is not rounded.\<close>

lemma fround64_dyadic:
  assumes "0 \<le> n" and "n < 2 ^ 53" and "k \<le> 1000"
  shows "fround64 neg (of_int n / 2 ^ k) = Fin neg (of_int n / 2 ^ k)"
proof (cases "n = 0")
  case False
  let ?q = "of_int n / 2 ^ k :: rat"
  let ?e = "max (ilog2 ?q - 52) (- 1074)"
  have q: "0 < ?q" using assms(1) False by simp
  have "(of_int n :: rat) < 2 ^ 53" using assms(2) by (metis of_int_less_iff of_int_numeral of_int_power)
  then have "?q < 2 ^ 53 / 2 ^ k" by (simp add: divide_strict_right_mono)
  also have "\<dots> = 2 powi (int 53 - int k)" by (subst power_int_diff) (simp_all only: power_int_of_nat, simp)
  finally have lt: "?q < 2 powi (int 53 - int k)" .
  then have "2 powi ilog2 ?q < (2 powi (int 53 - int k) :: rat)" using ilog2_bounds(1) [OF q] by linarith
  then have "ilog2 ?q < int 53 - int k"
    using power_int_increasing [of "int 53 - int k" "ilog2 ?q" "2 :: rat"] by fastforce
  then have e: "?e \<le> - int k" using assms(3) by simp
  define j where "j = nat (- int k - ?e)"
  have ej: "?e = - int (k + j)" using e by (simp add: j_def)
  have pow: "2 powi ?e = (1 / 2 ^ (k + j) :: rat)" unfolding ej by (simp only: power_int_minus_divide power_int_of_nat)
  have "?q / 2 powi ?e = of_int (n * 2 ^ j)" unfolding pow by (simp add: power_add)
  then have "round_half_even (?q / 2 powi ?e) = n * 2 ^ j" by (simp only: round_half_even_of_int)
  then have "of_int (round_half_even (?q / 2 powi ?e)) * 2 powi ?e = ?q" unfolding pow by (simp add: power_add)
  moreover have "?q < 2 powi 1024" using lt power_int_increasing [of "int 53 - int k" 1024 "2 :: rat"] by simp
  ultimately show ?thesis using q by (simp add: fround64_def fround_def Let_def)
qed (simp add: fround64_def fround_def)

section \<open>Elapsed time\<close>

definition ts_ok :: "timespec \<Rightarrow> bool" where
  "ts_ok t \<longleftrightarrow> 0 \<le> tv_nsec t \<and> tv_nsec t < 1000000000"

definition elapsed_ns :: "timespec \<Rightarrow> timespec \<Rightarrow> int" where
  "elapsed_ns t0 t = (tv_sec t - tv_sec t0) * 1000000000 + (tv_nsec t - tv_nsec t0)"

text \<open>The normalised difference: seconds and nanoseconds.\<close>

lemma diff_in_ms_parts:
  assumes "ts_ok t0" and "ts_ok t" and "0 \<le> elapsed_ns t0 t"
  obtains sec nsec where "0 \<le> sec" "0 \<le> nsec" "nsec < 1000000000" "elapsed_ns t0 t = sec * 1000000000 + nsec"
    "diff_in_ms t0 t = fp_to_int LONG_MIN LONG_MAX
       (fp_add fround64 (fp_mul fround64 (fp_of_int fround64 sec) (fp_of_int fround64 1000))
         (fp_div fround64 (fp_of_int fround64 nsec) (fp_of_int fround64 1000000)))"
proof (cases "tv_nsec t - tv_nsec t0 < 0")
  case True
  show thesis
    by (rule that [of "tv_sec t - tv_sec t0 - 1" "tv_nsec t - tv_nsec t0 + 1000000000"])
      (use assms True in \<open>auto simp: ts_ok_def elapsed_ns_def diff_in_ms_def\<close>)
next
  case False
  show thesis
    by (rule that [of "tv_sec t - tv_sec t0" "tv_nsec t - tv_nsec t0"])
      (use assms False in \<open>auto simp: ts_ok_def elapsed_ns_def diff_in_ms_def\<close>)
qed

lemma diff_in_ms_nonneg:
  assumes "ts_ok t0" and "ts_ok t" and "0 \<le> elapsed_ns t0 t" and "diff_in_ms t0 t = Some ms"
  shows "0 \<le> ms"
proof -
  obtain sec nsec where p: "0 \<le> sec" "0 \<le> nsec"
    "diff_in_ms t0 t = fp_to_int LONG_MIN LONG_MAX
       (fp_add fround64 (fp_mul fround64 (fp_of_int fround64 sec) (fp_of_int fround64 1000))
         (fp_div fround64 (fp_of_int fround64 nsec) (fp_of_int fround64 1000000)))"
    by (rule diff_in_ms_parts [OF assms(1-3)])
  then have "fp_nonneg (fp_add fround64 (fp_mul fround64 (fp_of_int fround64 sec) (fp_of_int fround64 1000))
         (fp_div fround64 (fp_of_int fround64 nsec) (fp_of_int fround64 1000000)))"
    by (intro fp_nonneg_ops fp_nonneg_of_int) simp_all
  then show ?thesis using assms(4) unfolding p(3) by (rule fp_nonneg_to_int)
qed

text \<open>
  The two roundings, up to 317 years: the product of the seconds is exact, the quotient of the
  nanoseconds and the sum stay between integers.
\<close>

lemma diff_in_ms_sum:
  assumes "ts_ok t0" and "ts_ok t" and "0 \<le> elapsed_ns t0 t" and "elapsed_ns t0 t < 10000000000 * 1000000000"
  obtains D k q q1 r where "elapsed_ns t0 t div 1000000 = D + k" "0 \<le> D" "D * 1000000 \<le> elapsed_ns t0 t" "0 \<le> k" "k < 1000"
    "0 \<le> q" "q < 2 ^ 10" "q < of_int k + 999999 / 1000000 + 1 / 10000000000" "fround64 False q = Fin False q1"
    "of_int k \<le> q1" "q1 \<le> 1000" "fround64 False (of_int D + q1) = Fin False r" "of_int (D + k) \<le> r" "r \<le> of_int (D + 1000)"
    "diff_in_ms t0 t = Some \<lfloor>r\<rfloor>"
proof -
  obtain sec nsec where p: "0 \<le> sec" "0 \<le> nsec" "nsec < 1000000000" "elapsed_ns t0 t = sec * 1000000000 + nsec"
    "diff_in_ms t0 t = fp_to_int LONG_MIN LONG_MAX
       (fp_add fround64 (fp_mul fround64 (fp_of_int fround64 sec) (fp_of_int fround64 1000))
         (fp_div fround64 (fp_of_int fround64 nsec) (fp_of_int fround64 1000000)))"
    by (rule diff_in_ms_parts [OF assms(1-3)])
  have sec: "sec < 10000000000" using p(2,4) assms(4) by linarith
  let ?D = "sec * 1000" and ?k = "nsec div 1000000"
  have D: "0 \<le> ?D" "?D < 10000000000000" "?D * 1000000 \<le> elapsed_ns t0 t" using p(1,2,4) sec by simp_all
  have n: "elapsed_ns t0 t div 1000000 = ?D + ?k" using p(4) by simp
  have k: "0 \<le> ?k" "?k < 1000" using p(2,3) by auto
  have mul: "fp_mul fround64 (fp_of_int fround64 sec) (fp_of_int fround64 1000) = Fin False (of_int ?D)"
    using fround64_of_int [of ?D] fround64_of_int [of sec] fround64_of_int [of 1000] D sec p(1) by (simp add: fp_of_int_def)
  let ?q = "of_int nsec / 1000000 :: rat"
  have q: "of_int ?k \<le> ?q" "?q < of_int ?k + 999999 / 1000000 + 1 / 10000000000" "0 \<le> ?q" "?q \<le> of_int 1000" "?q < 2 ^ 10"
  proof -
    have "nsec = ?k * 1000000 + nsec mod 1000000" "0 \<le> nsec mod 1000000" "nsec mod 1000000 \<le> 999999" by auto
    then have "?k * 1000000 \<le> nsec" "nsec \<le> ?k * 1000000 + 999999" by linarith+
    then have "of_int (?k * 1000000) \<le> (of_int nsec :: rat)" "(of_int nsec :: rat) \<le> of_int (?k * 1000000 + 999999)"
      by (simp_all only: of_int_le_iff)
    then show "of_int ?k \<le> ?q" "?q < of_int ?k + 999999 / 1000000 + 1 / 10000000000" by simp_all
    have "0 \<le> (of_int nsec :: rat)" "(of_int nsec :: rat) < of_int 1000000000" using p(2,3) by (simp_all only: of_int_less_iff of_int_0_le_iff)
    then show "0 \<le> ?q" "?q \<le> of_int 1000" "?q < 2 ^ 10" by simp_all
  qed
  obtain q1 where q1: "fround64 False ?q = Fin False q1" "of_int ?k \<le> q1" "q1 \<le> of_int 1000"
    using k by (rule_tac fround64_between [OF q(1,4) _ q(3), of False]) auto
  have dv: "fp_div fround64 (fp_of_int fround64 nsec) (fp_of_int fround64 1000000) = Fin False q1"
    using fround64_of_int [of nsec] fround64_of_int [of 1000000] p(2,3) q1(1) by simp
  let ?s = "of_int ?D + q1"
  have s: "of_int (?D + ?k) \<le> ?s" "?s \<le> of_int (?D + 1000)" "0 \<le> ?s"
  proof -
    have "(0 :: rat) \<le> of_int ?D" "(0 :: rat) \<le> of_int ?k" using D k by (simp_all only: of_int_0_le_iff)
    with q1 show "of_int (?D + ?k) \<le> ?s" "?s \<le> of_int (?D + 1000)" "0 \<le> ?s" by simp_all
  qed
  obtain r where r: "fround64 False ?s = Fin False r" "of_int (?D + ?k) \<le> r" "r \<le> of_int (?D + 1000)"
    using D k by (rule_tac fround64_between [OF s(1,2) _ s(3), of False]) auto
  have "fp_add fround64 (Fin False (of_int ?D)) (Fin False q1) = Fin False r"
    using r(1) s(3) by (cases "?s = 0") (auto simp: Let_def sgn_val_def fround64_def fround_def)
  moreover have "0 \<le> \<lfloor>r\<rfloor>" using s(1) r(2) D(1) k(1) by (simp add: le_floor_iff)
  moreover have "\<lfloor>r\<rfloor> \<le> ?D + 1000" using r(3) by (metis floor_mono floor_of_int)
  then have "\<lfloor>r\<rfloor> \<le> LONG_MAX" using D(2) by (simp add: LONG_MAX_def del: floor_le_numeral floor_le_iff)
  ultimately have "diff_in_ms t0 t = Some \<lfloor>r\<rfloor>"
    unfolding p(5) mul dv by (simp only: fp_to_int.simps Let_def LONG_MIN_def) simp
  with n D k q q1 r show thesis by (intro that [of ?D ?k ?q q1 r]) simp_all
qed

text \<open>Two roundings and a truncation give exactly the elapsed milliseconds.\<close>

lemma diff_in_ms_floor:
  assumes "ts_ok t0" and "ts_ok t" and "0 \<le> elapsed_ns t0 t" and "elapsed_ns t0 t < 4000000 * 1000000000"
  shows "diff_in_ms t0 t = Some (elapsed_ns t0 t div 1000000)"
proof -
  have "elapsed_ns t0 t < 10000000000 * 1000000000" using assms(4) by simp
  then obtain D k q q1 r where p: "elapsed_ns t0 t div 1000000 = D + k" "0 \<le> D" "D * 1000000 \<le> elapsed_ns t0 t" "0 \<le> k" "k < 1000"
    "0 \<le> q" "q < 2 ^ 10" "q < of_int k + 999999 / 1000000 + 1 / 10000000000" "fround64 False q = Fin False q1"
    "of_int k \<le> q1" "q1 \<le> 1000" "fround64 False (of_int D + q1) = Fin False r" "of_int (D + k) \<le> r"
    "diff_in_ms t0 t = Some \<lfloor>r\<rfloor>"
    by (rule diff_in_ms_sum [OF assms(1-3)])
  have e1: "\<bar>q1 - q\<bar> \<le> 1 / 2 ^ 44" using fround64_error [OF p(6,7) _ p(9)] by simp
  have "D < 4000000000" using p(3) assms(4) by simp
  then have "(of_int D :: rat) < of_int 4000000000" "(0 :: rat) \<le> of_int D" "(0 :: rat) \<le> of_int k"
    using p(2,4) by (simp_all only: of_int_less_iff of_int_0_le_iff)
  then have s: "0 \<le> of_int D + q1" "of_int D + q1 < 2 ^ 32" using p(10,11) by simp_all
  have e2: "\<bar>r - (of_int D + q1)\<bar> \<le> 1 / 2 ^ 22" using fround64_error [OF s _ p(12)] by simp
  have "r < of_int (D + k) + 1" using abs_le_D1 [OF e1] abs_le_D1 [OF e2] p(8) by simp
  then have "\<lfloor>r\<rfloor> = D + k" using p(13) by (simp add: floor_eq_iff)
  then show ?thesis using p(1,14) by simp
qed

text \<open>For longer times, at least the elapsed milliseconds and at most a second more.\<close>

lemma diff_in_ms_range:
  assumes "ts_ok t0" and "ts_ok t" and "0 \<le> elapsed_ns t0 t" and "elapsed_ns t0 t < 10000000000 * 1000000000"
  obtains ms where "diff_in_ms t0 t = Some ms" "elapsed_ns t0 t div 1000000 \<le> ms" "ms \<le> 10000000001000"
proof -
  obtain D k and r :: rat where p: "elapsed_ns t0 t div 1000000 = D + k" "D * 1000000 \<le> elapsed_ns t0 t"
    "of_int (D + k) \<le> r" "r \<le> of_int (D + 1000)" "diff_in_ms t0 t = Some \<lfloor>r\<rfloor>"
    by (rule diff_in_ms_sum [OF assms])
  have "D + k \<le> \<lfloor>r\<rfloor>" using p(3) by (simp add: le_floor_iff)
  moreover have "\<lfloor>r\<rfloor> \<le> D + 1000" using p(4) by (metis floor_mono floor_of_int)
  moreover have "D \<le> 10000000000000" using p(2) assms(4) by simp
  ultimately show thesis using that p(1,5) by simp
qed

section \<open>The response time score\<close>

text \<open>Whatever the window, an answer after its start scores at most 100.\<close>

lemma time_score_le:
  assumes "ts_ok t0" and "ts_ok t" and "0 \<le> elapsed_ns t0 t" and "0 \<le> window" and "time_score t0 t window = Some v"
  shows "0 \<le> v" and "v \<le> 100"
proof -
  obtain ms w where ms: "diff_in_ms t0 t = Some ms" and w: "int32 (window * 1000) = Some w"
    and v: "fp_to_int 0 65535 (fp_sub fround64 (fp_of_int fround64 100)
        (fp_mul fround64 (fp_div fround64 (fp_of_int fround64 ms) (fp_of_int fround64 w)) (fp_of_int fround64 100))) = Some v"
    using assms(5) by (auto simp: time_score_def split: bind_splits)
  then show "0 \<le> v" by (auto elim!: fp_to_int.elims simp: Let_def split: if_splits)
  have "0 \<le> ms" by (rule diff_in_ms_nonneg [OF assms(1-3) ms])
  moreover have "0 \<le> w" using w assms(4) by (auto simp: int32_def split: if_splits)
  ultimately have "fp_nonneg (fp_mul fround64 (fp_div fround64 (fp_of_int fround64 ms) (fp_of_int fround64 w)) (fp_of_int fround64 100))"
    by (intro fp_nonneg_ops fp_nonneg_of_int) simp_all
  moreover have "v \<le> 100" if x: "fp_nonneg x" "fp_to_int 0 65535 (fp_sub fround64 (fp_of_int fround64 100) x) = Some v" for x
  proof -
    have h: "fp_of_int fround64 100 = Fin False 100" using fround64_of_int [of 100] by simp
    obtain m where m: "x = Fin False m" "0 \<le> m" using x unfolding h by (cases x) (auto simp: fp_nonneg_def fp_sub_def)
    consider "m = 100" | "m < 100" | "100 < m" by linarith
    then show ?thesis
    proof cases
      case 1
      then show ?thesis using x(2) unfolding h m by (simp add: fp_sub_def sgn_val_def)
    next
      case 2
      have "of_int 0 \<le> 100 - m" "100 - m \<le> of_int 100" using m(2) 2 by simp_all
      then obtain r where "fround64 False (100 - m) = Fin False r" "r \<le> of_int 100"
        by (rule_tac fround64_between [of 0 "100 - m" 100 False]) auto
      then have "fp_sub fround64 (Fin False 100) (Fin False m) = Fin False r" using 2 by (simp add: fp_sub_def sgn_val_def Let_def)
      then have "v = \<lfloor>r\<rfloor>" using x(2) unfolding h m by (auto simp: Let_def split: if_splits)
      then show ?thesis using \<open>r \<le> of_int 100\<close> by (metis floor_mono floor_of_int)
    next
      case 3
      then have sub: "fp_sub fround64 (Fin False 100) (Fin False m) = fround64 True (m - 100)"
        by (simp add: fp_sub_def sgn_val_def Let_def)
      consider r where "fround64 True (m - 100) = Fin True r" "0 \<le> r" | "fround64 True (m - 100) = Infty True"
        using fround_cases [of "m - 100" 53 "-1074" 1024 True] 3 unfolding fround64_def by force
      then show ?thesis
      proof cases
        case (1 r)
        then have "0 \<le> \<lfloor>r\<rfloor>" and "v = - \<lfloor>r\<rfloor>"
          using x(2) unfolding h m sub by (auto simp: Let_def split: if_splits)
        then show ?thesis by linarith
      qed (use x(2) in \<open>simp add: h m sub\<close>)
    qed
  qed
  ultimately show "v \<le> 100" using v by blast
qed

lemma time_score_ms:
  assumes "diff_in_ms t0 t = Some ms" and "0 < window" and "window * 1000 < 2 ^ 31"
  shows "time_score t0 t window = fp_to_int 0 65535 (fp_sub fround64 (Fin False 100)
    (fp_mul fround64 (fp_div fround64 (fp_of_int fround64 ms) (Fin False (of_int (window * 1000)))) (Fin False 100)))"
  using assms fround64_of_int [of "window * 1000"] fround64_of_int [of 100] by (simp add: time_score_def int32_def)

text \<open>An answer inside the window has a score.\<close>

lemma time_score_in_window:
  assumes "ts_ok t0" and "ts_ok t" and "0 \<le> elapsed_ns t0 t" and "elapsed_ns t0 t \<le> window * 1000000000"
    and "0 < window" and "window * 1000 < 2 ^ 31"
  shows "\<exists>v. time_score t0 t window = Some v \<and> 0 \<le> v \<and> v \<le> 100"
proof -
  define ms where "ms = elapsed_ns t0 t div 1000000"
  have "elapsed_ns t0 t < 4000000 * 1000000000" using assms(4,6) by simp
  then have d: "diff_in_ms t0 t = Some ms" unfolding ms_def by (rule diff_in_ms_floor [OF assms(1-3)])
  let ?w = "window * 1000"
  have ms: "0 \<le> ms" "ms \<le> ?w" using assms(3,4) by (simp_all add: ms_def)
  have w: "0 < (of_int ?w :: rat)" "(of_int ms :: rat) \<le> of_int ?w" "0 \<le> (of_int ms :: rat)"
    using assms(5) ms by (simp_all only: of_int_le_iff of_int_0_less_iff of_int_0_le_iff)
  let ?q = "of_int ms / of_int ?w :: rat"
  have q: "of_int 0 \<le> ?q" "?q \<le> of_int 1" "0 \<le> ?q" using w by (simp_all add: divide_le_eq_1)
  obtain r where r: "fround64 False ?q = Fin False r" "of_int 0 \<le> r" "r \<le> of_int 1"
    using fround64_between [OF q(1,2) _ q(3), of False] by auto
  have r1: "of_int 0 \<le> r * 100" "r * 100 \<le> of_int 100" "0 \<le> r * 100" using r by simp_all
  obtain r2 where r2: "fround64 False (r * 100) = Fin False r2" "of_int 0 \<le> r2" "r2 \<le> of_int 100"
    using fround64_between [OF r1(1,2) _ r1(3), of False] by auto
  have s: "of_int 0 \<le> 100 - r2" "100 - r2 \<le> of_int 100" "0 \<le> 100 - r2" using r2 by simp_all
  obtain r3 where r3: "fround64 False (100 - r2) = Fin False r3" "of_int 0 \<le> r3" "r3 \<le> of_int 100"
    using fround64_between [OF s(1,2) _ s(3), of False] by auto
  have "fp_of_int fround64 ms = Fin False (of_int ms)" using fround64_of_int [of ms] ms assms(6) by simp
  then have "fp_div fround64 (fp_of_int fround64 ms) (Fin False (of_int ?w)) = Fin False r" using r(1) w(1) by simp
  moreover have "fp_sub fround64 (Fin False 100) (Fin False r2) = Fin False r3"
    using r3(1) s(3) by (cases "r2 = 100") (auto simp: fp_sub_def sgn_val_def Let_def fround64_def fround_def)
  ultimately have "time_score t0 t window = fp_to_int 0 65535 (Fin False r3)"
    using r2(1) by (simp add: time_score_ms [OF d assms(5,6)])
  moreover have "0 \<le> \<lfloor>r3\<rfloor>" "\<lfloor>r3\<rfloor> \<le> 100" using r3(2,3) by (simp_all add: floor_le_iff)
  ultimately show ?thesis by (simp add: Let_def)
qed

text \<open>An answer after twice the window has none: the conversion is out of range.\<close>

lemma time_score_late:
  assumes "ts_ok t0" and "ts_ok t" and "2 * window * 1000000000 \<le> elapsed_ns t0 t" and "0 < window" and "window * 1000 < 2 ^ 31"
    and "elapsed_ns t0 t < 10000000000 * 1000000000"
  shows "time_score t0 t window = None"
proof -
  have "0 \<le> elapsed_ns t0 t" using assms(3,4) by simp
  then obtain ms where d: "diff_in_ms t0 t = Some ms" "elapsed_ns t0 t div 1000000 \<le> ms" "ms \<le> 10000000001000"
    using assms(6) by (rule diff_in_ms_range [OF assms(1,2)])
  let ?w = "window * 1000"
  have "2 * ?w * 1000000 \<le> elapsed_ns t0 t" using assms(3) by simp
  then have ms: "2 * ?w \<le> ms" "ms \<le> 10000000001000" using d(2,3) by simp_all
  have w: "1 \<le> (of_int ?w :: rat)" "(of_int (2 * ?w) :: rat) \<le> of_int ms" "(of_int ms :: rat) \<le> of_int 10000000001000"
    using assms(4) ms by (simp_all only: of_int_le_iff of_int_1_le_iff)
  let ?q = "of_int ms / of_int ?w :: rat"
  have q: "of_int 2 \<le> ?q" "0 \<le> ?q" using w by (simp_all add: pos_le_divide_eq)
  have "?q \<le> of_int ms / 1" using w by (intro divide_left_mono) simp_all
  then have q3: "?q \<le> of_int 10000000001000" using w(3) by simp
  obtain r where r: "fround64 False ?q = Fin False r" "of_int 2 \<le> r" "r \<le> of_int 10000000001000"
    using fround64_between [OF q(1) q3 _ q(2), of False] by auto
  have r1: "of_int 200 \<le> r * 100" "r * 100 \<le> of_int 1000000000100000" "0 \<le> r * 100" using r by simp_all
  obtain r2 where r2: "fround64 False (r * 100) = Fin False r2" "of_int 200 \<le> r2" "r2 \<le> of_int 1000000000100000"
    using fround64_between [OF r1(1,2) _ r1(3), of False] by auto
  have s: "of_int 100 \<le> r2 - 100" "r2 - 100 \<le> of_int 1000000000100000" "0 \<le> r2 - 100" using r2 by simp_all
  obtain r3 where r3: "fround64 True (r2 - 100) = Fin True r3" "of_int 100 \<le> r3"
    using fround64_between [OF s(1,2) _ s(3), of True] by auto
  have "fp_of_int fround64 ms = Fin False (of_int ms)" using fround64_of_int [of ms] ms assms(4) by simp
  then have "fp_div fround64 (fp_of_int fround64 ms) (Fin False (of_int ?w)) = Fin False r" using r(1) w(1) by simp
  moreover have "fp_sub fround64 (Fin False 100) (Fin False r2) = Fin True r3"
    using r3(1) s(1) by (auto simp: fp_sub_def sgn_val_def Let_def)
  ultimately have "time_score t0 t window = fp_to_int 0 65535 (Fin True r3)"
    using r2(1) by (simp add: time_score_ms [OF d(1) assms(4,5)])
  moreover have "100 \<le> \<lfloor>r3\<rfloor>" using r3(2) by (simp add: le_floor_iff)
  ultimately show ?thesis by (simp add: Let_def)
qed

section \<open>Properties\<close>

text \<open>
  C11. The elapsed time is exact: for two times of the clock at most 46 days apart, \<open>diff_in_ms\<close>,
  which borrows a second, multiplies and divides in double precision, adds and truncates, returns
  the number of whole milliseconds between them.
\<close>

theorem elapsed_ms_exact:
  assumes "0 \<le> tv_nsec t0" "tv_nsec t0 < 1000000000" and "0 \<le> tv_nsec t" "tv_nsec t < 1000000000"
    and "0 \<le> elapsed_ns t0 t" and "elapsed_ns t0 t < 4000000 * 1000000000"
  shows "diff_in_ms t0 t = Some (elapsed_ns t0 t div 1000000)"
  by (rule diff_in_ms_floor) (use assms in \<open>simp_all add: ts_ok_def\<close>)

theorem elapsed_ms_exact_witness:
  "diff_in_ms \<lparr>tv_sec = 100, tv_nsec = 999999999\<rparr> \<lparr>tv_sec = 103, tv_nsec = 499999998\<rparr> = Some 2499"
  using elapsed_ms_exact [of "\<lparr>tv_sec = 100, tv_nsec = 999999999\<rparr>" "\<lparr>tv_sec = 103, tv_nsec = 499999998\<rparr>"]
  by (simp add: elapsed_ns_def)

text \<open>
  The response time score: an answer inside a window of positive length has a score between 0
  and 100; for an answer after twice the window the conversion of the negative result to
  \<open>uint16_t\<close> is undefined.
\<close>

theorem response_time_score:
  assumes "ts_ok t0" and "ts_ok t" and "0 < window" and "window * 1000 < 2 ^ 31"
    and "0 \<le> elapsed_ns t0 t" and "elapsed_ns t0 t < 10000000000 * 1000000000"
  shows "(elapsed_ns t0 t \<le> window * 1000000000 \<longrightarrow> (\<exists>v. time_score t0 t window = Some v \<and> 0 \<le> v \<and> v \<le> 100)) \<and>
    (2 * window * 1000000000 \<le> elapsed_ns t0 t \<longrightarrow> time_score t0 t window = None)"
  using time_score_in_window [OF assms(1,2,5) _ assms(3,4)] time_score_late [OF assms(1,2) _ assms(3,4,6)] by blast

theorem response_time_score_witness:
  "(\<exists>v. time_score \<lparr>tv_sec = 5, tv_nsec = 0\<rparr> \<lparr>tv_sec = 6, tv_nsec = 500000000\<rparr> 10 = Some v \<and> 0 \<le> v \<and> v \<le> 100) \<and>
    time_score \<lparr>tv_sec = 5, tv_nsec = 0\<rparr> \<lparr>tv_sec = 30, tv_nsec = 0\<rparr> 10 = None"
  using response_time_score [of "\<lparr>tv_sec = 5, tv_nsec = 0\<rparr>" "\<lparr>tv_sec = 6, tv_nsec = 500000000\<rparr>" 10]
    response_time_score [of "\<lparr>tv_sec = 5, tv_nsec = 0\<rparr>" "\<lparr>tv_sec = 30, tv_nsec = 0\<rparr>" 10]
  by (simp add: ts_ok_def elapsed_ns_def)

end
