(* ===== verification/Data_Plane_Window.thy ===== *)
theory Data_Plane_Window
  imports Data_Plane_Time
begin

text \<open>
  The feedback windows of the data plane application: the publisher, the reputation thread, the
  thread of the client library and the callback of received messages, in any order
  (\<open>dp_step\<close>). The invariant \<open>dp_inv\<close> holds in every reachable state; the properties follow a value
  from the device that publishes it to the score that is sent, and show which messages the
  collection does not survive.
\<close>

section \<open>Lemmas: what the client library changes\<close>

definition agent_later :: "'a agent_scheme \<Rightarrow> 'a agent_scheme \<Rightarrow> bool" where
  "agent_later s t \<longleftrightarrow> agent_same s t \<and> clock s \<le> clock t"

lemma agent_later_refl: "agent_later s s"
  by (simp add: agent_later_def agent_same_refl)

lemma agent_later_trans: "agent_later s t \<Longrightarrow> agent_later t u \<Longrightarrow> agent_later s u"
  by (auto simp: agent_later_def intro: agent_same_trans)

lemma agent_later_tick: "agent_later s (tick s)" and agent_later_emit: "agent_later s (emit x s)"
  by (simp_all add: agent_later_def agent_same_step) (simp_all add: tick_def emit_def)

lemma agent_later_new_socket: "agent_later s (new_socket s)"
  by (simp add: agent_later_def new_socket_same new_socket_fields)

lemma agent_later_connect: "connect_loop n s = Some t \<Longrightarrow> agent_later s t"
proof -
  assume "connect_loop n s = Some t"
  then obtain k where "clock s < k" "t = s\<lparr>clock := k\<rparr>" using connect_loop_state by blast
  then show ?thesis
    using agent_sameI [where s = s and c = k and f = "fds s" and os = "outs s" and a = "agent_fd s"]
    by (simp add: agent_later_def)
qed

lemma agent_later_write:
  assumes "write_to_socket b l s = Some (n, t)"
  shows "agent_later s t"
  using assms agent_later_trans [OF agent_later_tick agent_later_emit] agent_later_tick [of s]
  by (auto simp: write_to_socket_def split: bind_splits if_splits)

lemma retry_later:
  fixes s :: "'a agent_scheme"
  shows "socket_connect n s = Some t \<Longrightarrow> agent_later s t"
    and "send_registration_command n s = Some t \<Longrightarrow> agent_later s t"
    and "write_to_socket_retry n b l s = Some t \<Longrightarrow> agent_later s t"
proof (induction n s and n s and n b l s arbitrary: t and t and t
    rule: socket_connect_send_registration_command_write_to_socket_retry.induct)
  case (1 n s)
  let ?v = "new_socket s"
  have v: "fd_new (fd_close (agent_fd s) s) = (agent_fd ?v, snd (fd_new (fd_close (agent_fd s) s)))"
    "(snd (fd_new (fd_close (agent_fd s) s)))\<lparr>agent_fd := agent_fd ?v\<rparr> = ?v"
    by (simp_all add: new_socket_def fd_new_def)
  show ?case
  proof (cases "agent_fd ?v = -1")
    case True
    then show ?thesis using "1.prems" agent_later_new_socket [of s] by (simp add: socket_connect_eq)
  next
    case False
    then obtain u where u: "connect_loop n ?v = Some u" "send_registration_command n u = Some t"
      using "1.prems" by (auto simp: socket_connect_eq split: bind_splits)
    have "agent_later u t"
      by (rule "1.IH" [OF refl v(1) [symmetric] v(2) [symmetric] False u])
    then show ?thesis
      using agent_later_trans [OF agent_later_new_socket agent_later_connect [OF u(1)]] agent_later_trans by blast
  qed
next
  case (2 n s)
  have "write_to_socket_retry n (Some (policy_msg s)) 22 s = Some t"
    using "2.prems" by (simp add: registration_retry length_policy_msg)
  then show ?case by (rule "2.IH" [OF registration_buf_mk refl])
next
  case (3 n b l s)
  obtain m s1 where w: "write_to_socket b l s = Some (m, s1)"
    using "3.prems" by (subst (asm) write_to_socket_retry.simps) (auto split: bind_splits)
  show ?case
  proof (cases "m = uint l")
    case True
    then show ?thesis using "3.prems" w agent_later_write [OF w] by (subst (asm) write_to_socket_retry.simps) simp
  next
    case False
    then obtain k u where k: "n = Suc k" "socket_connect k s1 = Some u" "write_to_socket_retry k b l u = Some t"
      using "3.prems" w by (subst (asm) write_to_socket_retry.simps) (auto split: nat.splits bind_splits)
    have "agent_later s1 u" "agent_later u t" using "3.IH" w False k by auto
    then show ?thesis using agent_later_write [OF w] agent_later_trans by blast
  qed
qed

lemma statistics_later:
  assumes "send_statistics_command n s = Some t"
  shows "agent_later (s\<lparr>payload_samples := 0, payload_total := 0, payload_avg := 0\<rparr>) t"
  using assms retry_later(3) by (fastforce simp: send_statistics_command_def Let_def split: bind_splits prod.splits)

lemma feedback_loop_later: "feedback_loop fs s = Some (st, t) \<Longrightarrow> agent_later s t"
proof (induction fs arbitrary: s)
  case (Cons f fs)
  show ?case
  proof (cases "t = s")
    case False
    then obtain x u where u: "send_feedback_command f s = Some (x, u)" "feedback_loop fs u = Some (st, t)"
      using Cons.prems by (auto split: if_splits bind_splits)
    then have "agent_later s u"
      by (auto simp: send_feedback_command_def dest: agent_later_write split: bind_splits)
    with Cons.IH [OF u(2)] show ?thesis by (rule agent_later_trans [rotated])
  qed (simp add: agent_later_refl)
qed (simp add: agent_later_refl)

lemma reputation_request_later:
  assumes "atlas_reputation_request ty (Some idy) s = Some (st, idy', t)"
  shows "agent_later s t"
proof -
  obtain b x u where u: "write_to_socket b x s = Some u" "t = snd u \<or> t = tick (snd u)"
    using assms by (auto simp: atlas_reputation_request_def sock_read_def Let_def split: bind_splits if_splits prod.splits)
  then have "agent_later s (snd u)" by (cases u) (auto intro: agent_later_write)
  with u(2) show ?thesis using agent_later_tick agent_later_trans by blast
qed

section \<open>Steps of the application\<close>

text \<open>What the threads and the callback do, in any order.\<close>

inductive dp_step :: "'a data_plane_scheme \<Rightarrow> 'a data_plane_scheme \<Rightarrow> bool" where
  Message: "msgarrvd name len payload s = Some t \<Longrightarrow> dp_step s t"
| Publish: "publish_feature_value i s = Some t \<Longrightarrow> dp_step s t"
| Report: "send_statistics_command n s = Some t \<Longrightarrow> dp_step s t"
| Query: "reputation_query_task s = Some t \<Longrightarrow> dp_step s t"

inductive_cases dp_stepE: "dp_step s t"

text \<open>Steps that leave the reputation data alone, and the time does not go back.\<close>

definition dp_frame :: "'a data_plane_scheme \<Rightarrow> 'a data_plane_scheme \<Rightarrow> bool" where
  "dp_frame s t \<longleftrightarrow> rep_info t = rep_info s \<and> e_realtime t = e_realtime s \<and> clock s \<le> clock t"

lemma dp_frame_later: "agent_later s t \<Longrightarrow> dp_frame s t"
  by (auto simp: agent_later_def agent_same_def dp_frame_def)

lemma dp_frame_publish: "publish_feature_value i s = Some t \<Longrightarrow> dp_frame s t"
  by (auto simp: publish_feature_value_def Let_def mqtt_emit_def tick_def dp_frame_def split: if_splits bind_splits)

lemma dp_frame_request: "request_reputation_val f s = Some t \<Longrightarrow> dp_frame s t"
  by (auto simp: request_reputation_val_def mqtt_emit_def dp_frame_def split: bind_splits)

lemma dp_frame_pkt: "atlas_pkt_received l s = Some t \<Longrightarrow> dp_frame s t"
  by (auto simp: atlas_pkt_received_def dp_frame_def Let_def split: bind_splits if_splits)

lemma dp_frame_report: "send_statistics_command n s = Some t \<Longrightarrow> dp_frame s t"
proof -
  assume "send_statistics_command n s = Some t"
  then have "agent_later (s\<lparr>payload_samples := 0, payload_total := 0, payload_avg := 0\<rparr>) t" using statistics_later by blast
  then have "dp_frame (s\<lparr>payload_samples := 0, payload_total := 0, payload_avg := 0\<rparr>) t" by (rule dp_frame_later)
  then show ?thesis by (simp add: dp_frame_def)
qed

lemma dp_frame_trans: "dp_frame s t \<Longrightarrow> dp_frame t u \<Longrightarrow> dp_frame s u"
  by (auto simp: dp_frame_def)

section \<open>The invariant of the windows\<close>

text \<open>The entries of the window, one per device.\<close>

definition entries :: "reputation \<Rightarrow> atlas_feedback list" where
  "entries r = take (feedback_length r) (feedback_arr r)"

definition win_ok :: "reputation \<Rightarrow> bool" where
  "win_ok r \<longleftrightarrow> length (sensor_val r) = ATLAS_DATA_PLANE_FEEDBACK_MAX \<and> length (feedback_arr r) = ATLAS_DATA_PLANE_FEEDBACK_MAX \<and>
     feedback_length r \<le> ATLAS_DATA_PLANE_FEEDBACK_MAX \<and> distinct (map fb_identity (entries r)) \<and> 0 \<le> window_size r \<and>
     (\<forall>f \<in> set (feedback_arr r). fb_sensor_score f \<le> 98 \<and> fb_time_score f \<le> 100 \<and> length (fb_identity f) < ATLAS_IDENTITY_MAX_LEN)"

text \<open>The clock is not set back, and the window started before now.\<close>

definition clock_ok :: "'a data_plane_scheme \<Rightarrow> bool" where
  "clock_ok s \<longleftrightarrow> (\<forall>k. ts_ok (e_realtime s k)) \<and> (\<forall>i j. i \<le> j \<longrightarrow> 0 \<le> elapsed_ns (e_realtime s i) (e_realtime s j))"

definition dp_inv :: "'a data_plane_scheme \<Rightarrow> bool" where
  "dp_inv s \<longleftrightarrow> win_ok (rep_info s) \<and> clock_ok s \<and> ts_ok (window_start (rep_info s)) \<and>
     (\<forall>k \<ge> clock s. 0 \<le> elapsed_ns (window_start (rep_info s)) (e_realtime s k))"

lemma dp_inv_frame: "dp_inv s \<Longrightarrow> dp_frame s t \<Longrightarrow> dp_inv t"
  by (auto simp: dp_inv_def dp_frame_def clock_ok_def)

lemma sensor_feedback_le: "get_sensor_feedback v \<le> 98"
  by (simp add: get_sensor_feedback_def)

text \<open>The entry of a value, and the data with one more entry.\<close>

definition new_entry :: "reputation \<Rightarrow> string \<Rightarrow> fp \<Rightarrow> int \<Rightarrow> atlas_feedback" where
  "new_entry r c v sc = (feedback_arr r ! feedback_length r)\<lparr>fb_identity := c, fb_sensor_type := ATLAS_SENSOR_TEMPERATURE,
     fb_sensor_score := (if target_value r \<noteq> -1
       then get_sensor_feedback (abs_val (fp_sub fround64 v (fp_of_int fround64 (target_value r))))
       else fb_sensor_score (feedback_arr r ! feedback_length r)),
     fb_time_score := word_of_int sc\<rparr>"

definition with_entry :: "reputation \<Rightarrow> fp \<Rightarrow> atlas_feedback \<Rightarrow> reputation" where
  "with_entry r sv f = r\<lparr>sensor_val := (sensor_val r)[feedback_length r := sv],
     feedback_arr := (feedback_arr r)[feedback_length r := f], feedback_length := Suc (feedback_length r)\<rparr>"

lemma with_entry_simps [simp]:
  "length (sensor_val (with_entry r sv f)) = length (sensor_val r)"
  "length (feedback_arr (with_entry r sv f)) = length (feedback_arr r)"
  "feedback_length (with_entry r sv f) = Suc (feedback_length r)" "window_size (with_entry r sv f) = window_size r"
  "window_start (with_entry r sv f) = window_start r" "target_value (with_entry r sv f) = target_value r"
  "feedback_active (with_entry r sv f) = feedback_active r"
  by (simp_all add: with_entry_def)

lemma entries_snoc: "feedback_length r < length (feedback_arr r) \<Longrightarrow> entries (with_entry r sv f) = entries r @ [f]"
  by (simp add: entries_def with_entry_def take_Suc_conv_app_nth)

lemma new_entry_simps [simp]:
  "fb_identity (new_entry r c v sc) = c" "fb_time_score (new_entry r c v sc) = word_of_int sc"
  by (simp_all add: new_entry_def)

lemma u16_of_score: "0 \<le> v \<Longrightarrow> v \<le> 100 \<Longrightarrow> (word_of_int v :: u16) \<le> 100"
proof -
  assume v: "0 \<le> v" "v \<le> 100"
  then have "uint (word_of_int v :: u16) = v" by (simp add: uint_word_of_int)
  then show ?thesis using v by (simp add: word_le_def)
qed

text \<open>What collecting a value does: nothing, or one more entry.\<close>

lemma collect_eq:
  "collect_feedback c v s =
    (if feedback_active (rep_info s) = 0 \<or> ATLAS_DATA_PLANE_FEEDBACK_MAX < feedback_length (rep_info s) \<or>
        c \<in> fb_identity ` set (entries (rep_info s)) then Some s
     else if length (sensor_val (rep_info s)) \<le> feedback_length (rep_info s) \<or>
        length (feedback_arr (rep_info s)) \<le> feedback_length (rep_info s) \<or> ATLAS_IDENTITY_MAX_LEN \<le> length c then None
     else case time_score (window_start (rep_info s)) (e_realtime s (clock s)) (window_size (rep_info s)) of
         None \<Rightarrow> None
       | Some sc \<Rightarrow> Some ((tick s)\<lparr>rep_info := with_entry (rep_info s) (fp_conv fround32 v) (new_entry (rep_info s) c v sc)\<rparr>))"
  by (simp add: collect_feedback_def Let_def entries_def with_entry_def new_entry_def fits_def split: option.splits)

lemma collect_cases:
  assumes "collect_feedback c v s = Some t"
  obtains "t = s" | sc where
    "t = (tick s)\<lparr>rep_info := with_entry (rep_info s) (fp_conv fround32 v) (new_entry (rep_info s) c v sc)\<rparr>"
    "feedback_length (rep_info s) < length (feedback_arr (rep_info s))"
    "c \<notin> fb_identity ` set (entries (rep_info s))" "length c < ATLAS_IDENTITY_MAX_LEN"
    "time_score (window_start (rep_info s)) (e_realtime s (clock s)) (window_size (rep_info s)) = Some sc"
  using assms unfolding collect_eq by (auto split: if_splits option.splits)

lemma collect_inv:
  assumes "dp_inv s" and "collect_feedback c v s = Some t"
  shows "dp_inv t"
  using assms(2)
proof (cases rule: collect_cases)
  case 1
  with assms(1) show ?thesis by simp
next
  case (2 sc)
  let ?r = "rep_info s" and ?f = "new_entry (rep_info s) c v sc"
  have inv: "win_ok ?r" "clock_ok s" "ts_ok (window_start ?r)" "\<forall>k \<ge> clock s. 0 \<le> elapsed_ns (window_start ?r) (e_realtime s k)"
    using assms(1) by (simp_all add: dp_inv_def)
  have w: "0 \<le> window_size ?r" using inv(1) by (simp add: win_ok_def)
  have now: "ts_ok (e_realtime s (clock s))" "0 \<le> elapsed_ns (window_start ?r) (e_realtime s (clock s))"
    using inv by (simp_all add: clock_ok_def)
  from time_score_le [OF inv(3) now w 2(5)] have "fb_time_score ?f \<le> 100" using u16_of_score by simp
  moreover have "feedback_arr ?r ! feedback_length ?r \<in> set (feedback_arr ?r)" using 2(2) by simp
  then have "fb_sensor_score ?f \<le> 98" using inv(1) sensor_feedback_le by (simp add: new_entry_def win_ok_def)
  ultimately have "\<forall>g \<in> set ((feedback_arr ?r)[feedback_length ?r := ?f]).
      fb_sensor_score g \<le> 98 \<and> fb_time_score g \<le> 100 \<and> length (fb_identity g) < ATLAS_IDENTITY_MAX_LEN"
    using inv(1) 2(4) set_update_subset_insert [of "feedback_arr ?r" "feedback_length ?r" ?f] by (auto simp: win_ok_def)
  then have "win_ok (rep_info t)"
    using inv(1) 2(2,3) unfolding win_ok_def by (simp add: 2(1) entries_snoc) (simp add: with_entry_def)
  then show ?thesis using inv(2-4) by (simp add: dp_inv_def 2(1) clock_ok_def tick_def)
qed

lemma handle_data_cases:
  assumes "handle_data f p n s = Some t"
  shows "t = s \<or> t = s\<lparr>strtok_save := None\<rparr> \<or> (\<exists>c v. collect_feedback c v (s\<lparr>strtok_save := None\<rparr>) = Some t)"
proof -
  have tok: "tok d a u = Some (q, u') \<Longrightarrow> \<exists>x. u' = u\<lparr>strtok_save := x\<rparr>" for d a q and u u' :: "'a data_plane_scheme"
    by (auto simp: tok_def split: bind_splits)
  show ?thesis using assms
    by (auto simp: handle_data_def dest!: tok split: option.splits if_splits bind_splits prod.splits)
qed

lemma handle_data_inv:
  assumes "dp_inv s" and "handle_data f p n s = Some t"
  shows "dp_inv t"
proof -
  have "dp_inv (s\<lparr>strtok_save := None\<rparr>)" using assms(1) by (rule dp_inv_frame) (simp add: dp_frame_def)
  then show ?thesis using handle_data_cases [OF assms(2)] assms(1) collect_inv by blast
qed

lemma msgarrvd_inv:
  assumes "dp_inv s" and "msgarrvd name len payload s = Some t"
  shows "dp_inv t"
proof -
  obtain u f where u: "atlas_pkt_received (int (length payload)) s = Some u"
    "handle_publish_req f u = Some t \<or> handle_data f (Some payload) (length payload) u = Some t \<or> t = u"
    using assms(2) by (auto simp: msgarrvd_def split: bind_splits if_splits)
  have "dp_inv u" using assms(1) dp_frame_pkt [OF u(1)] by (rule dp_inv_frame)
  moreover have "dp_frame u t" if "handle_publish_req f u = Some t"
    using that dp_frame_publish by (auto simp: handle_publish_req_def dp_frame_def split: option.splits)
  ultimately show ?thesis using u(2) handle_data_inv dp_inv_frame by blast
qed

lemma map_map2_first:
  "length xs \<le> length ys \<Longrightarrow> (\<And>x y. g (h x y) = g x) \<Longrightarrow> map g (map2 h xs ys) = map g xs"
  by (intro nth_equalityI) simp_all

lemma average_scores_ok:
  assumes "win_ok r"
  shows "\<exists>arr. average_scores r = Some (r\<lparr>feedback_arr := arr\<rparr>) \<and> length arr = length (feedback_arr r) \<and>
    map fb_identity arr = map fb_identity (feedback_arr r) \<and> map fb_time_score arr = map fb_time_score (feedback_arr r) \<and>
    (\<forall>f \<in> set arr. fb_sensor_score f \<le> 98)"
proof (cases "target_value r \<noteq> -1 \<or> feedback_length r = 0")
  case True
  have "average_scores r = Some (r\<lparr>feedback_arr := feedback_arr r\<rparr>)" using True by (auto simp: average_scores_def)
  then show ?thesis using assms by (intro exI [of _ "feedback_arr r"]) (auto simp: win_ok_def)
next
  case False
  define n where "n = feedback_length r"
  define vs where "vs = map (fp_conv fround64) (take n (sensor_val r))"
  define avg where "avg = fp_div fround64 (foldl (fp_add fround64) (fp_of_int fround64 0) vs) (fp_of_int fround64 (int n))"
  define score where "score = (\<lambda>(f :: atlas_feedback) v. f\<lparr>fb_sensor_score := get_sensor_feedback (abs_val (fp_sub fround64 v avg))\<rparr>)"
  let ?arr = "map2 score (take n (feedback_arr r)) vs @ drop n (feedback_arr r)"
  have len: "n \<le> length (sensor_val r)" "n \<le> length (feedback_arr r)" using assms by (simp_all add: n_def win_ok_def)
  have "average_scores r = Some (r\<lparr>feedback_arr := ?arr\<rparr>)"
    using False len by (simp add: average_scores_def Let_def n_def vs_def avg_def score_def)
  moreover have "length (take n (feedback_arr r)) \<le> length vs" using len by (simp add: vs_def)
  then have "map fb_identity (map2 score (take n (feedback_arr r)) vs) = map fb_identity (take n (feedback_arr r))"
    "map fb_time_score (map2 score (take n (feedback_arr r)) vs) = map fb_time_score (take n (feedback_arr r))"
    by (intro map_map2_first; simp add: score_def)+
  then have "map fb_identity ?arr = map fb_identity (feedback_arr r)" "map fb_time_score ?arr = map fb_time_score (feedback_arr r)"
    by (metis append_take_drop_id map_append)+
  moreover have "\<forall>f \<in> set ?arr. fb_sensor_score f \<le> 98"
    using assms sensor_feedback_le by (auto simp: win_ok_def score_def dest: in_set_dropD)
  moreover have "length ?arr = length (feedback_arr r)" using len by (simp add: vs_def)
  ultimately show ?thesis by blast
qed

lemma win_ok_scored:
  assumes "win_ok r" and "length arr = length (feedback_arr r)" and "map fb_identity arr = map fb_identity (feedback_arr r)"
    and "map fb_time_score arr = map fb_time_score (feedback_arr r)" and "\<forall>f \<in> set arr. fb_sensor_score f \<le> 98"
  shows "win_ok (r\<lparr>feedback_arr := arr\<rparr>)"
proof -
  have "map fb_identity (take n arr) = map fb_identity (take n (feedback_arr r))" for n using assms(3) by (metis take_map)
  moreover have "fb_time_score f \<le> 100" "length (fb_identity f) < ATLAS_IDENTITY_MAX_LEN" if "f \<in> set arr" for f
  proof -
    have "fb_time_score f \<in> set (map fb_time_score (feedback_arr r))" "fb_identity f \<in> set (map fb_identity (feedback_arr r))"
      using that unfolding assms(3,4) [symmetric] by simp_all
    then show "fb_time_score f \<le> 100" "length (fb_identity f) < ATLAS_IDENTITY_MAX_LEN"
      using assms(1) by (auto simp: win_ok_def)
  qed
  ultimately show ?thesis using assms(1,2,5) by (simp add: win_ok_def entries_def)
qed

lemma query_step_inv:
  assumes "dp_inv s" and "query_step pc s = Some (pc', t)"
  shows "dp_inv t"
proof -
  have inv: "win_ok (rep_info s)" "clock_ok s" "ts_ok (window_start (rep_info s))"
    "\<forall>k \<ge> clock s. 0 \<le> elapsed_ns (window_start (rep_info s)) (e_realtime s k)"
    using assms(1) by (simp_all add: dp_inv_def)
  have flags: "win_ok ((rep_info s)\<lparr>feedback_active := a\<rparr>)" "win_ok ((rep_info s)\<lparr>feedback_length := 0\<rparr>)"
    "win_ok ((rep_info s)\<lparr>window_start := w\<rparr>)" for a w
    using inv(1) by (simp_all add: win_ok_def entries_def)
  show ?thesis
  proof (cases pc)
    case Q_Request
    then obtain x y u where u: "atlas_reputation_request ATLAS_SENSOR_TEMPERATURE (Some None) s = Some (x, y, u)"
      "request_reputation_val (rep_feature (rep_info u)) u = Some t"
      using assms(2) by (auto split: bind_splits)
    have "dp_frame s t" using dp_frame_later [OF reputation_request_later [OF u(1)]] dp_frame_request [OF u(2)] dp_frame_trans by blast
    with assms(1) show ?thesis by (rule dp_inv_frame)
  next
    case Q_Stamp
    then have t: "t = tick (upd_rep (\<lambda>r. r\<lparr>window_start := e_realtime s (clock s)\<rparr>) s)" using assms(2) by simp
    have "ts_ok (e_realtime s (clock s))" "\<forall>k > clock s. 0 \<le> elapsed_ns (e_realtime s (clock s)) (e_realtime s k)"
      using inv(2) by (simp_all add: clock_ok_def)
    then show ?thesis using inv(2) flags(3) unfolding t by (auto simp: dp_inv_def upd_rep_def tick_def clock_ok_def)
  next
    case Q_Score
    obtain arr where arr: "average_scores (rep_info s) = Some ((rep_info s)\<lparr>feedback_arr := arr\<rparr>)"
      "length arr = length (feedback_arr (rep_info s))" "map fb_identity arr = map fb_identity (feedback_arr (rep_info s))"
      "map fb_time_score arr = map fb_time_score (feedback_arr (rep_info s))" "\<forall>f \<in> set arr. fb_sensor_score f \<le> 98"
      using average_scores_ok [OF inv(1)] by blast
    have "t = s\<lparr>rep_info := (rep_info s)\<lparr>feedback_arr := arr\<rparr>\<rparr>" using assms(2) Q_Score arr(1) by simp
    then show ?thesis using win_ok_scored [OF inv(1) arr(2-5)] inv(2-4) by (simp add: dp_inv_def clock_ok_def)
  next
    case Q_Send
    then have "t = s \<or> (\<exists>fs st. atlas_reputation_feedback (Some fs) s = Some (st, t))"
      using assms(2) by (auto simp: Let_def split: if_splits bind_splits)
    then have "t = s \<or> (\<exists>fs st. feedback_loop fs s = Some (st, t))"
      by (auto simp: atlas_reputation_feedback_def split: if_splits)
    then show ?thesis using assms(1) feedback_loop_later dp_frame_later dp_inv_frame by blast
  qed (use assms(2) flags inv in \<open>auto simp: dp_inv_def upd_rep_def clock_ok_def\<close>)
qed

lemma dp_step_inv: "dp_step s t \<Longrightarrow> dp_inv s \<Longrightarrow> dp_inv t"
proof (induction rule: dp_step.induct)
  case (Query s t)
  have "dp_frame u (u\<lparr>rep_thread := x\<rparr>)" for u :: "'a data_plane_scheme" and x by (simp add: dp_frame_def)
  moreover have "t = s \<or> (\<exists>pc pc' u. query_step pc s = Some (pc', u) \<and> t = u\<lparr>rep_thread := Some pc'\<rparr>)"
    using Query(1) by (auto simp: reputation_query_task_def split: option.splits bind_splits)
  ultimately show ?case using Query(2) query_step_inv dp_inv_frame by blast
qed (blast intro: msgarrvd_inv dp_inv_frame dp_frame_publish dp_frame_report)+

lemma dp_run_inv: "dp_step\<^sup>*\<^sup>* s t \<Longrightarrow> dp_inv s \<Longrightarrow> dp_inv t"
  by (induction rule: rtranclp_induct) (blast intro: dp_step_inv)+

section \<open>Lemmas: messages\<close>

lemma strtok_delim:
  assumes "t \<noteq> []" and "\<forall>c \<in> set t. c \<noteq> d \<and> c \<noteq> NUL" and "d \<noteq> NUL"
  shows "strtok d (Some (t @ d # r)) save = Some (Some t, Some r)"
    and "strtok d None (Some (t @ d # r)) = Some (Some t, Some r)"
    and "strtok d (Some (t @ NUL # r)) save = Some (Some t, Some (NUL # r))"
    and "strtok d None (Some (t @ NUL # r)) = Some (Some t, Some (NUL # r))"
proof -
  obtain c cs where c: "t = c # cs" "c \<noteq> d" "c \<noteq> NUL" using assms(1,2) by (cases t) auto
  have "takeWhile (\<lambda>c. c \<noteq> d \<and> c \<noteq> NUL) (t @ x # r) = t" if "x = d \<or> x = NUL" for x
    using assms(2) that by (subst takeWhile_append2) auto
  then show "strtok d (Some (t @ d # r)) save = Some (Some t, Some r)"
    "strtok d None (Some (t @ d # r)) = Some (Some t, Some r)"
    "strtok d (Some (t @ NUL # r)) save = Some (Some t, Some (NUL # r))"
    "strtok d None (Some (t @ NUL # r)) = Some (Some t, Some (NUL # r))"
    using assms(3) c unfolding strtok_def by (simp_all add: Let_def)
qed

lemma strtok_end: "d \<noteq> NUL \<Longrightarrow> strtok d None (Some (NUL # r)) = Some (None, Some (NUL # r))"
  by (simp add: strtok_def)

text \<open>A message \<open>device:value\<close>.\<close>

lemma handle_message:
  assumes "c \<noteq> []" and "\<forall>x \<in> set c. x \<noteq> CHR '':'' \<and> x \<noteq> NUL" and "v \<noteq> []" and "\<forall>x \<in> set v. x \<noteq> CHR '':'' \<and> x \<noteq> NUL"
    and "length c + length v < 255"
  shows "handle_data (Some f) (Some (str_bytes (c @ CHR '':'' # v))) (length (str_bytes (c @ CHR '':'' # v))) s =
    collect_feedback c (atof v) (s\<lparr>strtok_save := None\<rparr>)"
proof -
  let ?p = "str_bytes (c @ CHR '':'' # v)"
  have read: "mem_read ?p 0 (length ?p) = Some ?p" by (simp add: mem_read_def)
  obtain k where k: "256 - length ?p = Suc k" using assms(5) by (cases "256 - length ?p") auto
  then have "bytes_str ?p @ replicate (256 - length ?p) NUL = c @ CHR '':'' # v @ NUL # replicate k NUL" by simp
  then have t1: "tok CHR '':'' (Some (bytes_str ?p @ replicate (256 - length ?p) NUL)) s =
      Some (Some c, s\<lparr>strtok_save := Some (v @ NUL # replicate k NUL)\<rparr>)"
    using strtok_delim(1) [OF assms(1,2)] by (simp add: tok_def)
  have t2: "tok CHR '':'' None (s\<lparr>strtok_save := Some (v @ NUL # replicate k NUL)\<rparr>) =
      Some (Some v, s\<lparr>strtok_save := Some (NUL # replicate k NUL)\<rparr>)"
    using strtok_delim(4) [OF assms(3,4)] by (simp add: tok_def)
  have "length ?p \<noteq> 0" "\<not> 256 < length ?p" "length c < 256" using assms(5) by simp_all
  then show ?thesis using read t1 t2
    by (simp add: handle_data_def ATLAS_DATA_PLANE_BUFFER_LEN_def fits_def del: length_str_bytes bytes_str_bytes)
qed

lemma topic_name: "NUL \<notin> set n \<Longrightarrow> topic_of (n @ [NUL]) 0 = Some n"
proof -
  assume "NUL \<notin> set n"
  then have "takeWhile (\<lambda>c. c \<noteq> NUL) (n @ [NUL]) = n" by (subst takeWhile_append2) auto
  then show ?thesis by (simp add: topic_of_def obj_string_def)
qed

text \<open>A message on a data topic is counted and handed to \<open>handle_data\<close>.\<close>

lemma data_message:
  assumes "NUL \<notin> set f" and "atlas_pkt_received (int (length payload)) s = Some s1"
  shows "msgarrvd ((''atlas/data/'' @ f) @ [NUL]) 0 payload s = handle_data (Some f) (Some payload) (length payload) s1"
proof -
  have "NUL \<notin> set (''atlas/data/'' @ f)" using assms(1) by simp
  note top = topic_name [OF this]
  show ?thesis
    unfolding msgarrvd_def top
    using assms(2) by (simp add: ATLAS_DATA_PLANE_REQUEST_REPUTATION_TOPIC_def ATLAS_DATA_PLANE_DATA_TOPIC_def)
qed

lemma pkt_received_frame:
  assumes "atlas_pkt_received l s = Some s1"
  shows "\<exists>a b c. s1 = s\<lparr>payload_samples := a, payload_total := b, payload_avg := c\<rparr>"
  using assms by (auto simp: atlas_pkt_received_def Let_def split: bind_splits if_splits)

text \<open>A fresh device in an active window with room.\<close>

lemma collect_fresh:
  assumes "feedback_active (rep_info s) \<noteq> 0" and "win_ok (rep_info s)" and "feedback_length (rep_info s) < ATLAS_DATA_PLANE_FEEDBACK_MAX"
    and "c \<notin> fb_identity ` set (entries (rep_info s))" and "length c < ATLAS_IDENTITY_MAX_LEN"
    and "time_score (window_start (rep_info s)) (e_realtime s (clock s)) (window_size (rep_info s)) = Some sc"
  shows "collect_feedback c v s = Some ((tick s)\<lparr>rep_info := with_entry (rep_info s) (fp_conv fround32 v) (new_entry (rep_info s) c v sc)\<rparr>)"
  using assms by (simp add: collect_eq win_ok_def)

section \<open>Lemmas: published values\<close>

lemma fround32_finite:
  assumes "0 \<le> q" and "fround32 neg q = Fin s r"
  shows "0 \<le> r" and "r < 2 ^ 128"
proof -
  show "0 \<le> r" using fround_cases [OF assms(1), of 24 "-149" 128 neg] assms(2) by (auto simp: fround32_def)
  have "(2 :: rat) powi 128 = 2 ^ 128" using power_int_of_nat [of "2 :: rat" 128] by simp
  then show "r < 2 ^ 128" using assms(2) by (auto simp: fround32_def fround_def Let_def not_le split: if_splits)
qed

lemma random_value_finite:
  assumes "random_number_generator b d x = Fin s m"
  shows "0 \<le> m" and "m < 2 ^ 128"
proof -
  have add: "0 \<le> m \<and> m < 2 ^ 128" if sum: "fp_add fround32 u v = Fin s m" for u v
  proof (cases "m = 0")
    case False
    obtain su qu sv qv where uv: "u = Fin su qu" "v = Fin sv qv" using sum by (cases u; cases v) (auto split: if_splits)
    then have "fround32 (sgn_val su qu + sgn_val sv qv < 0) \<bar>sgn_val su qu + sgn_val sv qv\<bar> = Fin s m"
      using sum False by (simp add: Let_def split: if_splits)
    then show ?thesis using fround32_finite [OF abs_ge_zero] by blast
  qed simp
  show "0 \<le> m" "m < 2 ^ 128"
    using add [OF assms [unfolded random_number_generator_def Let_def]] by (rule conjunct1, rule conjunct2)
qed

lemma fmt_f_chars: "c \<in> set (fmt_f (Fin s m)) \<Longrightarrow> c_isdigit c \<or> c = CHR ''-'' \<or> c = CHR ''.''"
proof -
  have "c_isdigit CHR ''0''" by (simp add: c_isdigit_def)
  moreover have "c \<in> set (show_dec n) \<Longrightarrow> c_isdigit c" for n using show_dec_digits [of n] by (simp add: list_all_iff)
  ultimately show "c \<in> set (fmt_f (Fin s m)) \<Longrightarrow> c_isdigit c \<or> c = CHR ''-'' \<or> c = CHR ''.''"
    by (auto simp: Let_def pad6_def split: if_splits)
qed

lemma length_fmt_f:
  assumes "0 \<le> m" and "m < 2 ^ 128"
  shows "length (fmt_f (Fin s m)) \<le> 47" and "fmt_f (Fin s m) \<noteq> []"
proof -
  define k where "k = nat (round_half_even (m * 1000000))"
  have "of_int 0 \<le> m * 1000000" "m * 1000000 \<le> of_int (2 ^ 128 * 1000000)" using assms by simp_all
  from round_half_even_between [OF this] have "int k \<le> 2 ^ 128 * 1000000" by (simp add: k_def)
  then have "k div 1000000 < 10 ^ 39" by simp
  then have "length (show_dec (k div 1000000)) \<le> 39" by (rule length_show_dec) simp
  moreover have "length (pad6 (k mod 1000000)) = 6" by (rule pad6) simp
  ultimately show "length (fmt_f (Fin s m)) \<le> 47" by (simp add: k_def [symmetric] Let_def)
  show "fmt_f (Fin s m) \<noteq> []" by (simp add: Let_def)
qed

text \<open>The payload of a publication.\<close>

lemma publish_payload:
  assumes "i < length (publish_str a)" and "packet_length (publish_str a ! i) = 0" and "publish_msg (publish_str a ! i) = Some 257"
    and "length (pi_feature (publish_str a ! i)) < 32" and "dp_identity a = Some idy" and "length idy \<le> 64"
    and "random_number_generator (base_value (publish_str a ! i)) (deviation (publish_str a ! i)) (e_random a (clock a)) = Fin neg m"
  shows "publish_feature_value i a = Some (mqtt_emit (Mqtt_publish (''atlas/data/'' @ pi_feature (publish_str a ! i))
    (pi_qos (publish_str a ! i)) (str_bytes (idy @ CHR '':'' # fmt_f (Fin neg m)))) (tick a))"
  using assms length_fmt_f(1) [OF random_value_finite [OF assms(7)], of neg]
  by (simp add: publish_feature_value_def Let_def fits_def ATLAS_DATA_PLANE_DATA_TOPIC_def ATLAS_DATA_PLANE_BUFFER_LEN_def
      del: fmt_f.simps)

section \<open>Properties\<close>

definition epoch :: timespec where "epoch = \<lparr>tv_sec = 0, tv_nsec = 0\<rparr>"

lemma dp_inv_start:
  assumes "rep_info s = zero_reputation\<lparr>rep_feature := f, query_rate := q, target_value := tv, window_size := w\<rparr>" and "0 \<le> w"
    and "clock_ok s" and "\<forall>k. 0 \<le> elapsed_ns epoch (e_realtime s k)"
  shows "dp_inv s"
proof -
  have "win_ok (rep_info s)"
    using assms(1,2) by (auto simp: win_ok_def zero_reputation_def zero_feedback_def entries_def ATLAS_IDENTITY_MAX_LEN_def)
  then show ?thesis using assms by (simp add: dp_inv_def zero_reputation_def ts_ok_def epoch_def)
qed


text \<open>
  C7. A window is reported whole: when the reputation thread sends, in any reachable state with a
  working connection, the client library accepts the window and writes one message for each device,
  in the order of their first values, and the thread goes on to clear the window.
\<close>

theorem window_reported_whole:
  assumes "dp_step\<^sup>*\<^sup>* s t"
    and "rep_info s = zero_reputation\<lparr>rep_feature := f, query_rate := q, target_value := tv, window_size := w\<rparr>" and "0 \<le> w"
    and "clock_ok s" and "\<forall>k. 0 \<le> elapsed_ns epoch (e_realtime s k)"
    and "rep_thread t = Some Q_Send" and "\<forall>k. e_write t k" and "agent_fd t \<in> set (fds t)"
  shows "\<exists>u. reputation_query_task t = Some u \<and> rep_thread u = Some Q_Clear \<and> rep_info u = rep_info t \<and>
    outs u = outs t @ map (\<lambda>x. Sock_write (agent_fd t) (feedback_msg x)) (entries (rep_info t))"
proof -
  let ?r = "rep_info t"
  have "dp_inv t" by (rule dp_run_inv [OF assms(1) dp_inv_start [OF assms(2-5)]])
  then have win: "win_ok ?r" by (simp add: dp_inv_def)
  have ok: "\<forall>x \<in> set (entries ?r). length (fb_identity x) < 64 \<and> feedback_ok x"
  proof
    fix x assume "x \<in> set (entries ?r)"
    then have x: "fb_sensor_score x \<le> 98" "fb_time_score x \<le> 100" "length (fb_identity x) < 64"
      using win by (auto simp: win_ok_def ATLAS_IDENTITY_MAX_LEN_def entries_def dest: in_set_takeD)
    have "(98 :: u16) \<le> 100" by simp
    with x show "length (fb_identity x) < 64 \<and> feedback_ok x" by (auto simp: feedback_ok_def intro: order_trans)
  qed
  then have all: "takeWhile feedback_ok (entries ?r) = entries ?r" "list_all feedback_ok (entries ?r)"
    by (auto simp: list_all_iff)
  show ?thesis
  proof (cases "feedback_length ?r = 0")
    case True
    then show ?thesis using assms(6) by (simp add: reputation_query_task_def entries_def Let_def)
  next
    case False
    have len: "feedback_length ?r \<le> length (feedback_arr ?r)" using win by (simp add: win_ok_def)
    then have "entries ?r \<noteq> []" using False by (auto simp: entries_def)
    moreover have "feedback_loop (entries ?r) t = Some (ATLAS_OK, t\<lparr>clock := clock t + length (entries ?r),
        outs := outs t @ map (\<lambda>x. Sock_write (agent_fd t) (feedback_msg x)) (entries ?r)\<rparr>)"
      using feedback_loop_prefix [of "entries ?r" t] ok assms(7,8) all by simp
    ultimately show ?thesis using False len assms(6)
      by (simp add: reputation_query_task_def Let_def atlas_reputation_feedback_def entries_def [symmetric] not_less)
  qed
qed

text \<open>
  C8. A value goes from the device that publishes it to the score: a device publishes
  \<open>identity:value\<close> on the topic of its feature, and the device that receives this message in
  its window, as the first one of that identity, adds an entry with exactly this identity, the value
  rounded to six decimals, the sensor score of that value's deviation from the target and a time
  score of at most 100.
\<close>

theorem published_value_scored:
  assumes "i < length (publish_str a)" and "packet_length (publish_str a ! i) = 0" and "publish_msg (publish_str a ! i) = Some 257"
    and "length (pi_feature (publish_str a ! i)) < 32" and "NUL \<notin> set (pi_feature (publish_str a ! i))"
    and "dp_identity a = Some idy" and "idy \<noteq> []" and "length idy < 64" and "CHR '':'' \<notin> set idy" and "NUL \<notin> set idy"
    and "random_number_generator (base_value (publish_str a ! i)) (deviation (publish_str a ! i)) (e_random a (clock a)) = Fin neg m"
    and "dp_inv b" and "feedback_active (rep_info b) \<noteq> 0" and "feedback_length (rep_info b) < 256"
    and "idy \<notin> fb_identity ` set (entries (rep_info b))" and "target_value (rep_info b) \<noteq> -1"
    and "0 < window_size (rep_info b)" and "window_size (rep_info b) * 1000 < 2 ^ 31"
    and "elapsed_ns (window_start (rep_info b)) (e_realtime b (clock b)) \<le> window_size (rep_info b) * 1000000000"
    and "0 \<le> payload_samples b" and "payload_samples b < 2 ^ 30" and "0 \<le> payload_total b" and "payload_total b < 2 ^ 30"
  shows "\<exists>a' payload b' x. publish_feature_value i a = Some a' \<and>
    mqtt_out a' = mqtt_out a @ [Mqtt_publish (''atlas/data/'' @ pi_feature (publish_str a ! i)) (pi_qos (publish_str a ! i)) payload] \<and>
    msgarrvd ((''atlas/data/'' @ pi_feature (publish_str a ! i)) @ [NUL]) 0 payload b = Some b' \<and>
    payload_samples b' = payload_samples b + 1 \<and>
    entries (rep_info b') = entries (rep_info b) @ [x] \<and> fb_identity x = idy \<and> fb_time_score x \<le> 100 \<and>
    fb_sensor_score x = get_sensor_feedback (abs_val (fp_sub fround64
      (fround64 neg (of_int (round_half_even (m * 1000000)) / 1000000)) (fp_of_int fround64 (target_value (rep_info b))))) \<and>
    sensor_val (rep_info b') ! feedback_length (rep_info b) =
      fp_conv fround32 (fround64 neg (of_int (round_half_even (m * 1000000)) / 1000000))"
proof -
  let ?v = "fmt_f (Fin neg m)" and ?f = "pi_feature (publish_str a ! i)" and ?r = "rep_info b"
  let ?p = "str_bytes (idy @ CHR '':'' # ?v)"
  have m: "0 \<le> m" "m < 2 ^ 128" by (rule random_value_finite [OF assms(11)])+
  have v: "length ?v \<le> 47" "?v \<noteq> []" by (rule length_fmt_f [OF m])+
  have vc: "\<forall>x \<in> set ?v. x \<noteq> CHR '':'' \<and> x \<noteq> NUL" using fmt_f_chars by (fastforce simp: c_isdigit_def simp del: fmt_f.simps)
  have ic: "\<forall>x \<in> set idy. x \<noteq> CHR '':'' \<and> x \<noteq> NUL" using assms(9,10) by blast
  have pub: "publish_feature_value i a = Some (mqtt_emit (Mqtt_publish (''atlas/data/'' @ ?f) (pi_qos (publish_str a ! i)) ?p) (tick a))"
    using assms(8) by (intro publish_payload [OF assms(1-4,6) _ assms(11)]) simp
  have len: "length ?p \<le> 111" using v(1) assms(8) by (simp del: fmt_f.simps)
  have "int (length ?p) \<le> 111" using len by simp
  then obtain b1 where b1: "atlas_pkt_received (int (length ?p)) b = Some b1" "payload_samples b1 = payload_samples b + 1"
    using assms(20-23) by (simp add: atlas_pkt_received_def int32_def del: fmt_f.simps length_str_bytes)
  obtain x1 x2 x3 where f1: "b1 = b\<lparr>payload_samples := x1, payload_total := x2, payload_avg := x3\<rparr>"
    using pkt_received_frame [OF b1(1)] by blast
  let ?b2 = "b1\<lparr>strtok_save := None\<rparr>"
  have same: "rep_info ?b2 = ?r" "e_realtime ?b2 = e_realtime b" "clock ?b2 = clock b" by (simp_all add: f1)
  have win: "win_ok ?r" and ts: "ts_ok (window_start ?r)" "ts_ok (e_realtime b (clock b))"
      "0 \<le> elapsed_ns (window_start ?r) (e_realtime b (clock b))"
    using assms(12) by (simp_all add: dp_inv_def clock_ok_def)
  obtain sc where sc: "time_score (window_start ?r) (e_realtime b (clock b)) (window_size ?r) = Some sc" "0 \<le> sc" "sc \<le> 100"
    using time_score_in_window [OF ts(1,2,3) assms(19,17,18)] by blast
  let ?x = "new_entry ?r idy (atof ?v) sc"
  let ?b' = "(tick ?b2)\<lparr>rep_info := with_entry ?r (fp_conv fround32 (atof ?v)) ?x\<rparr>"
  have "msgarrvd ((''atlas/data/'' @ ?f) @ [NUL]) 0 ?p b = handle_data (Some ?f) (Some ?p) (length ?p) b1"
    by (rule data_message [OF assms(5) b1(1)])
  also have "\<dots> = collect_feedback idy (atof ?v) ?b2"
    using v(1) assms(8) by (intro handle_message [OF assms(7) ic v(2) vc]) simp
  also have "\<dots> = Some ?b'"
    using collect_fresh [of ?b2 idy sc "atof ?v"] assms(8,13-15) win sc(1) unfolding same
    by (simp add: ATLAS_DATA_PLANE_FEEDBACK_MAX_def ATLAS_IDENTITY_MAX_LEN_def)
  finally have msg: "msgarrvd ((''atlas/data/'' @ ?f) @ [NUL]) 0 ?p b = Some ?b'" .
  have val: "atof ?v = fround64 neg (of_int (round_half_even (m * 1000000)) / 1000000)"
    unfolding atof_def by (rule strtod_fmt_f [OF m(1)])
  have room: "feedback_length ?r < length (feedback_arr ?r)" "feedback_length ?r < length (sensor_val ?r)"
    using win assms(14) by (simp_all add: win_ok_def ATLAS_DATA_PLANE_FEEDBACK_MAX_def)
  have "entries (rep_info ?b') = entries ?r @ [?x]" using entries_snoc [OF room(1)] by simp
  moreover have "fb_time_score ?x \<le> 100" using u16_of_score [OF sc(2,3)] by simp
  moreover have "fb_sensor_score ?x = get_sensor_feedback (abs_val (fp_sub fround64
      (fround64 neg (of_int (round_half_even (m * 1000000)) / 1000000)) (fp_of_int fround64 (target_value ?r))))"
    using assms(16) by (simp add: new_entry_def val del: fmt_f.simps)
  moreover have "sensor_val (rep_info ?b') ! feedback_length ?r =
      fp_conv fround32 (fround64 neg (of_int (round_half_even (m * 1000000)) / 1000000))"
    using room(2) by (simp add: with_entry_def val del: fmt_f.simps)
  moreover have "payload_samples ?b' = payload_samples b + 1" using b1(2) by (simp add: tick_def)
  ultimately show ?thesis using pub msg
    by (intro exI [of _ "mqtt_emit (Mqtt_publish (''atlas/data/'' @ ?f) (pi_qos (publish_str a ! i)) ?p) (tick a)"]
        exI [of _ ?p] exI [of _ ?b'] exI [of _ ?x] conjI) (simp_all add: mqtt_emit_def tick_def del: fmt_f.simps)
qed

text \<open>
  C10. Three messages the collection does not survive: \<open>handle_data\<close> copies a payload longer than its
  256 bytes past its array; in an active window it writes the entry of the 257th device past the
  arrays, because the check of the length lets 256 through; and it copies an identity of 64 or more
  characters past its 64 bytes.
\<close>

theorem peer_overflows:
  assumes "win_ok (rep_info s)" and "feedback_active (rep_info s) \<noteq> 0"
    and "c \<noteq> []" and "\<forall>x \<in> set c. x \<noteq> CHR '':'' \<and> x \<noteq> NUL" and "v \<noteq> []" and "\<forall>x \<in> set v. x \<noteq> CHR '':'' \<and> x \<noteq> NUL"
    and "c \<notin> fb_identity ` set (entries (rep_info s))"
  shows "(256 < length (str_bytes (c @ CHR '':'' # v)) \<longrightarrow>
      handle_data (Some f) (Some (str_bytes (c @ CHR '':'' # v))) (length (str_bytes (c @ CHR '':'' # v))) s = None) \<and>
    (feedback_length (rep_info s) = 256 \<longrightarrow> length c + length v < 255 \<longrightarrow>
      handle_data (Some f) (Some (str_bytes (c @ CHR '':'' # v))) (length (str_bytes (c @ CHR '':'' # v))) s = None) \<and>
    (64 \<le> length c \<longrightarrow> length c + length v < 255 \<longrightarrow>
      handle_data (Some f) (Some (str_bytes (c @ CHR '':'' # v))) (length (str_bytes (c @ CHR '':'' # v))) s = None)"
proof (intro conjI impI)
  assume "256 < length (str_bytes (c @ CHR '':'' # v))"
  then show "handle_data (Some f) (Some (str_bytes (c @ CHR '':'' # v))) (length (str_bytes (c @ CHR '':'' # v))) s = None"
    by (simp add: handle_data_def ATLAS_DATA_PLANE_BUFFER_LEN_def)
next
  assume full: "feedback_length (rep_info s) = 256" and len: "length c + length v < 255"
  have "\<not> ATLAS_DATA_PLANE_FEEDBACK_MAX < 256" "length (feedback_arr (rep_info s)) \<le> 256"
    using assms(1) by (simp_all add: win_ok_def ATLAS_DATA_PLANE_FEEDBACK_MAX_def)
  then show "handle_data (Some f) (Some (str_bytes (c @ CHR '':'' # v))) (length (str_bytes (c @ CHR '':'' # v))) s = None"
    unfolding handle_message [OF assms(3-6) len] using assms(2,7) full by (simp add: collect_eq)
next
  assume long: "64 \<le> length c" and len: "length c + length v < 255"
  have "\<not> ATLAS_DATA_PLANE_FEEDBACK_MAX < feedback_length (rep_info s)" using assms(1) by (simp add: win_ok_def)
  then show "handle_data (Some f) (Some (str_bytes (c @ CHR '':'' # v))) (length (str_bytes (c @ CHR '':'' # v))) s = None"
    unfolding handle_message [OF assms(3-6) len] using assms(2,7) long by (simp add: collect_eq ATLAS_IDENTITY_MAX_LEN_def)
qed

text \<open>
  C9. The start of a window is not atomic: the reputation thread publishes the request for values and
  activates the window before it sets the start time, so an answer that arrives in between is
  measured from the old start. When this lies two windows back, which it does in the first window
  of the process, whose start time is zero, the conversion of the time score is undefined.
\<close>

theorem window_start_race:
  assumes "rep_thread s = Some Q_Activate" and "win_ok (rep_info s)" and "feedback_length (rep_info s) = 0"
    and "0 < window_size (rep_info s)" and "window_size (rep_info s) * 1000 < 2 ^ 31"
    and "ts_ok (window_start (rep_info s))" and "ts_ok (e_realtime s (clock s))"
    and "2 * window_size (rep_info s) * 1000000000 \<le> elapsed_ns (window_start (rep_info s)) (e_realtime s (clock s))"
    and "elapsed_ns (window_start (rep_info s)) (e_realtime s (clock s)) < 10000000000 * 1000000000"
    and "c \<noteq> []" and "length c < 64" and "\<forall>x \<in> set c. x \<noteq> CHR '':'' \<and> x \<noteq> NUL"
    and "v \<noteq> []" and "length v \<le> 100" and "\<forall>x \<in> set v. x \<noteq> CHR '':'' \<and> x \<noteq> NUL" and "NUL \<notin> set f"
  shows "\<exists>t. reputation_query_task s = Some t \<and> rep_thread t = Some Q_Reset \<and>
    msgarrvd ((''atlas/data/'' @ f) @ [NUL]) 0 (str_bytes (c @ CHR '':'' # v)) t = None"
proof -
  let ?p = "str_bytes (c @ CHR '':'' # v)"
  let ?t = "(upd_rep (\<lambda>r. r\<lparr>feedback_active := 1\<rparr>) s)\<lparr>rep_thread := Some Q_Reset\<rparr>"
  have t: "reputation_query_task s = Some ?t" using assms(1) by (simp add: reputation_query_task_def)
  have late: "time_score (window_start (rep_info s)) (e_realtime s (clock s)) (window_size (rep_info s)) = None"
    by (rule time_score_late [OF assms(6,7,8,4,5,9)])
  have "msgarrvd ((''atlas/data/'' @ f) @ [NUL]) 0 ?p ?t = None"
  proof (cases "atlas_pkt_received (int (length ?p)) ?t")
    case None
    have "NUL \<notin> set (''atlas/data/'' @ f)" using assms(16) by simp
    from topic_name [OF this] None show ?thesis by (simp add: msgarrvd_def)
  next
    case (Some u)
    then obtain x y z where u: "u = ?t\<lparr>payload_samples := x, payload_total := y, payload_avg := z\<rparr>"
      using pkt_received_frame by blast
    have "msgarrvd ((''atlas/data/'' @ f) @ [NUL]) 0 ?p ?t = handle_data (Some f) (Some ?p) (length ?p) u"
      by (rule data_message [OF assms(16) Some])
    also have "\<dots> = collect_feedback c (atof v) (u\<lparr>strtok_save := None\<rparr>)"
      using assms(11,14) by (intro handle_message [OF assms(10,12,13,15)]) simp
    also have "\<dots> = None"
      using assms(3) late by (simp add: collect_eq u upd_rep_def entries_def ATLAS_DATA_PLANE_FEEDBACK_MAX_def)
    finally show ?thesis .
  qed
  with t show ?thesis by (intro exI [of _ ?t]) simp
qed

section \<open>Witnesses\<close>

definition dp_demo :: data_plane where
  "dp_demo = \<lparr>clock = 0, fds = [0, 1, 2], outs = [], e_fd = (\<lambda>n. 3 + int n), agent_fd = 2,
     client_qos = 1, client_packets_per_min = 60, client_packets_maxlen = 512,
     payload_samples = 0, payload_total = 0, payload_avg = 0,
     e_connect = (\<lambda>_. True), e_write = (\<lambda>_. True), e_answer = (\<lambda>_. None),
     publish_str = [\<lparr>pi_feature = ''temp'', publish_rate = 1, base_value = Fin False 20, deviation = Fin False (1 / 2),
       pi_qos = 1, packet_length = 0, publish_msg = Some 257, pi_thread = True\<rparr>],
     rep_info = zero_reputation\<lparr>rep_feature := ''temp'', query_rate := 60, target_value := 20, window_size := 10\<rparr>,
     rep_thread = Some Q_Activate, dp_identity = Some ''dev-1'', strtok_save = None, mqtt_out = [],
     e_random = (\<lambda>_. 0), e_realtime = (\<lambda>n. \<lparr>tv_sec = 1000 + int n, tv_nsec = 0\<rparr>),
     e_mqtt_create = (\<lambda>_. True), e_mqtt_connect = (\<lambda>_. True)\<rparr>"

text \<open>The same device inside its first window.\<close>

definition dp_open :: data_plane where
  "dp_open = dp_demo\<lparr>clock := 1, rep_thread := Some Q_Sleep, rep_info := (rep_info dp_demo)\<lparr>feedback_active := 1,
     window_start := \<lparr>tv_sec = 1000, tv_nsec = 0\<rparr>\<rparr>\<rparr>"

lemma demo_clock: "clock_ok dp_demo" "\<forall>k. 0 \<le> elapsed_ns epoch (e_realtime dp_demo k)"
  by (simp_all add: clock_ok_def dp_demo_def ts_ok_def elapsed_ns_def epoch_def)

lemma demo_inv: "dp_inv dp_demo"
proof (rule dp_inv_start [OF _ _ demo_clock])
  show "rep_info dp_demo = zero_reputation\<lparr>rep_feature := ''temp'', query_rate := 60, target_value := 20, window_size := 10\<rparr>"
    by (simp add: dp_demo_def)
qed simp

lemma demo_open_run: "dp_step\<^sup>*\<^sup>* dp_demo dp_open"
proof -
  have "dp_step dp_demo (dp_demo\<lparr>rep_thread := Some Q_Reset, rep_info := (rep_info dp_demo)\<lparr>feedback_active := 1\<rparr>\<rparr>)"
    by (rule dp_step.Query) (simp add: reputation_query_task_def dp_demo_def upd_rep_def)
  moreover have "dp_step \<dots> (dp_demo\<lparr>rep_thread := Some Q_Stamp, rep_info := (rep_info dp_demo)\<lparr>feedback_active := 1\<rparr>\<rparr>)"
    by (rule dp_step.Query) (simp add: reputation_query_task_def dp_demo_def upd_rep_def zero_reputation_def)
  moreover have "dp_step \<dots> dp_open"
    by (rule dp_step.Query) (simp add: reputation_query_task_def dp_demo_def upd_rep_def dp_open_def tick_def)
  ultimately show ?thesis by (meson converse_rtranclp_into_rtranclp rtranclp.rtrancl_refl)
qed

lemma open_inv: "dp_inv dp_open"
  by (rule dp_run_inv [OF demo_open_run demo_inv])

text \<open>A value collected in this window, and the way to its report.\<close>

lemma demo_send_run:
  "\<exists>t. dp_step\<^sup>*\<^sup>* dp_demo t \<and> rep_thread t = Some Q_Send \<and> map fb_identity (entries (rep_info t)) = [''dev-2''] \<and>
    (\<forall>k. e_write t k) \<and> agent_fd t \<in> set (fds t)"
proof -
  let ?p = "str_bytes (''dev-2'' @ CHR '':'' # ''19.5'')"
  let ?u = "dp_open\<lparr>payload_samples := 1, payload_total := 10, payload_avg := 10\<rparr>"
  have pkt: "atlas_pkt_received (int (length ?p)) dp_open = Some ?u"
    by (simp add: atlas_pkt_received_def int32_def dp_open_def dp_demo_def sdiv_pos)
  have win: "win_ok (rep_info ?u)" using open_inv by (simp add: dp_inv_def)
  have e: "entries (rep_info ?u) = []" "feedback_length (rep_info ?u) = 0" "feedback_active (rep_info ?u) \<noteq> 0" "target_value (rep_info ?u) = 20"
    by (simp_all add: dp_open_def dp_demo_def zero_reputation_def entries_def)
  obtain sc where sc: "time_score (window_start (rep_info ?u)) (e_realtime ?u (clock ?u)) (window_size (rep_info ?u)) = Some sc"
    using time_score_in_window [of "window_start (rep_info ?u)" "e_realtime ?u (clock ?u)" "window_size (rep_info ?u)"]
    by (auto simp: dp_open_def dp_demo_def ts_ok_def elapsed_ns_def)
  let ?x = "new_entry (rep_info ?u) ''dev-2'' (atof ''19.5'') sc"
  let ?r = "with_entry (rep_info ?u) (fp_conv fround32 (atof ''19.5'')) ?x"
  let ?v = "(tick (?u\<lparr>strtok_save := None\<rparr>))\<lparr>rep_info := ?r\<rparr>"
  have "msgarrvd ((''atlas/data/'' @ ''temp'') @ [NUL]) 0 ?p dp_open = Some ?v"
  proof -
    have "msgarrvd ((''atlas/data/'' @ ''temp'') @ [NUL]) 0 ?p dp_open = handle_data (Some ''temp'') (Some ?p) (length ?p) ?u"
      by (rule data_message [OF _ pkt]) simp
    also have "\<dots> = collect_feedback ''dev-2'' (atof ''19.5'') (?u\<lparr>strtok_save := None\<rparr>)" by (rule handle_message) simp_all
    also have "\<dots> = Some ?v"
      using collect_fresh [of "?u\<lparr>strtok_save := None\<rparr>" "''dev-2''" sc "atof ''19.5''"] e win sc
      by (simp add: ATLAS_DATA_PLANE_FEEDBACK_MAX_def ATLAS_IDENTITY_MAX_LEN_def)
    finally show ?thesis .
  qed
  then have s1: "dp_step dp_open ?v" by (rule dp_step.Message)
  let ?w1 = "(upd_rep (\<lambda>r. r\<lparr>feedback_active := 0\<rparr>) ?v)\<lparr>rep_thread := Some Q_Score\<rparr>"
  have s2: "dp_step ?v ?w1"
    by (rule dp_step.Query) (simp add: reputation_query_task_def dp_open_def tick_def)
  let ?w2 = "?w1\<lparr>rep_thread := Some Q_Send\<rparr>"
  have "average_scores (rep_info ?w1) = Some (rep_info ?w1)" using e(4) by (simp add: average_scores_def upd_rep_def with_entry_def)
  then have s3: "dp_step ?w1 ?w2"
    by (intro dp_step.Query) (simp add: reputation_query_task_def)
  have "dp_step\<^sup>*\<^sup>* dp_demo ?w2"
    using demo_open_run s1 s2 s3 by (meson rtranclp.rtrancl_into_rtrancl)
  moreover have "entries (rep_info ?w2) = entries ?r" by (simp add: upd_rep_def entries_def)
  moreover have "entries ?r = [?x]" using win e(1,2) by (subst entries_snoc) (simp_all add: win_ok_def ATLAS_DATA_PLANE_FEEDBACK_MAX_def)
  ultimately show ?thesis
    by (intro exI [of _ ?w2]) (simp add: upd_rep_def tick_def dp_open_def dp_demo_def)
qed


theorem window_reported_whole_witness:
  "\<exists>t u x. dp_step\<^sup>*\<^sup>* dp_demo t \<and> reputation_query_task t = Some u \<and> fb_identity x = ''dev-2'' \<and>
    outs u = outs t @ [Sock_write (agent_fd t) (feedback_msg x)]"
proof -
  obtain t where t: "dp_step\<^sup>*\<^sup>* dp_demo t" "rep_thread t = Some Q_Send" "map fb_identity (entries (rep_info t)) = [''dev-2'']"
    "\<forall>k. e_write t k" "agent_fd t \<in> set (fds t)"
    using demo_send_run by (elim exE conjE)
  have "rep_info dp_demo = zero_reputation\<lparr>rep_feature := ''temp'', query_rate := 60, target_value := 20, window_size := 10\<rparr>"
    by (simp add: dp_demo_def)
  from window_reported_whole [OF t(1) this _ demo_clock t(2,4,5)] obtain u where
    u: "reputation_query_task t = Some u" "outs u = outs t @ map (\<lambda>x. Sock_write (agent_fd t) (feedback_msg x)) (entries (rep_info t))"
    by auto
  obtain x where "entries (rep_info t) = [x]" "fb_identity x = ''dev-2''" using t(3) by auto
  with t(1) u show ?thesis by (intro exI conjI) simp_all
qed

theorem published_value_scored_witness:
  "\<exists>a' payload b' x. publish_feature_value 0 dp_demo = Some a' \<and> mqtt_out a' = [Mqtt_publish ''atlas/data/temp'' 1 payload] \<and>
    msgarrvd (''atlas/data/temp'' @ [NUL]) 0 payload dp_open = Some b' \<and> entries (rep_info b') = [x] \<and>
    fb_identity x = ''dev-1'' \<and> fb_sensor_score x = 95"
proof -
  have v: "random_number_generator (base_value (publish_str dp_demo ! 0)) (deviation (publish_str dp_demo ! 0))
      (e_random dp_demo (clock dp_demo)) = Fin False (39 / 2)"
  proof -
    have "random_number_generator (Fin False 20) (Fin False (1 / 2)) 0 = Fin False (39 / 2)" by code_simp
    then show ?thesis by (simp add: dp_demo_def)
  qed
  have "round_half_even (39 / 2 * 1000000) = 19500000" using round_half_even_of_int [of 19500000] by simp
  then have r: "fround64 False (of_int (round_half_even (39 / 2 * 1000000)) / 1000000) = Fin False (39 / 2)"
    using fround64_dyadic [of 39 1 False] by simp
  have half: "fround64 x (1 / 2) = Fin x (1 / 2)" for x using fround64_dyadic [of 1 1 x] by simp
  have "abs_val (fp_sub fround64 (Fin False (39 / 2)) (Fin False 20)) = Fin False (1 / 2)"
    using fround64_of_int [of "-1"] by (simp add: abs_val_def fp_sub_def sgn_val_def half Let_def)
  moreover have "get_sensor_feedback (Fin False (1 / 2)) = 95"
  proof -
    have near: "\<exists>r. fround64 False q = Fin False r \<and> \<bar>r - q\<bar> \<le> 1 / 2 ^ 54" if q: "0 \<le> q" "q < 1" for q
    proof -
      have "of_int 0 \<le> q" "q \<le> of_int 1" using q by simp_all
      then obtain r where r: "fround64 False q = Fin False r"
        by (rule fround64_between [of 0 q 1 False]) (use q in simp_all)
      then show ?thesis using fround64_error [of q 0 False r] q by simp
    qed
    obtain r1 where r1: "fround64 False (2 / 10) = Fin False r1" "\<bar>r1 - 2 / 10\<bar> \<le> 1 / 2 ^ 54" using near [of "2 / 10"] by auto
    obtain r2 where r2: "fround64 False (6 / 10) = Fin False r2" "\<bar>r2 - 6 / 10\<bar> \<le> 1 / 2 ^ 54" using near [of "6 / 10"] by auto
    have "r1 < 1 / 2" using abs_le_D1 [OF r1(2)] by simp
    moreover have "1 / 2 < r2" using abs_le_D2 [OF r2(2)] by simp
    ultimately show ?thesis using r1(1) r2(1) by (simp add: get_sensor_feedback_def sgn_val_def)
  qed
  ultimately have "get_sensor_feedback (abs_val (fp_sub fround64 (fround64 False (of_int (round_half_even (39 / 2 * 1000000)) / 1000000))
      (fp_of_int fround64 20))) = 95" using fround64_of_int [of 20] unfolding r by simp
  moreover have "target_value (rep_info dp_open) = 20" "entries (rep_info dp_open) = []" "mqtt_out dp_demo = []"
    "pi_feature (publish_str dp_demo ! 0) = ''temp''" "pi_qos (publish_str dp_demo ! 0) = 1"
    by (simp_all add: dp_open_def dp_demo_def zero_reputation_def entries_def)
  ultimately show ?thesis
    using published_value_scored [OF _ _ _ _ _ _ _ _ _ _ v open_inv, of "''dev-1''"]
    by (simp add: dp_demo_def dp_open_def zero_reputation_def entries_def elapsed_ns_def) blast
qed

text \<open>A window with 256 devices.\<close>

definition full_window :: reputation where
  "full_window = zero_reputation\<lparr>feedback_active := 1, feedback_length := 256,
     feedback_arr := map (\<lambda>i. zero_feedback\<lparr>fb_identity := show_dec i\<rparr>) [0..<256]\<rparr>"

lemma show_dec_inj: "show_dec i = show_dec j \<Longrightarrow> i = j"
  by (metis digits_num_show_dec)

lemma full_window_ok: "win_ok full_window" "c \<notin> range show_dec \<Longrightarrow> c \<notin> fb_identity ` set (entries full_window)"
proof -
  have e: "entries full_window = map (\<lambda>i. zero_feedback\<lparr>fb_identity := show_dec i\<rparr>) [0..<256]"
    by (simp add: entries_def full_window_def)
  then have ids: "map fb_identity (entries full_window) = map show_dec [0..<256]" by (simp add: comp_def)
  have "length (show_dec i) \<le> 3" if "i < 256" for i using that by (intro length_show_dec) simp_all
  then have "length (show_dec i) < 64" if "i < 256" for i using that by fastforce
  moreover have "inj_on show_dec A" for A using show_dec_inj by (meson inj_onI)
  then have "distinct (map fb_identity (entries full_window))" unfolding ids by (simp add: distinct_map)
  ultimately show "win_ok full_window"
    by (auto simp: win_ok_def full_window_def zero_reputation_def ATLAS_DATA_PLANE_FEEDBACK_MAX_def
        ATLAS_IDENTITY_MAX_LEN_def zero_feedback_def entries_def)
  show "c \<notin> fb_identity ` set (entries full_window)" if "c \<notin> range show_dec"
    using that unfolding e by auto
qed

theorem peer_overflows_witness:
  "handle_data (Some ''temp'') (Some (str_bytes (''dev-2'' @ CHR '':'' # ''19.5''))) 10 (dp_open\<lparr>rep_info := full_window\<rparr>) = None \<and>
   handle_data (Some ''temp'') (Some (str_bytes (''dev-2'' @ CHR '':'' # replicate 300 CHR ''1''))) 306 dp_open = None"
proof
  have "\<not> c_isdigit CHR ''d''" by (simp add: c_isdigit_def)
  then have new: "''dev-2'' \<notin> range show_dec" using show_dec_digits by (metis list.pred_inject(2) rangeE)
  have "win_ok (rep_info (dp_open\<lparr>rep_info := full_window\<rparr>))" "feedback_active (rep_info (dp_open\<lparr>rep_info := full_window\<rparr>)) \<noteq> 0"
    "''dev-2'' \<notin> fb_identity ` set (entries (rep_info (dp_open\<lparr>rep_info := full_window\<rparr>)))"
    using full_window_ok(1) full_window_ok(2) [OF new] by (simp_all add: full_window_def)
  from peer_overflows [OF this(1,2) _ _ _ _ this(3), of "''19.5''" "''temp''"]
  have "handle_data (Some ''temp'') (Some (str_bytes (''dev-2'' @ CHR '':'' # ''19.5'')))
      (length (str_bytes (''dev-2'' @ CHR '':'' # ''19.5''))) (dp_open\<lparr>rep_info := full_window\<rparr>) = None"
    by (simp add: full_window_def)
  moreover have "length (str_bytes (''dev-2'' @ CHR '':'' # ''19.5'')) = 10" by simp
  ultimately show "handle_data (Some ''temp'') (Some (str_bytes (''dev-2'' @ CHR '':'' # ''19.5''))) 10
      (dp_open\<lparr>rep_info := full_window\<rparr>) = None" by (simp only:)
  have "win_ok (rep_info dp_open)" "feedback_active (rep_info dp_open) \<noteq> 0" "''dev-2'' \<notin> fb_identity ` set (entries (rep_info dp_open))"
    using open_inv by (simp_all add: dp_inv_def) (simp_all add: dp_open_def dp_demo_def zero_reputation_def entries_def)
  from peer_overflows [OF this(1,2) _ _ _ _ this(3), of "replicate 300 CHR ''1''" "''temp''"]
  show "handle_data (Some ''temp'') (Some (str_bytes (''dev-2'' @ CHR '':'' # replicate 300 CHR ''1''))) 306 dp_open = None"
    by simp
qed

theorem window_start_race_witness:
  "\<exists>t. reputation_query_task dp_demo = Some t \<and> rep_thread t = Some Q_Reset \<and>
    msgarrvd ((''atlas/data/'' @ ''temp'') @ [NUL]) 0 (str_bytes (''dev-2'' @ CHR '':'' # ''19.5'')) t = None"
proof (rule window_start_race)
  show "win_ok (rep_info dp_demo)" using demo_inv by (simp add: dp_inv_def)
qed (simp_all add: dp_demo_def zero_reputation_def ts_ok_def elapsed_ns_def)

end
