(* ===== verification/Data_Plane_Setup.thy ===== *)
theory Data_Plane_Setup
  imports Data_Plane_Window
begin

text \<open>
  The start of the data plane application: how the values of \<open>--publish\<close>, \<open>--subscribe\<close> and
  \<open>--reputation\<close> are cut by \<open>strtok\<close> into features, topics and the settings of the reputation
  thread, and what happens when a message arrives while the main thread still parses.
\<close>

section \<open>Lemmas: tokens\<close>

fun join_colon :: "string list \<Rightarrow> string" where
  "join_colon [] = []"
| "join_colon [t] = t"
| "join_colon (t # u # us) = t @ CHR '':'' # join_colon (u # us)"

definition token :: "string \<Rightarrow> bool" where
  "token t \<longleftrightarrow> t \<noteq> [] \<and> (\<forall>c \<in> set t. c \<noteq> CHR '':'' \<and> c \<noteq> NUL)"

text \<open>\<open>strtok\<close> over joined tokens.\<close>

lemma tok_first:
  assumes "token t"
  shows "tok CHR '':'' (Some (join_colon (t # ts) @ [NUL])) s = Some (Some t, s\<lparr>strtok_save := Some (join_colon ts @ [NUL])\<rparr>)"
proof (cases ts)
  case Nil
  then show ?thesis using assms strtok_delim(3) [of t "CHR '':''" "[]" "strtok_save s"] by (simp add: tok_def token_def)
next
  case (Cons u us)
  then show ?thesis
    using assms strtok_delim(1) [of t "CHR '':''" "join_colon (u # us) @ [NUL]" "strtok_save s"] by (simp add: tok_def token_def)
qed

lemma tok_next:
  assumes "strtok_save s = Some (join_colon ts @ [NUL])" and "\<forall>t \<in> set ts. token t"
  shows "tok CHR '':'' None s = Some (case ts of [] \<Rightarrow> (None, s) | t # us \<Rightarrow> (Some t, s\<lparr>strtok_save := Some (join_colon us @ [NUL])\<rparr>))"
proof (cases ts)
  case Nil
  then have "s = s\<lparr>strtok_save := Some [NUL]\<rparr>" using assms(1) by simp
  then show ?thesis using Nil assms(1) strtok_end [of "CHR '':''" "[]"] by (simp add: tok_def)
next
  case (Cons t us)
  then have t: "t \<noteq> []" "\<forall>c \<in> set t. c \<noteq> CHR '':'' \<and> c \<noteq> NUL" using assms(2) by (simp_all add: token_def)
  show ?thesis
  proof (cases us)
    case Nil
    then show ?thesis using Cons assms(1) strtok_delim(4) [OF t, of "[]"] by (simp add: tok_def)
  next
    case (Cons u vs)
    then show ?thesis
      using \<open>ts = t # us\<close> assms(1) strtok_delim(2) [OF t, of "join_colon (u # vs) @ [NUL]"] by (simp add: tok_def)
  qed
qed

lemma length_join: "\<forall>t \<in> set ts. token t \<Longrightarrow> length ts \<le> length (join_colon ts)"
proof (induction ts rule: join_colon.induct)
  case (2 t)
  then show ?case by (cases t) (simp_all add: token_def)
qed auto

lemma join_chars: "c \<in> set (join_colon ts) \<Longrightarrow> c = CHR '':'' \<or> (\<exists>t \<in> set ts. c \<in> set t)"
  by (induction ts rule: join_colon.induct) auto

lemma join_nonempty: "\<forall>t \<in> set ts. token t \<Longrightarrow> ts \<noteq> [] \<Longrightarrow> join_colon ts \<noteq> []"
  by (cases ts rule: join_colon.cases) (auto simp: token_def)

section \<open>Lemmas: the publish argument\<close>

text \<open>The six fields of a feature, and what the program makes of them.\<close>

record publish_spec =
  sp_feature :: string
  sp_rate :: string
  sp_base :: string
  sp_dev :: string
  sp_qos :: string
  sp_len :: string

definition spec_tokens :: "publish_spec \<Rightarrow> string list" where
  "spec_tokens p = [sp_feature p, sp_rate p, sp_base p, sp_dev p, sp_qos p, sp_len p]"

definition spec_info :: "publish_spec \<Rightarrow> publish_info" where
  "spec_info p = \<lparr>pi_feature = sp_feature p, publish_rate = atoi (sp_rate p),
     base_value = fp_conv fround32 (atof (sp_base p)), deviation = fp_conv fround32 (atof (sp_dev p)), pi_qos = atoi (sp_qos p),
     packet_length = (if sp_len p = ''default'' then 0 else atoi (sp_len p)),
     publish_msg = (if sp_len p = ''default'' then Some 257 else if atoi (sp_len p) < 0 then None else Some (nat (atoi (sp_len p)))),
     pi_thread = True\<rparr>"

definition spec_ok :: "publish_spec \<Rightarrow> bool" where
  "spec_ok p \<longleftrightarrow> (\<forall>t \<in> set (spec_tokens p). token t) \<and> length (sp_feature p) < 32"

lemma traffic_body_spec:
  assumes "spec_ok p" and "\<forall>t \<in> set ts. token t" and "i < length (publish_str s)"
    and "strtok_save s = Some (join_colon (tl (spec_tokens p) @ ts) @ [NUL])"
  shows "traffic_body clientid i (sp_feature p) s = Some (case ts of [] \<Rightarrow> None | t # _ \<Rightarrow> Some t,
    s\<lparr>publish_str := (publish_str s)[i := spec_info p], strtok_save := Some (join_colon (tl ts) @ [NUL]),
      mqtt_out := mqtt_out s @ [Mqtt_subscribe (''atlas/request/'' @ sp_feature p) 2]\<rparr>)"
proof -
  have tk: "token (sp_rate p)" "token (sp_base p)" "token (sp_dev p)" "token (sp_qos p)" "token (sp_len p)" "length (sp_feature p) < 32"
    using assms(1) by (simp_all add: spec_ok_def spec_tokens_def)
  have save: "strtok_save s = Some (join_colon (sp_rate p # sp_base p # sp_dev p # sp_qos p # sp_len p # ts) @ [NUL])"
    using assms(4) by (simp add: spec_tokens_def)
  have step: "tok CHR '':'' None u = Some (Some t, u\<lparr>strtok_save := Some (join_colon us @ [NUL])\<rparr>)"
    if "strtok_save u = Some (join_colon (t # us) @ [NUL])" "\<forall>t \<in> set (t # us). token t" for t us and u :: "'a data_plane_scheme"
    using tok_next [OF that] by simp
  have last: "tok CHR '':'' None u = Some (case ts of [] \<Rightarrow> None | t # _ \<Rightarrow> Some t, u\<lparr>strtok_save := Some (join_colon (tl ts) @ [NUL])\<rparr>)"
    if "strtok_save u = Some (join_colon ts @ [NUL])" for u :: "'a data_plane_scheme"
  proof (cases ts)
    case Nil
    then have "u = u\<lparr>strtok_save := Some [NUL]\<rparr>" using that by simp
    then show ?thesis using tok_next [OF that assms(2)] Nil by simp
  qed (use tok_next [OF that assms(2)] in simp)
  show ?thesis
    unfolding traffic_body_def using assms(2,3) tk
    by (simp add: step [OF save] step last tok_int_def tok_fp_def spec_info_def subscribe_def mqtt_emit_def Let_def fits_def
        ATLAS_DATA_PLANE_FEATURE_MAX_LEN_def ATLAS_DATA_PLANE_BUFFER_LEN_def ATLAS_PACKET_LENGTH_DEFAULT_def
        ATLAS_DATA_PLANE_REQUEST_REPUTATION_TOPIC_def del: join_colon.simps)
qed

text \<open>A feature without all its fields: the next field is read through a NULL pointer.\<close>

lemma traffic_body_short:
  assumes "\<forall>t \<in> set ts. token t" and "length ts < 5" and "strtok_save s = Some (join_colon ts @ [NUL])"
  shows "traffic_body clientid i p s = None"
proof -
  have null: "tok CHR '':'' None u = Some (None, u)" if "strtok_save u = Some (join_colon [] @ [NUL])" for u :: "'a data_plane_scheme"
    using tok_next [OF that] by simp
  have step: "tok CHR '':'' None u = Some (Some t, u\<lparr>strtok_save := Some (join_colon us @ [NUL])\<rparr>)"
    if "strtok_save u = Some (join_colon (t # us) @ [NUL])" "token t" "\<forall>t \<in> set us. token t" for t us and u :: "'a data_plane_scheme"
    using tok_next [OF that(1)] that(2,3) by simp
  consider "ts = []" | a where "ts = [a]" | a b where "ts = [a, b]" | a b c where "ts = [a, b, c]" | a b c d where "ts = [a, b, c, d]"
    using assms(2) by (cases ts rule: list.exhaust; cases "tl ts" rule: list.exhaust; cases "tl (tl ts)" rule: list.exhaust;
      cases "tl (tl (tl ts))" rule: list.exhaust) auto
  then show ?thesis
    unfolding traffic_body_def
  proof cases
  qed (use assms(1,3) in \<open>auto simp: step null tok_int_def tok_fp_def simp del: join_colon.simps split: bind_splits\<close>)
qed

lemma traffic_loop_specs:
  assumes "list_all spec_ok ps" and "\<forall>t \<in> set rs. token t" and "length rs < 6"
    and "i + length ps + (if rs = [] then 0 else 1) \<le> length (publish_str s)"
    and "concat (map spec_tokens ps) @ rs = t # ts" and "strtok_save s = Some (join_colon ts @ [NUL])"
    and "length ps + (if rs = [] then 0 else 1) \<le> n"
  shows "traffic_loop n clientid i (Some t) s = (if rs \<noteq> [] then None else
    Some (s\<lparr>publish_str := take i (publish_str s) @ map spec_info ps @ drop (i + length ps) (publish_str s),
      strtok_save := Some [NUL],
      mqtt_out := mqtt_out s @ map (\<lambda>p. Mqtt_subscribe (''atlas/request/'' @ sp_feature p) 2) ps\<rparr>))"
  using assms
proof (induction ps arbitrary: i s t ts n)
  case Nil
  then obtain m where n: "n = Suc m" and rs: "rs = t # ts" by (cases n) auto
  have "traffic_body clientid i t s = None" using Nil rs by (intro traffic_body_short [of ts]) simp_all
  then show ?case using n rs by simp
next
  case (Cons p ps)
  then obtain m where n: "n = Suc m" by (cases n) auto
  let ?us = "concat (map spec_tokens ps) @ rs"
  have t: "t = sp_feature p" "ts = tl (spec_tokens p) @ ?us" using Cons.prems(5) by (auto simp: spec_tokens_def [of p])
  have us: "\<forall>u \<in> set ?us. token u" using Cons.prems(1,2) by (auto simp: list_all_iff spec_ok_def)
  let ?s = "s\<lparr>publish_str := (publish_str s)[i := spec_info p], strtok_save := Some (join_colon (tl ?us) @ [NUL]),
      mqtt_out := mqtt_out s @ [Mqtt_subscribe (''atlas/request/'' @ sp_feature p) 2]\<rparr>"
  have i: "i < length (publish_str s)" using Cons.prems(4) by simp
  have body: "traffic_body clientid i t s = Some (case ?us of [] \<Rightarrow> None | u # _ \<Rightarrow> Some u, ?s)"
    unfolding t(1) by (rule traffic_body_spec [OF _ us i]) (use Cons.prems(1,6) t(2) in simp_all)
  have arr: "take i (publish_str s) @ spec_info p # drop (Suc i) (publish_str s) = (publish_str s)[i := spec_info p]"
    using i by (simp add: upd_conv_take_nth_drop)
  show ?case
  proof (cases ?us)
    case Nil
    then have "ps = []" "rs = []" by (cases ps; simp add: spec_tokens_def)+
    then show ?thesis using body n arr by simp
  next
    case (Cons u vs)
    have "traffic_loop m clientid (Suc i) (Some u) ?s = (if rs \<noteq> [] then None else
      Some (?s\<lparr>publish_str := take (Suc i) (publish_str ?s) @ map spec_info ps @ drop (Suc i + length ps) (publish_str ?s),
        strtok_save := Some [NUL],
        mqtt_out := mqtt_out ?s @ map (\<lambda>p. Mqtt_subscribe (''atlas/request/'' @ sp_feature p) 2) ps\<rparr>))"
      by (rule Cons.IH [OF _ Cons.prems(2,3) _ Cons]) (use Cons.prems Cons n in simp_all)
    moreover have "take (Suc i) (publish_str ?s) = take i (publish_str s) @ [spec_info p]"
      using i by (simp add: take_Suc_conv_app_nth)
    ultimately show ?thesis using body n Cons by simp
  qed
qed

section \<open>Lemmas: the reputation argument\<close>

text \<open>Four fields: the thread starts with a zeroed window, or the process exits.\<close>

lemma set_reputation_fields:
  assumes "token f" "token r" "token w" "token t" and "length f < 32"
  shows "set_reputation (join_colon [f, r, w, t]) s = Some (if atoi r \<le> atoi w then Inl 1 else
    Inr (s\<lparr>rep_info := zero_reputation\<lparr>rep_feature := f, query_rate := atoi r,
      target_value := (if t = ''average'' then -1 else atoi t), window_size := atoi w\<rparr>,
      rep_thread := Some Q_Request, strtok_save := Some [NUL]\<rparr>))"
proof -
  have step: "tok CHR '':'' None u = Some (Some t, u\<lparr>strtok_save := Some (join_colon us @ [NUL])\<rparr>)"
    if "strtok_save u = Some (join_colon (t # us) @ [NUL])" "token t" "\<forall>t \<in> set us. token t" for t us and u :: "'a data_plane_scheme"
    using tok_next [OF that(1)] that(2,3) by simp
  show ?thesis
    unfolding set_reputation_def using assms
    by (simp add: tok_first step tok_int_def fits_def ATLAS_DATA_PLANE_FEATURE_MAX_LEN_def ATLAS_REPUTATION_FEEDBACK_AVERAGE_def
        del: join_colon.simps(2,3))
qed

text \<open>The loops over the publish and the subscribe argument.\<close>

lemma traffic_generator_specs:
  assumes "list_all spec_ok ps" and "\<forall>t. t \<in> set rs \<longrightarrow> token t" and "length rs < 6" and "ps \<noteq> [] \<or> rs \<noteq> []"
    and "length (publish_str s) = 32" and "length ps + length rs \<le> 32"
  shows "traffic_generator clientid (join_colon (concat (map spec_tokens ps) @ rs)) s =
    (if rs \<noteq> [] then None else Some (s\<lparr>publish_str := map spec_info ps @ drop (length ps) (publish_str s),
       strtok_save := Some [NUL],
       mqtt_out := mqtt_out s @ map (\<lambda>p. Mqtt_subscribe (''atlas/request/'' @ sp_feature p) 2) ps\<rparr>))"
proof -
  let ?us = "concat (map spec_tokens ps) @ rs"
  have us: "\<forall>t \<in> set ?us. token t" using assms(1,2) by (auto simp: list_all_iff spec_ok_def)
  have "?us \<noteq> []" using assms(4) by (cases ps) (auto simp: spec_tokens_def)
  then obtain t ts where t: "?us = t # ts" by (cases ?us) auto
  have first: "tok CHR '':'' (Some (join_colon ?us @ [NUL])) s = Some (Some t, s\<lparr>strtok_save := Some (join_colon ts @ [NUL])\<rparr>)"
    unfolding t by (rule tok_first) (use us t in simp)
  have "length (concat (map spec_tokens ps)) = 6 * length ps" by (induction ps) (simp_all add: spec_tokens_def)
  then have "length ps + (if rs = [] then 0 else 1) \<le> length ?us" by (cases rs) simp_all
  then have n: "length ps + (if rs = [] then 0 else 1) \<le> length (join_colon ?us)" using length_join [OF us] by (rule order_trans)
  have "0 + length ps + (if rs = [] then 0 else 1) \<le> length (publish_str s)" using assms(5,6) by (cases rs) simp_all
  then have "traffic_loop (length (join_colon ?us)) clientid 0 (Some t) (s\<lparr>strtok_save := Some (join_colon ts @ [NUL])\<rparr>) =
     (if rs \<noteq> [] then None else
      Some (s\<lparr>publish_str := map spec_info ps @ drop (length ps) (publish_str s), strtok_save := Some [NUL],
      mqtt_out := mqtt_out s @ map (\<lambda>p. Mqtt_subscribe (''atlas/request/'' @ sp_feature p) 2) ps\<rparr>))"
    using traffic_loop_specs [OF assms(1) _ assms(3) _ t _ n, of 0 "s\<lparr>strtok_save := Some (join_colon ts @ [NUL])\<rparr>" clientid] assms(2)
    by simp
  then show ?thesis unfolding traffic_generator_def first by simp
qed

lemma subscribe_topics_join:
  assumes "token t" and "\<forall>u. u \<in> set us \<longrightarrow> token u \<and> CHR '','' \<notin> set u" and "us \<noteq> []"
    and "length t < 200" and "length (join_colon us) < 200"
  shows "subscribe_topics clientid (join_colon (t # us)) qos s = Some (s\<lparr>strtok_save := Some [NUL],
    mqtt_out := mqtt_out s @ [Mqtt_subscribe (''atlas/data/'' @ t) qos, Mqtt_subscribe (''atlas/data/'' @ join_colon us) qos]\<rparr>)"
proof -
  let ?r = "join_colon us"
  have r: "?r \<noteq> []" "\<forall>c \<in> set ?r. c \<noteq> CHR '','' \<and> c \<noteq> NUL"
    using join_chars [of _ us] join_nonempty [of us] assms(2,3) by (auto simp: token_def)
  have first: "tok CHR '':'' (Some (join_colon (t # us) @ [NUL])) s = Some (Some t, s\<lparr>strtok_save := Some (?r @ [NUL])\<rparr>)"
    by (rule tok_first [OF assms(1)])
  have follow: "tok CHR '','' None u = Some (Some ?r, u\<lparr>strtok_save := Some [NUL]\<rparr>)"
    if "strtok_save u = Some (?r @ [NUL])" for u :: "'a data_plane_scheme"
    using strtok_delim(4) [OF r, of "[]"] that by (simp add: tok_def)
  have last: "tok CHR '','' None u = Some (None, u\<lparr>strtok_save := Some [NUL]\<rparr>)"
    if "strtok_save u = Some [NUL]" for u :: "'a data_plane_scheme"
    using strtok_end [of "CHR '',''" "[]"] that by (simp add: tok_def)
  obtain n where n: "length (join_colon (t # us)) = Suc (Suc n)"
    using assms(1,3) by (cases us; cases t) (auto simp: token_def)
  show ?thesis
    unfolding subscribe_topics_def first n using assms(4,5)
    by (simp add: subscribe_body_def subscribe_def mqtt_emit_def follow last fits_def ATLAS_DATA_PLANE_BUFFER_LEN_def
        ATLAS_DATA_PLANE_DATA_TOPIC_def)
qed

section \<open>Properties\<close>



text \<open>
  C14. The subscribe argument is a list separated by colons (so says the usage), but only its first
  feature is cut off at a colon: after that \<open>strtok\<close> looks for commas, so the rest becomes one
  topic. With two features both topics are right; with more, the second names no feature.
\<close>

theorem subscribe_argument_cut_once:
  assumes "token t" and "\<forall>u. u \<in> set us \<longrightarrow> token u \<and> CHR '','' \<notin> set u" and "us \<noteq> []"
    and "length t < 200" and "length (join_colon us) < 200"
  shows "subscribe_topics clientid (join_colon (t # us)) qos s = Some (s\<lparr>strtok_save := Some [NUL],
    mqtt_out := mqtt_out s @ [Mqtt_subscribe (''atlas/data/'' @ t) qos, Mqtt_subscribe (''atlas/data/'' @ join_colon us) qos]\<rparr>)"
  using assms by (rule subscribe_topics_join)

theorem subscribe_argument_cut_once_witness:
  "subscribe_topics (Some ''dev-1'') ''temp:wind:light'' 1 dp_demo = Some (dp_demo\<lparr>strtok_save := Some [NUL],
     mqtt_out := [Mqtt_subscribe ''atlas/data/temp'' 1, Mqtt_subscribe ''atlas/data/wind:light'' 1]\<rparr>)"
proof -
  have "mqtt_out dp_demo = []" by (simp add: dp_demo_def)
  then show ?thesis
    using subscribe_argument_cut_once [of "''temp''" "[''wind'', ''light'']" "Some ''dev-1''" 1 dp_demo]
    by (simp add: token_def)
qed

text \<open>
  C13. \<open>strtok\<close> is shared between the threads: while the main thread subscribes to the topics of its
  argument, a value on a topic already subscribed to may arrive; \<open>handle_data\<close>, in the thread of the
  MQTT library, leaves \<open>strtok\<close> with a pointer into its own array, so the main thread's next call
  reads an object that is gone. Without the message the call goes on in the argument.
\<close>

theorem strtok_shared_between_threads:
  assumes "strtok_save s = Some (join_colon us @ [NUL])" and "\<forall>u. u \<in> set us \<longrightarrow> token u \<and> CHR '','' \<notin> set u" and "us \<noteq> []"
    and "feedback_active (rep_info s) = 0" and "0 \<le> payload_samples s" "payload_samples s < 2 ^ 30"
    and "0 \<le> payload_total s" "payload_total s < 2 ^ 30"
    and "token c" and "token v" and "length c + length v < 255" and "NUL \<notin> set f"
  shows "tok CHR '','' None (subscribe clientid topic qos s) =
      Some (Some (join_colon us), (subscribe clientid topic qos s)\<lparr>strtok_save := Some [NUL]\<rparr>) \<and>
    (\<exists>t. msgarrvd ((''atlas/data/'' @ f) @ [NUL]) 0 (str_bytes (c @ CHR '':'' # v)) (subscribe clientid topic qos s) = Some t \<and>
      tok CHR '','' None t = None)"
proof
  let ?s = "subscribe clientid topic qos s" and ?p = "str_bytes (c @ CHR '':'' # v)"
  have r: "join_colon us \<noteq> []" "\<forall>x \<in> set (join_colon us). x \<noteq> CHR '','' \<and> x \<noteq> NUL"
    using join_chars [of _ us] join_nonempty [of us] assms(2,3) by (auto simp: token_def)
  show "tok CHR '','' None ?s = Some (Some (join_colon us), ?s\<lparr>strtok_save := Some [NUL]\<rparr>)"
    using strtok_delim(4) [OF r, of "[]"] assms(1) by (simp add: tok_def subscribe_def mqtt_emit_def)
  have "int (length ?p) \<le> 256" using assms(11) by simp
  then obtain u where u: "atlas_pkt_received (int (length ?p)) ?s = Some u"
    using assms(5-8) by (simp add: atlas_pkt_received_def int32_def subscribe_def mqtt_emit_def del: length_str_bytes)
  obtain x y z where f: "u = ?s\<lparr>payload_samples := x, payload_total := y, payload_avg := z\<rparr>"
    using pkt_received_frame [OF u] by (elim exE)
  have "msgarrvd ((''atlas/data/'' @ f) @ [NUL]) 0 ?p ?s = handle_data (Some f) (Some ?p) (length ?p) u"
    by (rule data_message [OF assms(12) u])
  also have "\<dots> = collect_feedback c (atof v) (u\<lparr>strtok_save := None\<rparr>)"
    using assms(9-11) by (intro handle_message) (auto simp: token_def)
  also have "\<dots> = Some (u\<lparr>strtok_save := None\<rparr>)"
    using assms(4) by (simp add: collect_eq f subscribe_def mqtt_emit_def)
  finally show "\<exists>t. msgarrvd ((''atlas/data/'' @ f) @ [NUL]) 0 ?p ?s = Some t \<and> tok CHR '','' None t = None"
    by (intro exI [of _ "u\<lparr>strtok_save := None\<rparr>"] conjI) (simp_all add: tok_def strtok_def)
qed

theorem strtok_shared_between_threads_witness:
  "\<exists>t. msgarrvd (''atlas/data/temp'' @ [NUL]) 0 (str_bytes ''dev-2:19.5'')
      (subscribe (Some ''dev-1'') ''atlas/data/temp'' 1 (dp_demo\<lparr>strtok_save := Some (''wind'' @ [NUL])\<rparr>)) = Some t \<and>
    tok CHR '','' None t = None"
  using strtok_shared_between_threads [of "dp_demo\<lparr>strtok_save := Some (''wind'' @ [NUL])\<rparr>" "[''wind'']" "''dev-2''" "''19.5''" "''temp''"
      "Some ''dev-1''" "''atlas/data/temp''" 1]
  by (simp add: dp_demo_def token_def zero_reputation_def)

text \<open>
  A feature with the forced packet length 0 gets a buffer of 0 bytes and is published as one
  without forced length: the first publication writes past the buffer.
\<close>

lemma zero_length_overflows:
  assumes "spec_ok p" and "sp_len p \<noteq> ''default''" and "atoi (sp_len p) = 0" and "i < length (publish_str s)"
    and "publish_str s ! i = spec_info p" and "dp_identity s = Some idy"
  shows "publish_feature_value i s = None"
  using assms by (simp add: publish_feature_value_def spec_info_def spec_ok_def fits_def Let_def)

lemma atlas_init_later:
  assumes "atlas_init n q p m (Some idy) s = Some (st, idy', t)"
  shows "agent_later (s\<lparr>client_qos := q, client_packets_per_min := p, client_packets_maxlen := m\<rparr>) t"
proof -
  obtain s1 x where s1: "socket_connect n (s\<lparr>client_qos := q, client_packets_per_min := p, client_packets_maxlen := m\<rparr>) = Some s1"
    and id: "send_identity_command n idy s1 = Some (st, x, t)"
    using assms by (auto simp: atlas_init_def split: bind_splits)
  obtain b l s2 where "write_to_socket_retry n b l s1 = Some s2" "t = tick s2"
    using id by (auto simp: send_identity_command_def sock_read_def Let_def split: bind_splits if_splits prod.splits)
  then show ?thesis
    using retry_later(1) [OF s1] retry_later(3) agent_later_tick agent_later_trans by blast
qed

end
