(* ===== verification/Agent_Link.thy ===== *)
theory Agent_Link
  imports Agent
begin

text \<open>
  The data plane agent and the ATLAS client together: what one end of the Unix socket writes
  (theory Agent, src/data\_plane/atlas\_client.c) is what the other end reads (theory Connector,
  src/data\_plane\_connector/atlas\_data\_plane\_connector.c) and the other way round. The socket
  delivers messages whole, so \<open>e_read\<close> of the client, \<open>e_answer\<close> of the agent, answers with a
  message of the other side.

  The properties state that the agent's messages always have the format the client's handlers
  rely on, and follow the policy, the statistics, the identity and a reputation from end to end.
\<close>

section \<open>Lemmas: the client's end\<close>

lemma read_message:
  assumes "e_read c (clock c) = Some (enc_tlvs xs)" and "xs \<noteq> []" and "length (enc_tlvs xs) \<le> 2048"
  shows "atlas_data_plane_read_cb fd c = cmd_fold read_body xs (tick c)"
proof -
  have "length (enc_tlvs xs) < 65536" using assms(3) by simp
  then have "dec_tlvs (enc_tlvs xs) = Some xs" by (metis cmds.dec_enc wf_of_short)
  moreover have "length (enc_tlvs xs) \<noteq> 0" using assms(2) by (cases xs) simp_all
  then have "enc_tlvs xs \<noteq> []" by (metis list.size(3))
  ultimately show ?thesis using read_cb_fold [OF assms(1)] assms(3) by simp
qed

lemma u16_of_bytes_of_int: "u16_of_bytes (take 2 (bytes_of_int v @ rest)) = of_int v"
proof -
  have "u16_of_bytes [ucast w, ucast (drop_bit 8 w)] = ucast w" for w :: u32
    by (rule bit_word_eqI) (auto simp: u16_of_bytes.simps bit_simps not_le)
  moreover have "ucast (of_int v :: u32) = (of_int v :: u16)"
    by (rule bit_word_eqI) (simp add: bit_simps)
  ultimately show ?thesis by (simp add: bytes_of_int_def u32_bytes_def)
qed

text \<open>The client's state after it has read the statistics.\<close>

lemma read_statistics:
  assumes "e_read c (clock c) = Some (enc_tlvs [(1001, bytes_of_int n), (1002, bytes_of_int a)])"
  shows "atlas_data_plane_read_cb fd c = Some ((tick c)\<lparr>packets_per_min := of_int n, packets_avg := of_int a\<rparr>)"
proof -
  have "atlas_data_plane_read_cb fd c = cmd_fold read_body [(1001, bytes_of_int n), (1002, bytes_of_int a)] (tick c)"
    by (rule read_message [OF assms]) simp_all
  then show ?thesis
    using u16_of_bytes_of_int [of n "enc_tlvs [(1002, bytes_of_int a)]"] u16_of_bytes_of_int [of a "[]"]
    by (simp add: read_body_def set_packets_per_min_def set_packets_avg_def mem_read_def del: take_append)
qed

lemma read_identity_request:
  assumes "conn_env c" and "e_read c (clock c) = Some (enc_tlvs [(1003, [])])"
  shows "atlas_data_plane_read_cb fd c =
    Some (emit (Sock_write (connected_socket c) (enc_tlvs [(1004, str_bytes (identity_str c))])) (tick c))"
proof -
  have "atlas_data_plane_read_cb fd c = cmd_fold read_body [(1003, [])] (tick c)"
    by (rule read_message [OF assms(2)]) simp_all
  moreover have "ident_ok (tick c)" using assms(1) by (simp add: conn_env_def ident_ok_def tick_def)
  ultimately show ?thesis
    by (simp add: read_body_def data_plane_identity_refines) (simp add: tick_def atlas_identity_get_def)
qed

lemma read_reputation_request:
  assumes "conn_env c" and "e_read c (clock c) = Some (enc_tlvs [(1500, v)])" and "v \<noteq> []" and "length v \<le> 2000"
  shows "atlas_data_plane_read_cb fd c = sends ''gateway/reputation/feature'' ATLAS_COAP_METHOD_PUT
    [(2, str_bytes (identity_str c)), (1500, v)] 5000 Feature_reputation_callback (tick c)"
proof -
  have "atlas_data_plane_read_cb fd c = cmd_fold read_body [(1500, v)] (tick c)"
    by (rule read_message [OF assms(2)]) (use assms(4) in simp_all)
  moreover have "cfg_ok (tick c)" "ident_ok (tick c)" using assms(1) by (simp_all add: conn_env_def cfg_ok_def ident_ok_def tick_def)
  moreover have "unat (of_nat (length v) :: u16) = length v" using assms(4) by simp
  moreover from this have "(of_nat (length v) :: u16) \<noteq> 0" using assms(3) by (metis length_0_conv unat_0)
  ultimately have "atlas_data_plane_read_cb fd c = sends ATLAS_CLIENT_FEATURE_COAP_PATH ATLAS_COAP_METHOD_PUT
      (id_tlvs (tick c) 1500 v) 5000 Feature_reputation_callback (tick c)"
    using feature_handle_refines [of "tick c" "of_nat (length v)" v] assms(4)
    by (simp add: read_body_def option.map_ident_strong case_prod_beta split: option.splits bind_splits)
  then show ?thesis by (simp add: id_tlvs_def ATLAS_CLIENT_FEATURE_COAP_PATH_def atlas_identity_get_def tick_def)
qed

section \<open>Lemmas: the agent's end\<close>

lemma connect_registers:
  assumes "-1 \<notin> set (fds s)" and "socket_connect n s = Some t"
  shows "reconnected (policy_msg s) s t"
proof (rule connect_reconnected [OF assms])
  fix u :: "'a agent_scheme"
  assume u: "-1 \<notin> set (fds u)" "policy_msg u = policy_msg s"
    "write_to_socket_retry n (Some (policy_msg s)) (of_nat (length (policy_msg s))) u = Some t"
  have "length (policy_msg s) < 65536" by (simp add: length_policy_msg)
  from retry_delivers [OF this u(1,3)] show "delivered (policy_msg s) (policy_msg s) u t" by (simp add: u(2))
qed

lemma send_identity_eq:
  "send_identity_command n idy s = do {
     s1 \<leftarrow> write_to_socket_retry n (Some (enc_tlvs [(1003, [])])) 4 s;
     let (bytes, s2) = sock_read s1;
     if bytes = [] then Some (ATLAS_SOCKET_ERROR, idy, s2)
     else do {
       (status, cmd_batch) \<leftarrow> atlas_cmd_batch_set_raw atlas_cmd_batch_new (Some bytes) (of_nat (length bytes));
       if status \<noteq> ATLAS_OK then Some (status, idy, s2)
       else do {
         idy1 \<leftarrow> cmd_loop identity_body cmd_batch None;
         Some (status, idy1, s2) } } }"
  by (simp add: send_identity_command_def batch_add_new atlas_cmd_batch_get_buf_mk)

lemma send_identity_state:
  assumes "send_identity_command n idy s = Some (st, idy', t)"
  obtains s1 where "write_to_socket_retry n (Some (enc_tlvs [(1003, [])])) 4 s = Some s1" "t = tick s1"
  using assms by (auto simp: send_identity_eq sock_read_def Let_def split: bind_splits if_splits)

text \<open>Starting up: a registration and the identity request, on one connection, are the last outputs.\<close>

lemma init_outputs:
  fixes s :: "'a agent_scheme" and q p m :: u16
  defines "reg \<equiv> policy_msg (s\<lparr>client_qos := q, client_packets_per_min := p, client_packets_maxlen := m\<rparr>)"
  assumes "-1 \<notin> set (fds s)" and "atlas_init n q p m (Some idy) s = Some (st, idy', t)"
  obtains pre f where "outs t = outs s @ pre @ [Sock_write f reg, Sock_write f (enc_tlvs [(1003, [])])]"
    "\<forall>x \<in> set pre. \<exists>g. x = Sock_write g reg" "-1 \<notin> set (fds t)"
proof -
  let ?s = "s\<lparr>client_qos := q, client_packets_per_min := p, client_packets_maxlen := m\<rparr>"
  let ?id = "enc_tlvs [(1003, [])]"
  obtain s1 idy1 where s1: "socket_connect n ?s = Some s1" and id: "send_identity_command n idy s1 = Some (st, idy1, t)"
    using assms(3) by (auto simp: atlas_init_def split: bind_splits)
  have r: "reconnected reg ?s s1" unfolding reg_def using assms(2) by (intro connect_registers [OF _ s1]) simp
  obtain s2 where s2: "write_to_socket_retry n (Some ?id) 4 s1 = Some s2" "t = tick s2"
    by (rule send_identity_state [OF id])
  have reg: "policy_msg s1 = reg" using r by (simp add: reconnected_def reg_def agent_same_fields(1))
  have "-1 \<notin> set (fds s1)" using r by (simp add: reconnected_def)
  from retry_delivers [OF _ this, of ?id n s2] s2(1) have d: "delivered reg ?id s1 s2" by (simp add: reg)
  then obtain pre where pre: "outs s2 = outs s1 @ pre @ [Sock_write (agent_fd s2) ?id]" "\<forall>x \<in> set pre. \<exists>f. x = Sock_write f reg"
    "if pre = [] then agent_fd s2 = agent_fd s1 else last pre = Sock_write (agent_fd s2) reg"
    unfolding delivered_def by (elim conjE exE) (rule that)
  have t: "agent_fd s2 \<noteq> -1" "-1 \<notin> set (fds s2)" using d by (auto simp: delivered_def)
  from r obtain pre0 where pre0: "outs s1 = outs s @ pre0" "\<forall>x \<in> set pre0. \<exists>f. x = Sock_write f reg"
    "if agent_fd s1 = -1 then pre0 = [] else pre0 \<noteq> [] \<and> last pre0 = Sock_write (agent_fd s1) reg"
    by (auto simp: reconnected_def split: if_splits)
  have l: "pre0 @ pre \<noteq> []" "last (pre0 @ pre) = Sock_write (agent_fd s2) reg"
    using pre(3) pre0(3) t(1) by (auto split: if_splits)
  then obtain pre1 where pre1: "pre0 @ pre = pre1 @ [Sock_write (agent_fd s2) reg]" by (metis append_butlast_last_id)
  have "outs t = outs s @ (pre0 @ pre) @ [Sock_write (agent_fd s2) ?id]" using pre(1) pre0(1) by (simp add: s2(2) tick_def)
  then have "outs t = outs s @ pre1 @ [Sock_write (agent_fd s2) reg, Sock_write (agent_fd s2) ?id]" by (simp add: pre1)
  moreover have "\<forall>x \<in> set (pre0 @ pre). \<exists>g. x = Sock_write g reg" using pre(2) pre0(2) by auto
  ultimately show thesis using that [of pre1] t(2) s2(2) unfolding pre1 by (simp add: tick_def)
qed

lemma identity_fold:
  "list_all wf_tlv xs \<Longrightarrow> cmd_fold identity_body xs idy =
     Some (case find (\<lambda>x. fst x = 1004) xs of None \<Rightarrow> idy | Some x \<Rightarrow> Some (c_str (snd x)))"
  by (induction xs) (simp_all add: identity_body_def)

lemma reputation_answer_fold:
  "list_all wf_tlv xs \<Longrightarrow> cmd_fold reputation_answer_body xs (st, idy) =
     Some (case find (\<lambda>x. fst x = 1500 \<or> fst x = 1506) xs of
         None \<Rightarrow> (st, idy)
       | Some x \<Rightarrow> if fst x = 1500 then (st, Some (c_str (snd x))) else (ATLAS_GENERAL_ERR, idy))"
  by (induction xs) (auto simp: reputation_answer_body_def)

text \<open>An answer of the client, as the agent receives it.\<close>

lemma answer_parsed:
  assumes "e_answer s (clock s) = Some (enc_tlvs xs)" and "xs \<noteq> []" and "length (enc_tlvs xs) \<le> 2048"
  shows "sock_read s = (enc_tlvs xs, tick s)" and "enc_tlvs xs \<noteq> []" and "list_all wf_tlv xs"
    and "atlas_cmd_batch_set_raw atlas_cmd_batch_new (Some (enc_tlvs xs)) (of_nat (length (enc_tlvs xs))) =
      Some (ATLAS_OK, Some (mk_batch xs))"
    and "cmd_loop body (Some (mk_batch xs)) st = cmd_fold body xs st"
proof -
  have short: "length (enc_tlvs xs) < 65536" using assms(3) by simp
  show wf: "list_all wf_tlv xs" using short by (rule wf_of_short)
  have "length (enc_tlvs xs) \<noteq> 0" using assms(2) by (cases xs) simp_all
  then show ne: "enc_tlvs xs \<noteq> []" by (metis list.size(3))
  show "sock_read s = (enc_tlvs xs, tick s)"
    using assms(1,3) by (simp add: sock_read_def ATLAS_CLIENT_DATA_PLANE_BUFFER_LEN_def)
  show "atlas_cmd_batch_set_raw atlas_cmd_batch_new (Some (enc_tlvs xs)) (of_nat (length (enc_tlvs xs))) =
      Some (ATLAS_OK, Some (mk_batch xs))"
    using set_raw_buf [OF ne short] cmds.dec_enc [OF wf] by simp
  show "cmd_loop body (Some (mk_batch xs)) st = cmd_fold body xs st"
    using assms(2) wf short by (rule cmd_loop_mk)
qed

lemma reputation_request_eq:
  assumes "e_write s (clock s)" and "agent_fd s \<in> set (fds s)"
  shows "atlas_reputation_request ty (Some idy) s =
    (let s1 = emit (Sock_write (agent_fd s) (enc_tlvs [(1500, net_bytes (ucast ty))])) (tick s);
         (buf, s2) = sock_read s1
     in if buf = [] then Some (ATLAS_SOCKET_ERROR, Some idy, s2)
        else do {
          (status, cmd_batch) \<leftarrow> atlas_cmd_batch_set_raw atlas_cmd_batch_new (Some buf) (of_nat (length buf));
          if status \<noteq> ATLAS_OK then Some (status, Some idy, s2)
          else do {
            (status1, idy1) \<leftarrow> cmd_loop reputation_answer_body cmd_batch (status, idy);
            Some (status1, Some idy1, s2) } })"
  using assms write_bytes [of "enc_tlvs [(1500, net_bytes (ucast ty))]" s]
  by (simp add: atlas_reputation_request_def batch_add_new atlas_cmd_batch_get_buf_mk net_bytes_def [symmetric])

section \<open>Runs of the agent\<close>

text \<open>The calls of the library, in any order; the identities of feedback fit their arrays.\<close>

inductive agent_step :: "'a agent_scheme \<Rightarrow> 'a agent_scheme \<Rightarrow> bool" where
  Init: "atlas_init n q p m (Some idy) s = Some (st, idy', t) \<Longrightarrow> agent_step s t"
| Packet: "atlas_pkt_received l s = Some t \<Longrightarrow> agent_step s t"
| Report: "send_statistics_command n s = Some t \<Longrightarrow> agent_step s t"
| Request: "atlas_reputation_request ty (Some idy) s = Some (st, idy', t) \<Longrightarrow> agent_step s t"
| Feedback: "\<forall>f \<in> set fs. length (fb_identity f) < 64 \<Longrightarrow> atlas_reputation_feedback (Some fs) s = Some (st, t) \<Longrightarrow>
    agent_step s t"

inductive_cases agent_stepE: "agent_step s t"

text \<open>A message the client's handlers can take: it fits their buffer and has the required values.\<close>

definition wire_msg :: "byte list \<Rightarrow> bool" where
  "wire_msg b \<longleftrightarrow> length b \<le> 2048 \<and> (\<exists>xs. dec_tlvs b = Some xs \<and> agent_msg_ok xs)"

definition agent_typed :: "'a agent_scheme \<Rightarrow> bool" where
  "agent_typed s \<longleftrightarrow> -1 \<notin> set (fds s) \<and> (\<forall>x \<in> set (outs s). \<exists>f b. x = Sock_write f b \<and> wire_msg b)"

lemma wire_msgI: "length (enc_tlvs xs) \<le> 2048 \<Longrightarrow> agent_msg_ok xs \<Longrightarrow> wire_msg (enc_tlvs xs)"
proof -
  assume a: "length (enc_tlvs xs) \<le> 2048" "agent_msg_ok xs"
  then have "length (enc_tlvs xs) < 65536" by simp
  then have "dec_tlvs (enc_tlvs xs) = Some xs" by (rule cmds.dec_enc [OF wf_of_short])
  with a show "wire_msg (enc_tlvs xs)" by (simp add: wire_msg_def)
qed

lemma agent_typed_more: "agent_typed s \<Longrightarrow> fds t = fds s \<Longrightarrow> outs t = outs s \<Longrightarrow> agent_typed t"
  by (simp add: agent_typed_def)

lemma agent_typed_delivered:
  assumes "agent_typed s" and "wire_msg reg" and "wire_msg bs" and "delivered reg bs s t"
  shows "agent_typed t"
  using assms unfolding agent_typed_def delivered_def by (elim conjE exE) (auto simp: ball_Un)

lemma wire_messages:
  "wire_msg (policy_msg s)" "wire_msg (statistics_msg s)" "wire_msg (enc_tlvs [(1003, [])])"
  "wire_msg (enc_tlvs [(1500, net_bytes w)])" "length (fb_identity f) < 64 \<Longrightarrow> wire_msg (feedback_msg f)"
proof -
  let ?ys = "[(1100, bytes_of_u16 (client_qos s)), (1101, bytes_of_u16 (client_packets_per_min s)),
      (1102, bytes_of_u16 (client_packets_maxlen s))] :: tlv list"
  have "length (enc_tlvs ?ys) < 65536" by simp
  then have "dec_tlvs (enc_tlvs ?ys) = Some ?ys" by (rule cmds.dec_enc [OF wf_of_short])
  moreover have "two_byte {1100, 1101, 1102} ?ys" by (simp add: two_byte_def)
  ultimately have "agent_msg_ok [(1000, enc_tlvs ?ys)]"
    by (simp add: agent_msg_ok_def two_byte_def del: enc_tlvs_simps)
  then show "wire_msg (policy_msg s)" unfolding policy_msg_def by (intro wire_msgI) simp_all
  show "wire_msg (statistics_msg s)"
    unfolding statistics_msg_def by (rule wire_msgI) (simp_all add: agent_msg_ok_def two_byte_def)
  show "wire_msg (enc_tlvs [(1003, [])])" by (rule wire_msgI) (simp_all add: agent_msg_ok_def two_byte_def)
  show "wire_msg (enc_tlvs [(1500, net_bytes w)])" by (rule wire_msgI) (simp_all add: agent_msg_ok_def two_byte_def)
  show "wire_msg (feedback_msg f)" if "length (fb_identity f) < 64"
    unfolding feedback_msg_def by (rule wire_msgI) (use that in \<open>simp_all add: agent_msg_ok_def two_byte_def\<close>)
qed

lemma typed_tick: "agent_typed s \<Longrightarrow> agent_typed (tick s)"
  by (simp add: agent_typed_def tick_def)

lemma typed_emit: "agent_typed s \<Longrightarrow> wire_msg b \<Longrightarrow> agent_typed (emit (Sock_write f b) (tick s))"
  by (auto simp: agent_typed_def emit_def tick_def)

lemma report_typed:
  assumes "agent_typed s" and "send_statistics_command n s = Some t"
  shows "agent_typed t"
proof -
  let ?s = "s\<lparr>payload_samples := 0, payload_total := 0, payload_avg := 0\<rparr>"
  have typed: "agent_typed ?s" using assms(1) by (rule agent_typed_more) simp_all
  have len: "length (statistics_msg s) < 65536" by (simp add: length_statistics_msg)
  have "write_to_socket_retry n (Some (statistics_msg s)) (of_nat (length (statistics_msg s))) ?s = Some t"
    using assms(2) by (simp add: send_statistics_command_def batch_add_new batch_add_next atlas_cmd_batch_get_buf_mk
        statistics_msg_def)
  then have "delivered (policy_msg ?s) (statistics_msg s) ?s t"
    using typed by (intro retry_delivers [OF len]) (simp_all add: agent_typed_def)
  with typed wire_messages(1,2) show ?thesis by (rule agent_typed_delivered)
qed

lemma feedback_typed:
  assumes "agent_typed s" and "\<forall>f \<in> set fs. length (fb_identity f) < 64" and "feedback_loop fs s = Some (st, t)"
  shows "agent_typed t"
  using assms
proof (induction fs arbitrary: s)
  case (Cons f fs)
  let ?r = "if e_write s (clock s) \<and> agent_fd s \<in> set (fds s)
      then emit (Sock_write (agent_fd s) (feedback_msg f)) (tick s) else tick s"
  have "agent_typed ?r" using Cons.prems wire_messages(5) [of f] by (simp add: typed_tick typed_emit)
  moreover have "t = s \<or> feedback_loop fs ?r = Some (st, t)"
    using Cons.prems by (auto simp: send_feedback_bytes split: if_splits)
  ultimately show ?case using Cons by auto
qed simp

lemma typed_outs:
  assumes "agent_typed s" and "wire_msg a" and "wire_msg b" and "outs t = outs s @ pre @ [Sock_write f a, Sock_write f b]"
    and "\<forall>x \<in> set pre. \<exists>g. x = Sock_write g a" and "-1 \<notin> set (fds t)"
  shows "agent_typed t"
  using assms unfolding agent_typed_def by auto

lemma init_typed:
  assumes "agent_typed s" and "atlas_init n q p m (Some idy) s = Some (st, idy', t)"
  shows "agent_typed t"
proof -
  let ?reg = "policy_msg (s\<lparr>client_qos := q, client_packets_per_min := p, client_packets_maxlen := m\<rparr>)"
  have "-1 \<notin> set (fds s)" using assms(1) by (simp add: agent_typed_def)
  from init_outputs [OF this assms(2)] obtain pre f where
    "outs t = outs s @ pre @ [Sock_write f ?reg, Sock_write f (enc_tlvs [(1003, [])])]"
    "\<forall>x \<in> set pre. \<exists>g. x = Sock_write g ?reg" "-1 \<notin> set (fds t)" by blast
  from typed_outs [OF assms(1) wire_messages(1) wire_messages(3) this] show ?thesis .
qed

lemma request_typed:
  assumes "agent_typed s" and "atlas_reputation_request ty (Some idy) s = Some (st, idy', t)"
  shows "agent_typed t"
proof (cases "e_write s (clock s) \<and> agent_fd s \<in> set (fds s)")
  case True
  let ?a = "emit (Sock_write (agent_fd s) (enc_tlvs [(1500, net_bytes (ucast ty))])) (tick s)"
  have "t = tick ?a" using assms(2) True
    by (auto simp: reputation_request_eq sock_read_def Let_def split: bind_splits if_splits prod.splits)
  then show ?thesis using typed_tick [OF typed_emit [OF assms(1) wire_messages(4)]] by simp
next
  case False
  then have "t = tick s" using assms(2) write_bytes [of "enc_tlvs [(1500, net_bytes (ucast ty))]" s]
    by (auto simp: atlas_reputation_request_def batch_add_new atlas_cmd_batch_get_buf_mk net_bytes_def [symmetric] split: if_splits)
  then show ?thesis using assms(1) by (simp add: typed_tick)
qed

lemma step_typed: "agent_step s t \<Longrightarrow> agent_typed s \<Longrightarrow> agent_typed t"
proof (induction rule: agent_step.induct)
  case (Packet l s t)
  then have "fds t = fds s" "outs t = outs s" by (auto simp: atlas_pkt_received_def Let_def split: bind_splits if_splits)
  with Packet show ?case by (blast intro: agent_typed_more [of s t])
next
  case (Feedback fs s st t)
  then show ?case using feedback_typed by (auto simp: atlas_reputation_feedback_def split: if_splits)
qed (blast intro: init_typed report_typed request_typed)+

lemma run_typed: "agent_step\<^sup>*\<^sup>* s t \<Longrightarrow> agent_typed s \<Longrightarrow> agent_typed t"
  by (induction rule: rtranclp_induct) (auto intro: step_typed)

section \<open>Properties\<close>

text \<open>
  C15. The policy, end to end: whenever \<open>atlas_init\<close> of the agent returns, the last two messages it
  wrote are its registration and the identity request, on the same connection, and the client that
  reads this registration asks the gateway to set exactly the policy given to \<open>atlas_init\<close>: the three
  values, in network order, with PUT to \<open>gateway/policy\<close>.
\<close>

theorem agent_policy_reaches_gateway:
  assumes "-1 \<notin> set (fds a)" and "atlas_init n q p m (Some idy) a = Some (st, idy', a')"
  shows "\<exists>pre f b. outs a' = outs a @ pre @ [Sock_write f b, Sock_write f (enc_tlvs [(1003, [])])] \<and>
    (\<forall>x. x \<in> set pre \<longrightarrow> (\<exists>g. x = Sock_write g b)) \<and>
    (\<forall>c fd. conn_env c \<longrightarrow> e_read c (clock c) = Some b \<longrightarrow>
       atlas_data_plane_read_cb fd c = sends ''gateway/policy'' ATLAS_COAP_METHOD_PUT
         [(1100, net_bytes q), (1101, net_bytes p), (1102, net_bytes m)] 5000 Policy_callback
         ((tick c)\<lparr>policy_qos := q, policy_packets_per_min := p, policy_packets_maxlen := m, active_policy := 1\<rparr>))"
proof -
  let ?b = "policy_msg (a\<lparr>client_qos := q, client_packets_per_min := p, client_packets_maxlen := m\<rparr>)"
  obtain pre f where o: "outs a' = outs a @ pre @ [Sock_write f ?b, Sock_write f (enc_tlvs [(1003, [])])]"
    "\<forall>x \<in> set pre. \<exists>g. x = Sock_write g ?b" by (rule init_outputs [OF assms])
  have "?b = enc_tlvs [(1000, enc_tlvs [(1100, bytes_of_u16 q), (1101, bytes_of_u16 p), (1102, bytes_of_u16 m)])]"
    by (simp add: policy_msg_def)
  then have "atlas_data_plane_read_cb fd c = sends ''gateway/policy'' ATLAS_COAP_METHOD_PUT
      [(1100, net_bytes q), (1101, net_bytes p), (1102, net_bytes m)] 5000 Policy_callback
      ((tick c)\<lparr>policy_qos := q, policy_packets_per_min := p, policy_packets_maxlen := m, active_policy := 1\<rparr>)"
    if "conn_env c" "e_read c (clock c) = Some ?b" for c :: "'b connector_scheme" and fd
    using policy_reaches_gateway [OF that(1)] that(2) by simp
  with o show ?thesis by blast
qed

text \<open>
  C18. The statistics, end to end: a report of the agent that returns has as its last output one message,
  and the client that reads it holds the number of packets and their average length modulo \<open>2 ^ 16\<close>
  (the agent sends four bytes in host order, the client copies the first two), while the agent
  counts from zero again.
\<close>

theorem statistics_reach_client:
  assumes "-1 \<notin> set (fds a)" and "send_statistics_command n a = Some a'"
  shows "\<exists>b. last (outs a') = Sock_write (agent_fd a') b \<and> payload_samples a' = 0 \<and> payload_total a' = 0 \<and>
    (\<forall>c fd. e_read c (clock c) = Some b \<longrightarrow> atlas_data_plane_read_cb fd c =
       Some ((tick c)\<lparr>packets_per_min := of_int (payload_samples a), packets_avg := of_int (payload_avg a)\<rparr>))"
proof -
  let ?b = "enc_tlvs [(1001, bytes_of_int (payload_samples a)), (1002, bytes_of_int (payload_avg a))]"
  let ?a = "a\<lparr>payload_samples := 0, payload_total := 0, payload_avg := 0\<rparr>"
  have len: "length ?b = 16" by simp
  have "write_to_socket_retry n (Some ?b) (of_nat (length ?b)) ?a = Some a'"
    using assms(2) unfolding len by (simp add: send_statistics_command_def batch_add_new batch_add_next atlas_cmd_batch_get_buf_mk)
  then have d: "delivered (policy_msg ?a) ?b ?a a'" by (intro retry_delivers) (use assms(1) len in simp_all)
  then have "last (outs a') = Sock_write (agent_fd a') ?b" by (auto simp: delivered_def)
  moreover have "payload_samples a' = 0" "payload_total a' = 0"
    using d agent_same_fields [of ?a a'] by (simp_all add: delivered_def)
  ultimately show ?thesis using read_statistics by blast
qed

text \<open>
  C19. The identity, end to end: the client that reads the agent's identity request answers with one
  message, and the agent that gets this message as its answer returns OK and exactly the client's
  identity.
\<close>

theorem identity_reaches_agent:
  assumes "conn_env c" and "e_read c (clock c) = Some (enc_tlvs [(1003, [])])"
    and "\<forall>x. x \<in> set (identity_str c) \<longrightarrow> of_char x \<noteq> (0 :: nat)"
    and "write_to_socket_retry n (Some (enc_tlvs [(1003, [])])) 4 a = Some a1"
  shows "\<exists>c' b. atlas_data_plane_read_cb fd c = Some c' \<and> outs c' = outs c @ [Sock_write (connected_socket c) b] \<and>
    (e_answer a1 (clock a1) = Some b \<longrightarrow>
       send_identity_command n idy a = Some (ATLAS_OK, Some (identity_str c), tick a1))"
proof -
  let ?xs = "[(1004, str_bytes (identity_str c))] :: tlv list"
  have id: "length (identity_str c) \<le> 64" using assms(1) by (simp add: conn_env_def ident_ok_def ATLAS_IDENTITY_LEN_def)
  have str: "c_str (str_bytes (identity_str c)) = identity_str c"
    using c_str_str_bytes [of "identity_str c" 0] assms(3) by simp
  have "send_identity_command n idy a = Some (ATLAS_OK, Some (identity_str c), tick a1)"
    if "e_answer a1 (clock a1) = Some (enc_tlvs ?xs)"
  proof -
    have len: "length (enc_tlvs ?xs) \<le> 2048" using id by simp
    note ans = answer_parsed [OF that list.distinct(2) len]
    show ?thesis
      by (simp add: send_identity_eq assms(4) ans identity_fold [OF ans(3)] str del: enc_tlvs_simps cmd_fold.simps)
  qed
  then show ?thesis using read_identity_request [OF assms(1,2), of fd] by (simp add: emit_def tick_def)
qed

text \<open>
  C17. A reputation, end to end: on a working connection the agent's request reaches the gateway with
  the client's identity and the sensor type; the client turns the gateway's answer into one
  message, and the agent that gets it returns OK and the device named in the answer; when the
  gateway fails or does not answer, the agent returns an error and leaves the caller's variable alone.
\<close>

theorem reputation_round_trip:
  assumes "e_write a (clock a)" and "agent_fd a \<in> set (fds a)" and "length dev \<le> 2000" "\<forall>x. x \<in> set dev \<longrightarrow> of_char x \<noteq> (0 :: nat)"
    and "conn_env c" and "e_read c (clock c) = Some (enc_tlvs [(1500, net_bytes (ucast ty))])" and "resp \<noteq> ATLAS_COAP_RESP_OK"
  shows "atlas_data_plane_read_cb fd c = sends ''gateway/reputation/feature'' ATLAS_COAP_METHOD_PUT
      [(2, str_bytes (identity_str c)), (1500, net_bytes (ucast ty))] 5000 Feature_reputation_callback (tick c) \<and>
    (\<exists>b e. feature_reputation_callback u ATLAS_COAP_RESP_OK (Some (enc_tlvs [(1500, str_bytes dev)])) d =
        Some (d\<lparr>outs := outs d @ [Sock_write (connected_socket d) b]\<rparr>) \<and>
      feature_reputation_callback u resp pl d = Some (d\<lparr>outs := outs d @ [Sock_write (connected_socket d) e]\<rparr>) \<and>
      (\<exists>a'. outs a' = outs a @ [Sock_write (agent_fd a) (enc_tlvs [(1500, net_bytes (ucast ty))])] \<and>
         (e_answer a (Suc (clock a)) = Some b \<longrightarrow> atlas_reputation_request ty (Some idy) a = Some (ATLAS_OK, Some (Some dev), a')) \<and>
         (e_answer a (Suc (clock a)) = Some e \<longrightarrow> atlas_reputation_request ty (Some idy) a = Some (ATLAS_GENERAL_ERR, Some idy, a'))))"
proof -
  let ?q = "enc_tlvs [(1500, net_bytes (ucast ty))]"
  let ?ok = "[(1500, str_bytes dev)] :: tlv list" and ?err = "[(1506, [])] :: tlv list"
  let ?a1 = "emit (Sock_write (agent_fd a) ?q) (tick a)"
  have "net_bytes (ucast ty) \<noteq> []" by (metis length_net_bytes list.size(3) zero_neq_numeral)
  then have gw: "atlas_data_plane_read_cb fd c = sends ''gateway/reputation/feature'' ATLAS_COAP_METHOD_PUT
      [(2, str_bytes (identity_str c)), (1500, net_bytes (ucast ty))] 5000 Feature_reputation_callback (tick c)"
    by (intro read_reputation_request [OF assms(5,6)]) simp_all
  have len: "length (enc_tlvs ?ok) \<le> 2048" "length (enc_tlvs ?err) \<le> 2048" using assms(3) by simp_all
  then have short: "length (enc_tlvs ?ok) < 65536" by simp
  have dec: "dec_tlvs (enc_tlvs ?ok) = Some ?ok" by (rule cmds.dec_enc [OF wf_of_short [OF short]])
  have fwd: "feature_reputation_callback u ATLAS_COAP_RESP_OK (Some (enc_tlvs ?ok)) d =
      Some (d\<lparr>outs := outs d @ [Sock_write (connected_socket d) (enc_tlvs ?ok)]\<rparr>)"
    using reputation_callback_ok [OF short, of u d] unfolding dec by simp
  have str: "c_str (str_bytes dev) = dev" using c_str_str_bytes [of dev 0] assms(4) by simp
  have ok: "atlas_reputation_request ty (Some idy) a = Some (ATLAS_OK, Some (Some dev), tick ?a1)"
    if "e_answer a (Suc (clock a)) = Some (enc_tlvs ?ok)"
  proof -
    have "e_answer ?a1 (clock ?a1) = Some (enc_tlvs ?ok)" using that by (simp add: emit_def tick_def)
    note ans = answer_parsed [OF this list.distinct(2) len(1)]
    show ?thesis by (simp add: reputation_request_eq [OF assms(1,2)] ans reputation_answer_fold [OF ans(3)] str
          del: enc_tlvs_simps cmd_fold.simps)
  qed
  have err: "atlas_reputation_request ty (Some idy) a = Some (ATLAS_GENERAL_ERR, Some idy, tick ?a1)"
    if "e_answer a (Suc (clock a)) = Some (enc_tlvs ?err)"
  proof -
    have "e_answer ?a1 (clock ?a1) = Some (enc_tlvs ?err)" using that by (simp add: emit_def tick_def)
    note ans = answer_parsed [OF this list.distinct(2) len(2)]
    show ?thesis by (simp add: reputation_request_eq [OF assms(1,2)] ans reputation_answer_fold [OF ans(3)]
          del: enc_tlvs_simps cmd_fold.simps)
  qed
  have "outs (tick ?a1) = outs a @ [Sock_write (agent_fd a) ?q]" by (simp add: emit_def tick_def)
  with gw fwd reputation_callback_failed [OF assms(7), of u pl d] ok err show ?thesis by blast
qed

text \<open>
  C16. Every message the agent writes is one the client can take: in any sequence of library calls
  (start-up, packets, reports, reputation requests, feedback whose identities fit their arrays) each
  message fits the client's receive buffer, decodes, and has fixed-size commands of at least two bytes;
  so the client that reads it finishes the handler without an access outside its buffers and keeps
  the conditions the handlers rely on.
\<close>

theorem agent_messages_wellformed:
  assumes "agent_step\<^sup>*\<^sup>* s t" and "outs s = []" and "-1 \<notin> set (fds s)" and "Sock_write f b \<in> set (outs t)"
    and "conn_env c" and "e_read c (clock c) = Some b"
  shows "length b \<le> 2048 \<and> (\<exists>xs. dec_tlvs b = Some xs \<and> agent_msg_ok xs) \<and>
    (\<exists>c'. atlas_data_plane_read_cb fd c = Some c' \<and> conn_env c')"
proof -
  have "agent_typed t" by (rule run_typed [OF assms(1)]) (use assms(2,3) in \<open>simp add: agent_typed_def\<close>)
  then have b: "wire_msg b" using assms(4) by (auto simp: agent_typed_def)
  then obtain xs where xs: "length b \<le> 2048" "dec_tlvs b = Some xs" "agent_msg_ok xs" by (auto simp: wire_msg_def)
  then have "\<exists>c'. atlas_data_plane_read_cb fd c = Some c' \<and> conn_env c'"
    using assms(5,6) by (intro conn.read_cb_total) auto
  with xs show ?thesis by blast
qed

lemma demo_env: "conn_env (connector_demo\<lparr>e_read := r\<rparr>)"
  using connector_demo_env by (simp add: conn_env_def cfg_ok_def ident_ok_def)

definition agent_up :: agent where
  "agent_up = agent_demo\<lparr>e_connect := (\<lambda>_. True), e_write := (\<lambda>_. True)\<rparr>"

lemma agent_up_report: "send_statistics_command 0 (agent_up\<lparr>agent_fd := 2, payload_samples := 3\<rparr>) =
    Some (agent_up\<lparr>agent_fd := 2, clock := 1,
      outs := [Sock_write 2 (enc_tlvs [(1001, bytes_of_int 3), (1002, bytes_of_int 0)])]\<rparr>)"
  using retry_eq [of "enc_tlvs [(1001, bytes_of_int 3), (1002, bytes_of_int 0)]" 0 "agent_up\<lparr>agent_fd := 2\<rparr>"]
  by (simp add: send_statistics_command_def batch_add_new batch_add_next atlas_cmd_batch_get_buf_mk
      agent_up_def agent_demo_def emit_def tick_def)

lemma agent_up_init: "\<exists>st idy' t. atlas_init (Suc 0) 1 60 512 (Some None) agent_up = Some (st, idy', t)"
proof -
  define u where "u = agent_up\<lparr>client_qos := 1, client_packets_per_min := 60, client_packets_maxlen := 512\<rparr>"
  define v where "v = new_socket u"
  let ?id = "enc_tlvs [(1003, [])]"
  let ?t = "emit (Sock_write 3 (policy_msg v)) (tick (tick v))"
  have n: "v = u\<lparr>clock := 1, fds := [3, 0, 1, 2], agent_fd := 3\<rparr>"
    by (simp add: v_def u_def new_socket_def fd_new_def fd_pick_def fd_close_def agent_up_def agent_demo_def)
  then have v: "e_connect v = (\<lambda>_. True)" "e_write v = (\<lambda>_. True)" "e_answer v = (\<lambda>_. None)"
      "agent_fd v = 3" "fds v = [3, 0, 1, 2]" by (simp_all add: u_def agent_up_def agent_demo_def)
  have "connect_loop (Suc 0) v = Some (tick v)" by (simp add: v)
  moreover have "policy_msg (tick v) = policy_msg v" by (simp add: policy_msg_def tick_def)
  then have "send_registration_command (Suc 0) (tick v) = Some ?t"
    unfolding registration_retry by (subst retry_eq) (simp_all add: v length_policy_msg tick_def)
  ultimately have c: "socket_connect (Suc 0) u = Some ?t" by (simp add: socket_connect_eq v v_def [symmetric])
  have w: "write_to_socket_retry (Suc 0) (Some ?id) 4 ?t = Some (emit (Sock_write 3 ?id) (tick ?t))"
    using retry_eq [of ?id "Suc 0" ?t] by (simp add: v emit_def tick_def)
  have "e_answer (emit (Sock_write 3 ?id) (tick ?t)) = (\<lambda>_. None)" by (simp add: v emit_def tick_def)
  then show ?thesis by (simp add: atlas_init_def u_def [symmetric] c send_identity_eq w sock_read_def del: enc_tlvs_simps)
qed

theorem agent_messages_wellformed_witness:
  "\<exists>b. length b \<le> 2048 \<and> (\<exists>xs. dec_tlvs b = Some xs \<and> agent_msg_ok xs) \<and>
    (\<exists>c'. atlas_data_plane_read_cb 7 (connector_demo\<lparr>e_read := (\<lambda>_. Some b)\<rparr>) = Some c' \<and> conn_env c')"
proof -
  let ?b = "enc_tlvs [(1001, bytes_of_int 3), (1002, bytes_of_int 0)]"
  have "agent_step\<^sup>*\<^sup>* (agent_up\<lparr>agent_fd := 2, payload_samples := 3\<rparr>) (agent_up\<lparr>agent_fd := 2, clock := 1, outs := [Sock_write 2 ?b]\<rparr>)"
    by (rule r_into_rtranclp) (rule agent_step.Report [OF agent_up_report])
  from agent_messages_wellformed [OF this, of 2 ?b "connector_demo\<lparr>e_read := (\<lambda>_. Some ?b)\<rparr>" 7] demo_env
  show ?thesis by (intro exI [of _ ?b]) (simp add: agent_up_def agent_demo_def del: enc_tlvs_simps)
qed

theorem agent_policy_reaches_gateway_witness:
  "\<exists>st idy' a' pre f b. atlas_init (Suc 0) 1 60 512 (Some None) agent_up = Some (st, idy', a') \<and>
    outs a' = pre @ [Sock_write f b, Sock_write f (enc_tlvs [(1003, [])])] \<and>
    atlas_data_plane_read_cb 7 (connector_demo\<lparr>e_read := (\<lambda>_. Some b)\<rparr>) =
      sends ''gateway/policy'' ATLAS_COAP_METHOD_PUT
        [(1100, net_bytes 1), (1101, net_bytes 60), (1102, net_bytes 512)] 5000 Policy_callback
        ((tick (connector_demo\<lparr>e_read := (\<lambda>_. Some b)\<rparr>))\<lparr>policy_qos := 1, policy_packets_per_min := 60,
          policy_packets_maxlen := 512, active_policy := 1\<rparr>)"
proof -
  obtain st idy' a' where i: "atlas_init (Suc 0) 1 60 512 (Some None) agent_up = Some (st, idy', a')"
    using agent_up_init by (elim exE)
  have "-1 \<notin> set (fds agent_up)" and o: "outs agent_up = []" by (simp_all add: agent_up_def agent_demo_def)
  from agent_policy_reaches_gateway [OF this(1) i] obtain pre f b where b:
    "outs a' = outs agent_up @ pre @ [Sock_write f b, Sock_write f (enc_tlvs [(1003, [])])]"
    "\<forall>c fd. conn_env (c :: connector) \<longrightarrow> e_read c (clock c) = Some b \<longrightarrow>
       atlas_data_plane_read_cb fd c = sends ''gateway/policy'' ATLAS_COAP_METHOD_PUT
         [(1100, net_bytes 1), (1101, net_bytes 60), (1102, net_bytes 512)] 5000 Policy_callback
         ((tick c)\<lparr>policy_qos := 1, policy_packets_per_min := 60, policy_packets_maxlen := 512, active_policy := 1\<rparr>)"
    by (elim exE conjE) (rule that)
  from b(2) [rule_format, OF demo_env, of "\<lambda>_. Some b" 7] b(1) i show ?thesis
    unfolding o append_Nil by (intro exI conjI) simp_all
qed

theorem statistics_reach_client_witness:
  "\<exists>a' b. send_statistics_command 0 (agent_up\<lparr>agent_fd := 2, payload_samples := 3\<rparr>) = Some a' \<and>
    last (outs a') = Sock_write 2 b \<and>
    atlas_data_plane_read_cb 7 (connector_demo\<lparr>e_read := (\<lambda>_. Some b)\<rparr>) =
      Some ((tick (connector_demo\<lparr>e_read := (\<lambda>_. Some b)\<rparr>))\<lparr>packets_per_min := 3, packets_avg := 0\<rparr>)"
proof -
  let ?a = "agent_up\<lparr>agent_fd := 2, payload_samples := 3\<rparr>"
  have "-1 \<notin> set (fds ?a)" by (simp add: agent_up_def agent_demo_def)
  from statistics_reach_client [OF this agent_up_report] obtain b where b:
    "last (outs (agent_up\<lparr>agent_fd := 2, clock := 1,
      outs := [Sock_write 2 (enc_tlvs [(1001, bytes_of_int 3), (1002, bytes_of_int 0)])]\<rparr>)) = Sock_write 2 b"
    "\<forall>c fd. e_read (c :: connector) (clock c) = Some b \<longrightarrow> atlas_data_plane_read_cb fd c =
       Some ((tick c)\<lparr>packets_per_min := 3, packets_avg := 0\<rparr>)"
    by (auto simp: agent_up_def agent_demo_def)
  from b(1) b(2) [rule_format, of "connector_demo\<lparr>e_read := (\<lambda>_. Some b)\<rparr>" 7] agent_up_report show ?thesis by auto
qed

theorem identity_reaches_agent_witness:
  "\<exists>c' b. atlas_data_plane_read_cb 7 (connector_demo\<lparr>e_read := (\<lambda>_. Some (enc_tlvs [(1003, [])]))\<rparr>) = Some c' \<and>
    send_identity_command 0 None (agent_up\<lparr>agent_fd := 2, e_answer := (\<lambda>_. Some b)\<rparr>) =
      Some (ATLAS_OK, Some ''0123-id'', agent_up\<lparr>agent_fd := 2, e_answer := (\<lambda>_. Some b), clock := 2,
        outs := [Sock_write 2 (enc_tlvs [(1003, [])])]\<rparr>)"
proof -
  let ?id = "enc_tlvs [(1003, [])]" and ?c = "connector_demo\<lparr>e_read := (\<lambda>_. Some (enc_tlvs [(1003, [])]))\<rparr>"
  let ?b = "enc_tlvs [(1004, str_bytes ''0123-id'')]"
  let ?a = "agent_up\<lparr>agent_fd := 2, e_answer := (\<lambda>_. Some ?b)\<rparr>"
  have w: "write_to_socket_retry 0 (Some ?id) 4 ?a = Some (emit (Sock_write 2 ?id) (tick ?a))"
    using retry_eq [of ?id 0 ?a] by (simp add: agent_up_def agent_demo_def emit_def tick_def)
  have id: "identity_str ?c = ''0123-id''" and e: "e_read ?c (clock ?c) = Some ?id" by (simp_all add: connector_demo_def)
  have nz: "\<forall>x. x \<in> set (identity_str ?c) \<longrightarrow> of_char x \<noteq> (0 :: nat)" unfolding id by simp
  obtain c' where c': "atlas_data_plane_read_cb 7 ?c = Some c'"
      "outs c' = outs ?c @ [Sock_write (connected_socket ?c) ?b]"
    using read_identity_request [OF demo_env e, of 7] unfolding id by (simp add: emit_def tick_def)
  from identity_reaches_agent [OF demo_env e nz w, of 7 None] c'
  have "send_identity_command 0 None ?a = Some (ATLAS_OK, Some (identity_str ?c), tick (emit (Sock_write 2 ?id) (tick ?a)))"
    by (auto simp: agent_up_def agent_demo_def emit_def tick_def)
  with c'(1) show ?thesis unfolding id
    by (intro exI [of _ c'] exI [of _ ?b] conjI)
      (simp_all add: agent_up_def agent_demo_def emit_def tick_def numeral_2_eq_2 del: enc_tlvs_simps)
qed

theorem reputation_round_trip_witness:
  "\<exists>b e a'. feature_reputation_callback [] ATLAS_COAP_RESP_OK (Some (enc_tlvs [(1500, str_bytes ''dev-7'')])) connector_demo =
      Some (connector_demo\<lparr>outs := outs connector_demo @ [Sock_write (connected_socket connector_demo) b]\<rparr>) \<and>
    feature_reputation_callback [] ATLAS_COAP_RESP_TIMEOUT None connector_demo =
      Some (connector_demo\<lparr>outs := outs connector_demo @ [Sock_write (connected_socket connector_demo) e]\<rparr>) \<and>
    atlas_reputation_request 101 (Some None) (agent_up\<lparr>agent_fd := 2, e_answer := (\<lambda>_. Some b)\<rparr>) =
      Some (ATLAS_OK, Some (Some ''dev-7''), a')"
proof -
  let ?q = "enc_tlvs [(1500, net_bytes (ucast (101 :: u32)))]"
  let ?b = "enc_tlvs [(1500, str_bytes ''dev-7'')]"
  let ?a = "agent_up\<lparr>agent_fd := 2, e_answer := (\<lambda>_. Some ?b)\<rparr>"
  have a: "e_write ?a (clock ?a)" "agent_fd ?a \<in> set (fds ?a)" by (simp_all add: agent_up_def agent_demo_def)
  have len: "length ''dev-7'' \<le> 2000" and nz: "\<forall>x. x \<in> set ''dev-7'' \<longrightarrow> of_char x \<noteq> (0 :: nat)" by simp_all
  have rd: "e_read (connector_demo\<lparr>e_read := (\<lambda>_. Some ?q)\<rparr>) (clock (connector_demo\<lparr>e_read := (\<lambda>_. Some ?q)\<rparr>)) = Some ?q"
    by simp
  have ne: "ATLAS_COAP_RESP_TIMEOUT \<noteq> ATLAS_COAP_RESP_OK" by simp
  from reputation_round_trip [OF a len nz demo_env rd ne, of 7 "[]" connector_demo None None]
  obtain b e a' where r: "feature_reputation_callback [] ATLAS_COAP_RESP_OK (Some ?b) connector_demo =
        Some (connector_demo\<lparr>outs := outs connector_demo @ [Sock_write (connected_socket connector_demo) b]\<rparr>)"
      "feature_reputation_callback [] ATLAS_COAP_RESP_TIMEOUT None connector_demo =
        Some (connector_demo\<lparr>outs := outs connector_demo @ [Sock_write (connected_socket connector_demo) e]\<rparr>)"
      "e_answer ?a (Suc (clock ?a)) = Some b \<longrightarrow>
         atlas_reputation_request 101 (Some None) ?a = Some (ATLAS_OK, Some (Some ''dev-7''), a')"
    by (elim exE conjE) (rule that)
  have short: "length ?b < 65536" by simp
  have dec: "dec_tlvs ?b = Some [(1500, str_bytes ''dev-7'')]" by (rule cmds.dec_enc [OF wf_of_short [OF short]])
  have "connector_demo\<lparr>outs := outs connector_demo @ [Sock_write (connected_socket connector_demo) b]\<rparr> =
      connector_demo\<lparr>outs := outs connector_demo @ [Sock_write (connected_socket connector_demo) ?b]\<rparr>"
    using reputation_callback_ok [OF short, of "[]" connector_demo] r(1) unfolding dec by simp
  then have "b = ?b" by (simp add: connector_demo_def)
  with r show ?thesis by (intro exI conjI) simp_all
qed

end
