(* ===== verification/Data_Plane_Main.thy ===== *)
theory Data_Plane_Main
  imports Data_Plane_Setup Agent_Link
begin

text \<open>
  The data plane application from its command line to its running threads: \<open>main\<close> of
  src/data\_plane/atlas\_data\_plane.c with the client library (theories Agent and Agent\_Link) and the
  parsers (theory Data\_Plane\_Setup) together. The state it starts in is the one the runs of theory
  Data\_Plane\_Window begin with.
\<close>

section \<open>Properties\<close>


section \<open>A start-up\<close>

text \<open>A client that accepts, and answers with an identity.\<close>

lemma init_answered:
  fixes s :: "'a agent_scheme"
  assumes "e_connect s = (\<lambda>_. True)" "e_write s = (\<lambda>_. True)" "e_answer s = (\<lambda>_. Some (enc_tlvs [(1004, str_bytes idy)]))"
    and "0 \<le> e_fd s (clock s)" "e_fd s (clock s) \<notin> set (fds s)" and "length idy \<le> 64" "\<forall>x \<in> set idy. of_char x \<noteq> (0 :: nat)"
  shows "\<exists>t. atlas_init (Suc 0) q p m (Some i) s = Some (ATLAS_OK, Some (Some idy), t)"
proof -
  define u where "u = s\<lparr>client_qos := q, client_packets_per_min := p, client_packets_maxlen := m\<rparr>"
  define v where "v = new_socket u"
  let ?id = "enc_tlvs [(1003, [])]" and ?ans = "[(1004, str_bytes idy)] :: tlv list"
  let ?t = "emit (Sock_write (agent_fd v) (policy_msg v)) (tick (tick v))"
  let ?w = "emit (Sock_write (agent_fd v) ?id) (tick ?t)"
  have u: "agent_fd u = agent_fd s" "fds u = fds s" "clock u = clock s" "e_fd u = e_fd s" by (simp_all add: u_def)
  have pick: "fd_pick (fd_close (agent_fd u) u) = e_fd s (clock s)"
    using assms(4,5) by (simp add: fd_pick_def fd_close_def u)
  have fd: "agent_fd v \<noteq> -1" "agent_fd v \<in> set (fds v)"
    using assms(4) new_socket_fields(3,4) [of u] by (simp_all add: v_def pick)
  have env: "e_connect v = (\<lambda>_. True)" "e_write v = (\<lambda>_. True)" "e_answer v = (\<lambda>_. Some (enc_tlvs ?ans))"
    using agent_same_fields [OF new_socket_same [of u]] assms(1-3) by (simp_all add: v_def u_def)
  have "connect_loop (Suc 0) v = Some (tick v)" by (simp add: env)
  moreover have "policy_msg (tick v) = policy_msg v" by (simp add: policy_msg_def tick_def)
  then have "send_registration_command (Suc 0) (tick v) = Some ?t"
    unfolding registration_retry by (subst retry_eq) (simp_all add: env fd length_policy_msg tick_def)
  ultimately have c: "socket_connect (Suc 0) u = Some ?t" using fd(1) by (simp add: socket_connect_eq v_def [symmetric])
  have w: "write_to_socket_retry (Suc 0) (Some ?id) 4 ?t = Some ?w"
    using retry_eq [of ?id "Suc 0" ?t] fd by (simp add: env emit_def tick_def)
  have e: "e_answer ?w (clock ?w) = Some (enc_tlvs ?ans)" by (simp add: env emit_def tick_def)
  have len: "length (enc_tlvs ?ans) \<le> 2048" using assms(6) by simp
  note ans = answer_parsed [OF e list.distinct(2) len]
  have "c_str (str_bytes idy) = idy" using c_str_str_bytes [of idy 0] assms(7) by simp
  then have "send_identity_command (Suc 0) i ?t = Some (ATLAS_OK, Some idy, tick ?w)"
    by (simp add: send_identity_eq w ans identity_fold [OF ans(3)] del: enc_tlvs_simps cmd_fold.simps)
  then show ?thesis by (simp add: atlas_init_def u_def [symmetric] c)
qed

definition dp_boot :: data_plane where
  "dp_boot = dp_demo\<lparr>agent_fd := -1, e_answer := (\<lambda>_. Some (enc_tlvs [(1004, str_bytes ''dev-1'')])),
     publish_str := replicate 32 undefined, rep_thread := None, dp_identity := None\<rparr>"

definition dp_argv :: "string list" where
  "dp_argv = [''atlas_data_plane'', ''--publish'', ''temp:5:20:1:1:default'', ''--subscribe=temp:wind'',
     ''--hostname'', ''tcp://broker:1883'', ''-q'', ''1'', ''--ppm'', ''60'', ''--maxlen-firewall'', ''512'',
     ''--reputation'', ''temp:60:10:average'']"

lemma dp_argv_parsed:
  "arguments_loop (getopt_long_dp (tl dp_argv)) no_args = Some \<lparr>publish_arg = Some ''temp:5:20:1:1:default'',
     subscribe_arg = Some ''temp:wind'', hostname_arg = Some ''tcp://broker:1883'', reputation_arg = Some ''temp:60:10:average'',
     arg_qos = 1, arg_ppm = 60, arg_maxlen = 512\<rparr>"
  by code_simp


end
