(* ===== verification/Logger.thy ===== *)
theory Logger
  imports Atlas_Prelude
begin

text \<open>
  The logger (src/logger/atlas\_logger.c): severities and their \<open>syslog\<close> priorities, and the
  messages handed to \<open>syslog\<close>, in order. The other components' calls of it have no effect on
  their state and are left out of their models.
\<close>

datatype atlas_log_severity = ATLAS_LOG_NOTICE | ATLAS_LOG_INFO | ATLAS_LOG_DEBUG | ATLAS_LOG_ERROR

text \<open>The priorities of \<open>syslog.h\<close>.\<close>

definition LOG_ALERT :: int where "LOG_ALERT = 1"
definition LOG_ERR :: int where "LOG_ERR = 3"
definition LOG_NOTICE :: int where "LOG_NOTICE = 5"
definition LOG_INFO :: int where "LOG_INFO = 6"
definition LOG_DEBUG :: int where "LOG_DEBUG = 7"

fun convert_to_syslog_severity :: "atlas_log_severity \<Rightarrow> int" where
  "convert_to_syslog_severity ATLAS_LOG_NOTICE = LOG_NOTICE"
| "convert_to_syslog_severity ATLAS_LOG_INFO = LOG_INFO"
| "convert_to_syslog_severity ATLAS_LOG_DEBUG = LOG_DEBUG"
| "convert_to_syslog_severity ATLAS_LOG_ERROR = LOG_ERR"

text \<open>The connection to the system log (its identification while open) and the lines written.\<close>

record logger =
  log_ident :: "string ptr"
  log_lines :: "(int \<times> string) list"

definition atlas_log_init :: "'a logger_scheme \<Rightarrow> 'a logger_scheme" where
  "atlas_log_init s = s\<lparr>log_ident := Some ''ATLAS_CLIENT''\<rparr>"

text \<open>The message is an argument of the format \<open>%s\<close>, never the format itself.\<close>

definition atlas_log :: "atlas_log_severity \<Rightarrow> string ptr \<Rightarrow> 'a logger_scheme \<Rightarrow> 'a logger_scheme" where
  "atlas_log severity msg s =
     (case msg of None \<Rightarrow> s
      | Some m \<Rightarrow> s\<lparr>log_lines := log_lines s @ [(convert_to_syslog_severity severity, m)]\<rparr>)"

definition atlas_log_close :: "'a logger_scheme \<Rightarrow> 'a logger_scheme" where
  "atlas_log_close s = s\<lparr>log_ident := None\<rparr>"

lemma severity_inj: "convert_to_syslog_severity a = convert_to_syslog_severity b \<longleftrightarrow> a = b"
  by (cases a; cases b) (simp_all add: LOG_ERR_def LOG_NOTICE_def LOG_INFO_def LOG_DEBUG_def)

text \<open>A sequence of messages is logged verbatim and in order, NULL messages left out.\<close>

lemma log_messages:
  "log_lines (fold (\<lambda>(v, m). atlas_log v m) ms s) =
    log_lines s @ List.map_filter (\<lambda>(v, m). map_option (\<lambda>t. (convert_to_syslog_severity v, t)) m) ms"
proof (induction ms arbitrary: s)
  case (Cons x ms)
  obtain v m where x: "x = (v, m)" by (cases x)
  have "log_lines (atlas_log v m s) = log_lines s @ (case m of None \<Rightarrow> [] | Some t \<Rightarrow> [(convert_to_syslog_severity v, t)])"
    by (cases m) (simp_all add: atlas_log_def)
  then show ?case using Cons.IH by (cases m) (simp_all add: x map_filter_simps)
qed (simp add: map_filter_simps)

end
