(* ===== verification/Spec2Isabelle.thy ===== *)
theory Spec2Isabelle
  imports System Data_Plane_Main Logger
begin

text \<open>
  The ATLAS client (src/, C): a program on an IoT gateway that registers with a cloud gateway over
  CoAP/DTLS, keeps the registration alive, pushes telemetry, executes remote commands, and serves
  over a Unix socket the data plane library, which an MQTT application links against.

  \<^bold>\<open>Parts and theories.\<close> Everything below src/src is C; a theory models the file of the same name.

  \<^item> Atlas\_Prelude: words, pointers (\<open>'a ptr\<close> is an option, \<open>None\<close> is NULL), byte orders, checked
    memory reads and writes, lists updated at the first match, status and method codes
    (utils/atlas\_status.h, coap/atlas\_coap\_method.h, coap/atlas\_coap\_response.h).
  \<^item> C\_Strings, C\_Floats: what the program uses of the C library on strings, integers in decimal and
    IEEE 754 numbers (\<open>atoi\<close>, \<open>strtol\<close>, \<open>atof\<close>, \<open>%f\<close>, bounded copies).
  \<^item> Kernel: descriptors, the clock of environment calls, the outputs in order, and a constructor for
    each function whose pointer is stored.
  \<^item> Config (utils/atlas\_config.c), Scheduler (scheduler/, the event loop on \<open>select\<close>), Alarm (alarm/,
    timers as descriptors), Identity (identity/).
  \<^item> Coap\_Client and Coap\_Server (coap/): requests with tokens and timeouts, resources and routing.
  \<^item> Commands and Command\_Codec (commands/atlas\_command.c, atlas\_command\_types.h): the
    type-length-value batches; Messages: the sending pattern the senders share.
  \<^item> Connector (data\_plane\_connector/): the client's end of the Unix socket.
  \<^item> Payloads, Telemetry, Alerts (telemetry/): payload texts, the feature list and its pushes, push
    and threshold alerts.
  \<^item> Command\_Execute (commands\_execute/), Register (register/).
  \<^item> Program (atlas\_main.c), Ownership, Callbacks, System: the whole client.
  \<^item> Agent (data\_plane/atlas\_client.c) and Agent\_Link: the library on the other end of the socket, and
    both ends together.
  \<^item> Data\_Plane, Data\_Plane\_Time, Data\_Plane\_Window, Data\_Plane\_Setup, Data\_Plane\_Main
    (data\_plane/atlas\_data\_plane.c): the MQTT application with its threads.
  \<^item> Logger (logger/).

  \<^bold>\<open>State and interaction.\<close> Each component's record extends the record of the component below it by the
  file-static variables of its C file, so the operations of a lower component apply unchanged to
  every state above it. Calls are function calls on this state; a stored function pointer is a
  constructor (\<open>sched_cb\<close>, \<open>alarm_cb\<close>, \<open>client_cb\<close>, \<open>server_cb\<close>), resolved by \<open>run_sched\<close>,
  \<open>run_alarm\<close>, \<open>run_client\<close> and \<open>run_server\<close> of Program, which are arguments of the operations that
  call through the pointer. What the process does to the outside is a list of outputs
  (\<open>outs\<close>, \<open>mqtt_out\<close>). What it asks of the outside (the kernel, libcoap, libuuid, OpenSSL, the MQTT
  library, times, random numbers) are functions from the clock to an answer, fields \<open>e_\<dots>\<close> of
  the state that no operation changes: a theorem holds for all answers unless it names them.

  \<^bold>\<open>Errors.\<close> A result in \<open>option\<close> is \<open>None\<close> when the C code would leave an object, follow a NULL or
  dangling pointer, overflow a signed integer or convert out of range; all other failures are the
  status values of the source. Integers keep their width as words; signed values are integers with
  their range checked.

  \<^bold>\<open>What the lemmas show.\<close>
  \<^item> Command\_Codec: parsing accepts exactly the encodings of lists of commands and walking a batch
    yields them; what is built with add is what is received. A batch past 64 KiB overflows.
  \<^item> Scheduler, Alarm: a pass serves each ready descriptor once and forgets deleted ones; timers are
    independent; a descriptor reused inside a callback makes the loop stop.
  \<^item> Coap\_Client, Coap\_Server: a request is registered once or leaves no trace, ends exactly once, and
    is answered only by a message with its token; a resource is served after it is added.
  \<^item> Connector: the locale \<open>connector_inv\<close> states what a predicate must satisfy to be kept by all
    handlers; its interpretation \<open>conn\<close> with the conditions the handlers rely on gives their safety.
    Command\_Codec has the locale of the codec with its interpretation \<open>cmds\<close>.
  \<^item> Telemetry, Alerts, Command\_Execute, Register: payloads, parameters and effects of the end-points,
    the keep-alive counter, the start of a registration.
  \<^item> Ownership, Callbacks, System: one invariant (who owns which descriptor, timer, request, context)
    that every callback keeps, hence no callback of the running client faults, and a request not
    answered in time is released and its callback run with the timeout.
  \<^item> Agent, Agent\_Link: every loop of the library ends once the client accepts connections; whatever
    the order of its calls, its messages are ones the client can take; policy, statistics,
    identity and reputation arrive at the other end as they were sent.
  \<^item> Data\_Plane\_Time: the floating point time computation is exact and the score in range.
  \<^item> Data\_Plane\_Window: in every interleaving of the threads the entries of a feedback window are valid
    and reported whole; a published value is scored under its publisher's identity; which
    messages the collection does not survive.
  \<^item> Data\_Plane\_Setup, Data\_Plane\_Main: the \<open>strtok\<close> parsers against a description of their format,
    and the start of the application from its command line.

  \<^bold>\<open>Bounds and fuel.\<close> \<open>atlas_sched_loop run n\<close> makes \<open>n\<close> passes of the endless loop and \<open>publish_task\<close>,
  \<open>register_to_atlas_client\<close> their first rounds; theorems hold for all \<open>n\<close>. The retry loops of
  the agent (\<open>connect_loop\<close>, \<open>socket_connect\<close>, \<open>write_to_socket_retry\<close>) get fuel and yield \<open>None\<close> when it
  ends; \<open>message_delivered\<close> shows how much is enough. The token loops of the data plane application
  get the length of their argument, which bounds the number of tokens. Walks over a batch recurse
  on its remaining bytes.

  \<^bold>\<open>Not modelled.\<close>
  \<^item> Log and terminal output of the components (no effect on the state); in \<open>publish_feature_value\<close> this
    leaves out the read of an uninitialised value that is only printed.
  \<^item> Interleavings inside one call of the client library and inside the critical sections of the data
    plane application: calls and critical sections are single steps, so data races within them
    are not visible; the reputation thread is modelled statement by statement.
  \<^item> Allocation failure, except where the source checks for it; freed memory is tracked only where
    a pointer to it is used again.
  \<^item> libcoap, OpenSSL, libuuid, the MQTT library and the kernel beyond the answers above: their code is
    not in the repository. utils/atlas\_utils.h only includes a header the build generates.
  \<^item> The sign of a NaN; \<open>getopt\<close> with \<open>POSIXLY_CORRECT\<close>.
\<close>

end
